theory Spec2Isabelle
  imports Complex_Main
begin

section \<open>Data model (src/db/store.ts, src/types/models.ts)\<close>

text \<open>
  The store is one SQLite database. Every table is modelled as the list of its rows in
  rowid order; a column that may be NULL is an \<open>option\<close>. Primary keys are
  \<open>INTEGER PRIMARY KEY AUTOINCREMENT\<close>: the store keeps, per table, the largest
  rowid handed out so far (SQLite's \<open>sqlite_sequence\<close>), and an insert takes the next
  one, so a rowid is never reused after a delete. The ISO text twins of the epoch columns
  (\<open>started_at\<close>, \<open>created_at\<close>) are a rendering of the epoch value and are
  left out. \<open>Date.now()\<close> is a parameter of every operation that reads the clock.
\<close>

datatype pending_message_type = Observation | Summarize

datatype pending_status = Pending | Processing | Processed | Failed

datatype session_status = Active | Completed | SessionFailed

record sdk_session =
  ses_id :: int
  ses_content_session_id :: string
  ses_memory_session_id :: "string option"
  ses_project :: string
  ses_user_prompt :: "string option"
  ses_started_at_epoch :: int
  ses_completed_at_epoch :: "int option"
  ses_status :: session_status

record user_prompt =
  up_id :: int
  up_content_session_id :: string
  up_prompt_number :: int
  up_prompt_text :: string
  up_created_at_epoch :: int
  up_last_accessed_at_epoch :: "int option"
  up_deleted_at_epoch :: "int option"

record observation =
  obs_id :: int
  obs_memory_session_id :: string
  obs_project :: string
  obs_type :: string
  obs_title :: "string option"
  obs_subtitle :: "string option"
  obs_facts :: "string list"
  obs_narrative :: "string option"
  obs_concepts :: "string list"
  obs_files_read :: "string list"
  obs_files_modified :: "string list"
  obs_prompt_number :: int
  obs_created_at_epoch :: int
  obs_last_accessed_at_epoch :: "int option"
  obs_deleted_at_epoch :: "int option"

record session_summary =
  sum_id :: int
  sum_memory_session_id :: string
  sum_project :: string
  sum_request :: "string option"
  sum_investigated :: "string option"
  sum_learned :: "string option"
  sum_completed :: "string option"
  sum_next_steps :: "string option"
  sum_notes :: "string option"
  sum_prompt_number :: int
  sum_created_at_epoch :: int
  sum_last_accessed_at_epoch :: "int option"
  sum_deleted_at_epoch :: "int option"

record pending_message =
  pm_id :: int
  pm_session_db_id :: int
  pm_content_session_id :: string
  pm_message_type :: pending_message_type
  pm_dedupe_key :: "string option"
  pm_tool_name :: "string option"
  pm_tool_input :: "string option"
  pm_tool_response :: "string option"
  pm_cwd :: "string option"
  pm_last_assistant_message :: "string option"
  pm_prompt_number :: "int option"
  pm_status :: pending_status
  pm_retry_count :: int
  pm_created_at_epoch :: int
  pm_started_processing_at_epoch :: "int option"
  pm_completed_at_epoch :: "int option"
  pm_failed_at_epoch :: "int option"

record processed_dedupe =
  dd_id :: int
  dd_session_db_id :: int
  dd_message_type :: pending_message_type
  dd_dedupe_key :: string
  dd_created_at_epoch :: int

record project_activity =
  pa_project :: string
  pa_last_accessed_at_epoch :: int
  pa_updated_at_epoch :: int

record retention_policy =
  rp_project :: string
  rp_enabled :: bool
  rp_pinned :: bool
  rp_ttl_days :: "int option"
  rp_updated_at_epoch :: int

record store =
  sdk_sessions :: "sdk_session list"
  user_prompts :: "user_prompt list"
  observations :: "observation list"
  session_summaries :: "session_summary list"
  pending_messages :: "pending_message list"
  processed_message_dedupe :: "processed_dedupe list"
  project_memory_activity :: "project_activity list"
  project_retention_policies :: "retention_policy list"
  seq_sdk_sessions :: int
  seq_user_prompts :: int
  seq_observations :: int
  seq_session_summaries :: int
  seq_pending_messages :: int
  seq_processed_message_dedupe :: int

definition empty_store :: store where
  "empty_store = \<lparr> sdk_sessions = [], user_prompts = [], observations = [],
     session_summaries = [], pending_messages = [], processed_message_dedupe = [],
     project_memory_activity = [], project_retention_policies = [],
     seq_sdk_sessions = 0, seq_user_prompts = 0, seq_observations = 0,
     seq_session_summaries = 0, seq_pending_messages = 0,
     seq_processed_message_dedupe = 0 \<rparr>"

text \<open>A statement that violates a constraint of the schema throws; the two kinds that the
  modelled statements can meet are kept apart.\<close>

datatype db_error = ConstraintUnique | ConstraintForeignKey

definition MAX_RETRY :: int where
  "MAX_RETRY = 3"

definition DAY_MS :: int where
  "DAY_MS = 24 * 60 * 60 * 1000"

section \<open>The durable queue (Store.enqueueObservation .. Store.retryFailed)\<close>

definition session_exists :: "int \<Rightarrow> store \<Rightarrow> bool" where
  "session_exists sid s = list_ex (\<lambda>ses. ses_id ses = sid) (sdk_sessions s)"

definition dedupe_match :: "int \<Rightarrow> pending_message_type \<Rightarrow> string \<Rightarrow> pending_message \<Rightarrow> bool" where
  "dedupe_match sid ty k m =
     (pm_session_db_id m = sid \<and> pm_message_type m = ty \<and> pm_dedupe_key m = Some k)"

definition ledger_match :: "int \<Rightarrow> pending_message_type \<Rightarrow> string \<Rightarrow> processed_dedupe \<Rightarrow> bool" where
  "ledger_match sid ty k d =
     (dd_session_db_id d = sid \<and> dd_message_type d = ty \<and> dd_dedupe_key d = k)"

text \<open>\<open>INSERT INTO pending_messages\<close>: the partial unique index
  \<open>idx_pending_dedupe (session_db_id, message_type, dedupe_key) WHERE dedupe_key IS NOT NULL\<close>
  and the foreign key to \<open>sdk_sessions(id)\<close> are checked; the new row takes the next rowid.\<close>

definition insert_pending_message :: "pending_message \<Rightarrow> store \<Rightarrow> db_error + (int \<times> store)" where
  "insert_pending_message row s =
     (if (case pm_dedupe_key row of None \<Rightarrow> False
          | Some k \<Rightarrow> list_ex (dedupe_match (pm_session_db_id row) (pm_message_type row) k)
                        (pending_messages s))
      then Inl ConstraintUnique
      else if \<not> session_exists (pm_session_db_id row) s then Inl ConstraintForeignKey
      else let i = seq_pending_messages s + 1
           in Inr (i, s\<lparr> pending_messages := pending_messages s @ [row\<lparr> pm_id := i \<rparr>],
                        seq_pending_messages := i \<rparr>))"

record observation_payload =
  pl_tool_name :: string
  pl_tool_input :: string
  pl_tool_response :: string
  pl_cwd :: string
  pl_prompt_number :: int
  pl_dedupe_key :: "string option"

record summarize_payload =
  sp_last_assistant_message :: string
  sp_prompt_number :: int
  sp_dedupe_key :: "string option"

record enqueue_result =
  enq_id :: int
  deduped :: bool

definition observation_row ::
  "int \<Rightarrow> int \<Rightarrow> string \<Rightarrow> observation_payload \<Rightarrow> string option \<Rightarrow> pending_message" where
  "observation_row now sessionDbId contentSessionId payload key =
     \<lparr> pm_id = 0, pm_session_db_id = sessionDbId, pm_content_session_id = contentSessionId,
       pm_message_type = Observation, pm_dedupe_key = key,
       pm_tool_name = Some (pl_tool_name payload), pm_tool_input = Some (pl_tool_input payload),
       pm_tool_response = Some (pl_tool_response payload), pm_cwd = Some (pl_cwd payload),
       pm_last_assistant_message = None, pm_prompt_number = Some (pl_prompt_number payload),
       pm_status = Pending, pm_retry_count = 0, pm_created_at_epoch = now,
       pm_started_processing_at_epoch = None, pm_completed_at_epoch = None,
       pm_failed_at_epoch = None \<rparr>"

definition summarize_row ::
  "int \<Rightarrow> int \<Rightarrow> string \<Rightarrow> summarize_payload \<Rightarrow> string option \<Rightarrow> pending_message" where
  "summarize_row now sessionDbId contentSessionId payload key =
     \<lparr> pm_id = 0, pm_session_db_id = sessionDbId, pm_content_session_id = contentSessionId,
       pm_message_type = Summarize, pm_dedupe_key = key,
       pm_tool_name = None, pm_tool_input = None, pm_tool_response = None, pm_cwd = None,
       pm_last_assistant_message = Some (sp_last_assistant_message payload),
       pm_prompt_number = Some (sp_prompt_number payload),
       pm_status = Pending, pm_retry_count = 0, pm_created_at_epoch = now,
       pm_started_processing_at_epoch = None, pm_completed_at_epoch = None,
       pm_failed_at_epoch = None \<rparr>"

text \<open>The transaction of \<open>enqueueObservation\<close> / \<open>enqueueSummarize\<close> for a truthy
  dedupe key: \<open>INSERT OR IGNORE\<close> into the ledger, and when that changed no row, the
  lookup of the queued item (\<open>existing?.id ?? 0\<close>); otherwise the queue insert. A
  throwing statement rolls the whole transaction back: the result is the error alone and
  the caller's store is the one it had.\<close>

definition enqueue_tx ::
  "int \<Rightarrow> int \<Rightarrow> pending_message_type \<Rightarrow> string \<Rightarrow> pending_message \<Rightarrow> store
     \<Rightarrow> db_error + (enqueue_result \<times> store)" where
  "enqueue_tx now sessionDbId ty k row s =
     (if list_ex (ledger_match sessionDbId ty k) (processed_message_dedupe s)
      then (case find (dedupe_match sessionDbId ty k) (pending_messages s) of
              None \<Rightarrow> Inr (\<lparr> enq_id = 0, deduped = True \<rparr>, s)
            | Some existing \<Rightarrow> Inr (\<lparr> enq_id = pm_id existing, deduped = True \<rparr>, s))
      else if \<not> session_exists sessionDbId s then Inl ConstraintForeignKey
      else let d = seq_processed_message_dedupe s + 1;
               s1 = s\<lparr> processed_message_dedupe := processed_message_dedupe s @
                          [\<lparr> dd_id = d, dd_session_db_id = sessionDbId, dd_message_type = ty,
                             dd_dedupe_key = k, dd_created_at_epoch = now \<rparr>],
                        seq_processed_message_dedupe := d \<rparr>
           in (case insert_pending_message row s1 of
                 Inl e \<Rightarrow> Inl e
               | Inr (i, s2) \<Rightarrow> Inr (\<lparr> enq_id = i, deduped = False \<rparr>, s2)))"

text \<open>\<open>!payload.dedupe_key\<close> holds for an absent key and for the empty string.\<close>

definition enqueueObservation ::
  "int \<Rightarrow> int \<Rightarrow> string \<Rightarrow> observation_payload \<Rightarrow> store \<Rightarrow> db_error + (enqueue_result \<times> store)" where
  "enqueueObservation now sessionDbId contentSessionId payload s =
     (case (case pl_dedupe_key payload of None \<Rightarrow> None | Some k \<Rightarrow> if k = [] then None else Some k) of
        None \<Rightarrow>
          (case insert_pending_message
                  (observation_row now sessionDbId contentSessionId payload None) s of
             Inl e \<Rightarrow> Inl e
           | Inr (i, s') \<Rightarrow> Inr (\<lparr> enq_id = i, deduped = False \<rparr>, s'))
      | Some k \<Rightarrow>
          enqueue_tx now sessionDbId Observation k
            (observation_row now sessionDbId contentSessionId payload (Some k)) s)"

definition enqueueSummarize ::
  "int \<Rightarrow> int \<Rightarrow> string \<Rightarrow> summarize_payload \<Rightarrow> store \<Rightarrow> db_error + (enqueue_result \<times> store)" where
  "enqueueSummarize now sessionDbId contentSessionId payload s =
     (case (case sp_dedupe_key payload of None \<Rightarrow> None | Some k \<Rightarrow> if k = [] then None else Some k) of
        None \<Rightarrow>
          (case insert_pending_message
                  (summarize_row now sessionDbId contentSessionId payload None) s of
             Inl e \<Rightarrow> Inl e
           | Inr (i, s') \<Rightarrow> Inr (\<lparr> enq_id = i, deduped = False \<rparr>, s'))
      | Some k \<Rightarrow>
          enqueue_tx now sessionDbId Summarize k
            (summarize_row now sessionDbId contentSessionId payload (Some k)) s)"

text \<open>\<open>ORDER BY id ASC LIMIT 1\<close>: the row of least id among the candidates.\<close>

fun oldest :: "pending_message list \<Rightarrow> pending_message option" where
  "oldest [] = None"
| "oldest (m # ms) =
     (case oldest ms of
        None \<Rightarrow> Some m
      | Some m' \<Rightarrow> if pm_id m \<le> pm_id m' then Some m else Some m')"

definition claimable :: "int \<Rightarrow> pending_message \<Rightarrow> bool" where
  "claimable sid m = (pm_session_db_id m = sid \<and> pm_status m = Pending)"

text \<open>\<open>claimNextPending\<close> is one transaction: the select and the update are one step of
  the model. The row is returned as it was read, before the update.\<close>

definition claimNextPending :: "int \<Rightarrow> int \<Rightarrow> store \<Rightarrow> pending_message option \<times> store" where
  "claimNextPending now sid s =
     (case oldest (filter (claimable sid) (pending_messages s)) of
        None \<Rightarrow> (None, s)
      | Some msg \<Rightarrow>
          (Some msg,
           s\<lparr> pending_messages :=
                map (\<lambda>m. if pm_id m = pm_id msg
                          then m\<lparr> pm_status := Processing,
                                  pm_started_processing_at_epoch := Some now \<rparr>
                          else m) (pending_messages s) \<rparr>))"

definition confirmProcessed :: "int \<Rightarrow> store \<Rightarrow> store" where
  "confirmProcessed messageId s =
     s\<lparr> pending_messages := filter (\<lambda>m. pm_id m \<noteq> messageId) (pending_messages s) \<rparr>"

definition markFailed :: "int \<Rightarrow> int \<Rightarrow> store \<Rightarrow> store" where
  "markFailed now messageId s =
     (case find (\<lambda>m. pm_id m = messageId) (pending_messages s) of
        None \<Rightarrow> s
      | Some row \<Rightarrow>
          if pm_retry_count row < MAX_RETRY
          then s\<lparr> pending_messages :=
                    map (\<lambda>m. if pm_id m = messageId
                              then m\<lparr> pm_status := Pending,
                                      pm_retry_count := pm_retry_count m + 1,
                                      pm_started_processing_at_epoch := None \<rparr>
                              else m) (pending_messages s) \<rparr>
          else s\<lparr> pending_messages :=
                    map (\<lambda>m. if pm_id m = messageId
                              then m\<lparr> pm_status := Failed, pm_failed_at_epoch := Some now \<rparr>
                              else m) (pending_messages s) \<rparr>)"

definition stale :: "int \<Rightarrow> pending_message \<Rightarrow> bool" where
  "stale cutoff m =
     (pm_status m = Processing \<and>
      (case pm_started_processing_at_epoch m of None \<Rightarrow> False | Some t \<Rightarrow> t < cutoff))"

definition resetStaleProcessing :: "int \<Rightarrow> int \<Rightarrow> store \<Rightarrow> nat \<times> store" where
  "resetStaleProcessing now thresholdMs s =
     (let cutoff = now - thresholdMs
      in (length (filter (stale cutoff) (pending_messages s)),
          s\<lparr> pending_messages :=
               map (\<lambda>m. if stale cutoff m
                         then m\<lparr> pm_status := Pending, pm_started_processing_at_epoch := None \<rparr>
                         else m) (pending_messages s) \<rparr>))"

definition getPendingCount :: "int \<Rightarrow> store \<Rightarrow> nat" where
  "getPendingCount sessionDbId s =
     length (filter (\<lambda>m. pm_session_db_id m = sessionDbId \<and>
                          (pm_status m = Pending \<or> pm_status m = Processing))
               (pending_messages s))"

definition retryFailed :: "int option \<Rightarrow> store \<Rightarrow> nat \<times> store" where
  "retryFailed sessionDbId s =
     (let hit = (\<lambda>m. pm_status m = Failed \<and>
                      (case sessionDbId of None \<Rightarrow> True | Some sid \<Rightarrow> pm_session_db_id m = sid))
      in (length (filter hit (pending_messages s)),
          s\<lparr> pending_messages :=
               map (\<lambda>m. if hit m
                         then m\<lparr> pm_status := Pending, pm_retry_count := 0,
                                 pm_started_processing_at_epoch := None,
                                 pm_failed_at_epoch := None \<rparr>
                         else m) (pending_messages s) \<rparr>))"

section \<open>Sessions, prompts, observations and summaries\<close>

text \<open>\<open>[...new Set(xs)]\<close>: the distinct elements in order of first occurrence.\<close>

fun uniq :: "'a list \<Rightarrow> 'a list" where
  "uniq [] = []"
| "uniq (x # xs) = x # filter (\<lambda>y. y \<noteq> x) (uniq xs)"

definition upsert_activity :: "int \<Rightarrow> string \<Rightarrow> project_activity list \<Rightarrow> project_activity list" where
  "upsert_activity atEpoch p rows =
     (if list_ex (\<lambda>r. pa_project r = p) rows
      then map (\<lambda>r. if pa_project r = p
                      then r\<lparr> pa_last_accessed_at_epoch :=
                                 (if atEpoch > pa_last_accessed_at_epoch r then atEpoch
                                  else pa_last_accessed_at_epoch r),
                               pa_updated_at_epoch := atEpoch \<rparr>
                      else r) rows
      else rows @ [\<lparr> pa_project = p, pa_last_accessed_at_epoch = atEpoch,
                      pa_updated_at_epoch = atEpoch \<rparr>])"

definition touchProjectActivity :: "string list \<Rightarrow> int \<Rightarrow> store \<Rightarrow> store" where
  "touchProjectActivity projects atEpoch s =
     s\<lparr> project_memory_activity :=
          fold (upsert_activity atEpoch) (uniq (filter (\<lambda>x. x \<noteq> []) projects))
            (project_memory_activity s) \<rparr>"

definition getSessionById :: "int \<Rightarrow> store \<Rightarrow> sdk_session option" where
  "getSessionById sessionDbId s = find (\<lambda>ses. ses_id ses = sessionDbId) (sdk_sessions s)"

definition getSessionByContentSessionId :: "string \<Rightarrow> store \<Rightarrow> sdk_session option" where
  "getSessionByContentSessionId contentSessionId s =
     find (\<lambda>ses. ses_content_session_id ses = contentSessionId) (sdk_sessions s)"

definition createSDKSession :: "int \<Rightarrow> string \<Rightarrow> string \<Rightarrow> string \<Rightarrow> store \<Rightarrow> int \<times> store" where
  "createSDKSession now contentSessionId project userPrompt s =
     (case getSessionByContentSessionId contentSessionId s of
        Some existing \<Rightarrow>
          (ses_id existing,
           if project \<noteq> []
           then s\<lparr> sdk_sessions :=
                     map (\<lambda>ses. if ses_content_session_id ses = contentSessionId \<and> ses_project ses = []
                                 then ses\<lparr> ses_project := project \<rparr> else ses) (sdk_sessions s) \<rparr>
           else s)
      | None \<Rightarrow>
          (let i = seq_sdk_sessions s + 1
           in (i, touchProjectActivity [project] now
                    (s\<lparr> sdk_sessions := sdk_sessions s @
                           [\<lparr> ses_id = i, ses_content_session_id = contentSessionId,
                              ses_memory_session_id = None, ses_project = project,
                              ses_user_prompt = Some userPrompt, ses_started_at_epoch = now,
                              ses_completed_at_epoch = None, ses_status = Active \<rparr>],
                         seq_sdk_sessions := i \<rparr>))))"

text \<open>\<open>UPDATE sdk_sessions SET memory_session_id = ? WHERE id = ?\<close>: the column is
  \<open>UNIQUE\<close>, and the observations and summaries that refer to the old value follow it
  (\<open>ON UPDATE CASCADE\<close>).\<close>

definition ensureMemorySessionIdRegistered :: "int \<Rightarrow> string \<Rightarrow> store \<Rightarrow> db_error + store" where
  "ensureMemorySessionIdRegistered sessionDbId memorySessionId s =
     (case getSessionById sessionDbId s of
        None \<Rightarrow> Inr s
      | Some ses \<Rightarrow>
          if list_ex (\<lambda>other. ses_id other \<noteq> sessionDbId \<and>
                               ses_memory_session_id other = Some memorySessionId) (sdk_sessions s)
          then Inl ConstraintUnique
          else Inr (s\<lparr> sdk_sessions :=
                         map (\<lambda>x. if ses_id x = sessionDbId
                                   then x\<lparr> ses_memory_session_id := Some memorySessionId \<rparr>
                                   else x) (sdk_sessions s),
                       observations :=
                         map (\<lambda>ob. if Some (obs_memory_session_id ob) = ses_memory_session_id ses
                                    then ob\<lparr> obs_memory_session_id := memorySessionId \<rparr>
                                    else ob) (observations s),
                       session_summaries :=
                         map (\<lambda>su. if Some (sum_memory_session_id su) = ses_memory_session_id ses
                                    then su\<lparr> sum_memory_session_id := memorySessionId \<rparr>
                                    else su) (session_summaries s) \<rparr>))"

definition saveUserPrompt :: "int \<Rightarrow> string \<Rightarrow> int \<Rightarrow> string \<Rightarrow> store \<Rightarrow> db_error + (int \<times> store)" where
  "saveUserPrompt now contentSessionId promptNumber promptText s =
     (case getSessionByContentSessionId contentSessionId s of
        None \<Rightarrow> Inl ConstraintForeignKey
      | Some ses \<Rightarrow>
          (let i = seq_user_prompts s + 1;
               s1 = s\<lparr> user_prompts := user_prompts s @
                          [\<lparr> up_id = i, up_content_session_id = contentSessionId,
                             up_prompt_number = promptNumber, up_prompt_text = promptText,
                             up_created_at_epoch = now, up_last_accessed_at_epoch = Some now,
                             up_deleted_at_epoch = None \<rparr>],
                        seq_user_prompts := i \<rparr>
           in Inr (i, if ses_project ses \<noteq> [] then touchProjectActivity [ses_project ses] now s1
                      else s1)))"

definition getPromptNumberFromUserPrompts :: "string \<Rightarrow> store \<Rightarrow> int" where
  "getPromptNumberFromUserPrompts contentSessionId s =
     int (length (filter (\<lambda>p. up_content_session_id p = contentSessionId) (user_prompts s)))"

definition getUserPrompt :: "string \<Rightarrow> int \<Rightarrow> store \<Rightarrow> string option" where
  "getUserPrompt contentSessionId promptNumber s =
     map_option up_prompt_text
       (find (\<lambda>p. up_content_session_id p = contentSessionId \<and> up_prompt_number p = promptNumber)
          (user_prompts s))"

record observation_input =
  oi_type :: string
  oi_title :: "string option"
  oi_subtitle :: "string option"
  oi_facts :: "string list"
  oi_narrative :: "string option"
  oi_concepts :: "string list"
  oi_files_read :: "string list"
  oi_files_modified :: "string list"

record summary_input =
  si_request :: string
  si_investigated :: string
  si_learned :: string
  si_completed :: string
  si_next_steps :: string
  si_notes :: "string option"

definition memory_session_registered :: "string \<Rightarrow> store \<Rightarrow> bool" where
  "memory_session_registered memorySessionId s =
     list_ex (\<lambda>ses. ses_memory_session_id ses = Some memorySessionId) (sdk_sessions s)"

definition storeObservation ::
  "int \<Rightarrow> string \<Rightarrow> string \<Rightarrow> observation_input \<Rightarrow> int \<Rightarrow> store \<Rightarrow> db_error + (int \<times> store)" where
  "storeObservation now memorySessionId project ob promptNumber s =
     (if \<not> memory_session_registered memorySessionId s then Inl ConstraintForeignKey
      else let i = seq_observations s + 1
           in Inr (i, touchProjectActivity [project] now
                        (s\<lparr> observations := observations s @
                               [\<lparr> obs_id = i, obs_memory_session_id = memorySessionId,
                                  obs_project = project, obs_type = oi_type ob,
                                  obs_title = oi_title ob, obs_subtitle = oi_subtitle ob,
                                  obs_facts = oi_facts ob, obs_narrative = oi_narrative ob,
                                  obs_concepts = oi_concepts ob, obs_files_read = oi_files_read ob,
                                  obs_files_modified = oi_files_modified ob,
                                  obs_prompt_number = promptNumber, obs_created_at_epoch = now,
                                  obs_last_accessed_at_epoch = Some now,
                                  obs_deleted_at_epoch = None \<rparr>],
                             seq_observations := i \<rparr>)))"

definition storeSummary ::
  "int \<Rightarrow> string \<Rightarrow> string \<Rightarrow> summary_input \<Rightarrow> int \<Rightarrow> store \<Rightarrow> db_error + (int \<times> store)" where
  "storeSummary now memorySessionId project su promptNumber s =
     (if \<not> memory_session_registered memorySessionId s then Inl ConstraintForeignKey
      else let i = seq_session_summaries s + 1
           in Inr (i, touchProjectActivity [project] now
                        (s\<lparr> session_summaries := session_summaries s @
                               [\<lparr> sum_id = i, sum_memory_session_id = memorySessionId,
                                  sum_project = project, sum_request = Some (si_request su),
                                  sum_investigated = Some (si_investigated su),
                                  sum_learned = Some (si_learned su),
                                  sum_completed = Some (si_completed su),
                                  sum_next_steps = Some (si_next_steps su),
                                  sum_notes = si_notes su,
                                  sum_prompt_number = promptNumber, sum_created_at_epoch = now,
                                  sum_last_accessed_at_epoch = Some now,
                                  sum_deleted_at_epoch = None \<rparr>],
                             seq_session_summaries := i \<rparr>)))"

section \<open>Read paths of the store\<close>

text \<open>\<open>ORDER BY created_at_epoch\<close> is a stable sort of the rows in rowid order (SQL leaves
  the order of ties open; the model fixes it). A negative \<open>LIMIT\<close> is no limit, a
  negative \<open>OFFSET\<close> is none.\<close>

datatype order_by = Relevance | DateDesc | DateAsc

definition order_by_epoch :: "order_by option \<Rightarrow> ('r \<Rightarrow> int) \<Rightarrow> 'r list \<Rightarrow> 'r list" where
  "order_by_epoch orderBy key rows =
     (if orderBy = Some DateAsc then sort_key key rows else sort_key (\<lambda>r. - key r) rows)"

definition sql_limit :: "int \<Rightarrow> 'r list \<Rightarrow> 'r list" where
  "sql_limit n rows = (if n < 0 then rows else take (nat n) rows)"

definition sql_offset :: "int \<Rightarrow> 'r list \<Rightarrow> 'r list" where
  "sql_offset n rows = drop (nat n) rows"

text \<open>An optional filter of the callers: \<open>if (options.project)\<close> skips an absent and an
  empty project; \<open>typeof x === "number"\<close> skips an absent bound.\<close>

definition project_filter :: "string option \<Rightarrow> string \<Rightarrow> bool" where
  "project_filter project p = (case project of None \<Rightarrow> True | Some q \<Rightarrow> q = [] \<or> p = q)"

definition date_filter :: "int option \<Rightarrow> int option \<Rightarrow> int \<Rightarrow> bool" where
  "date_filter dateStartEpoch dateEndEpoch t =
     ((case dateStartEpoch of None \<Rightarrow> True | Some a \<Rightarrow> a \<le> t) \<and>
      (case dateEndEpoch of None \<Rightarrow> True | Some b \<Rightarrow> t \<le> b))"

definition type_filter :: "string list \<Rightarrow> string \<Rightarrow> bool" where
  "type_filter obsTypes ty = (obsTypes = [] \<or> ty \<in> set obsTypes)"

record by_ids_options =
  bo_orderBy :: "order_by option"
  bo_limit :: "int option"
  bo_project :: "string option"
  bo_obsTypes :: "string list"
  bo_dateStartEpoch :: "int option"
  bo_dateEndEpoch :: "int option"

text \<open>\<open>options.limit ? `LIMIT ${Math.max(1, options.limit)}` : ""\<close>\<close>

definition limit_clause :: "int option \<Rightarrow> 'r list \<Rightarrow> 'r list" where
  "limit_clause limit rows =
     (case limit of None \<Rightarrow> rows
      | Some n \<Rightarrow> if n = 0 then rows else sql_limit (max 1 n) rows)"

definition getObservationById :: "int \<Rightarrow> store \<Rightarrow> observation option" where
  "getObservationById i s =
     find (\<lambda>ob. obs_id ob = i \<and> obs_deleted_at_epoch ob = None) (observations s)"

definition getObservationsByIds :: "int list \<Rightarrow> by_ids_options \<Rightarrow> store \<Rightarrow> observation list" where
  "getObservationsByIds ids options s =
     (if ids = [] then []
      else limit_clause (bo_limit options)
             (order_by_epoch (bo_orderBy options) obs_created_at_epoch
                (filter (\<lambda>ob. obs_id ob \<in> set ids \<and> obs_deleted_at_epoch ob = None \<and>
                               project_filter (bo_project options) (obs_project ob) \<and>
                               type_filter (bo_obsTypes options) (obs_type ob) \<and>
                               date_filter (bo_dateStartEpoch options) (bo_dateEndEpoch options)
                                 (obs_created_at_epoch ob))
                   (observations s))))"

definition getSummariesByIds :: "int list \<Rightarrow> by_ids_options \<Rightarrow> store \<Rightarrow> session_summary list" where
  "getSummariesByIds ids options s =
     (if ids = [] then []
      else limit_clause (bo_limit options)
             (order_by_epoch (bo_orderBy options) sum_created_at_epoch
                (filter (\<lambda>su. sum_id su \<in> set ids \<and> sum_deleted_at_epoch su = None \<and>
                               project_filter (bo_project options) (sum_project su) \<and>
                               date_filter (bo_dateStartEpoch options) (bo_dateEndEpoch options)
                                 (sum_created_at_epoch su))
                   (session_summaries s))))"

text \<open>\<open>user_prompts up JOIN sdk_sessions s ON s.content_session_id = up.content_session_id\<close>\<close>

definition prompt_join :: "store \<Rightarrow> (user_prompt \<times> sdk_session) list" where
  "prompt_join s =
     concat (map (\<lambda>up. map (Pair up)
                          (filter (\<lambda>ses. ses_content_session_id ses = up_content_session_id up)
                             (sdk_sessions s)))
               (user_prompts s))"

definition getPromptsByIds :: "int list \<Rightarrow> by_ids_options \<Rightarrow> store \<Rightarrow> user_prompt list" where
  "getPromptsByIds ids options s =
     (if ids = [] then []
      else map fst
             (limit_clause (bo_limit options)
                (order_by_epoch (bo_orderBy options) (\<lambda>r. up_created_at_epoch (fst r))
                   (filter (\<lambda>r. up_id (fst r) \<in> set ids \<and> up_deleted_at_epoch (fst r) = None \<and>
                                 project_filter (bo_project options) (ses_project (snd r)) \<and>
                                 date_filter (bo_dateStartEpoch options) (bo_dateEndEpoch options)
                                   (up_created_at_epoch (fst r)))
                      (prompt_join s)))))"

definition listObservations :: "int \<Rightarrow> int \<Rightarrow> string option \<Rightarrow> store \<Rightarrow> observation list \<times> nat" where
  "listObservations offset limit project s =
     (let hits = filter (\<lambda>ob. project_filter project (obs_project ob) \<and>
                               obs_deleted_at_epoch ob = None) (observations s)
      in (sql_limit limit (sql_offset offset (order_by_epoch None obs_created_at_epoch hits)),
          length hits))"

definition listSummaries :: "int \<Rightarrow> int \<Rightarrow> string option \<Rightarrow> store \<Rightarrow> session_summary list \<times> nat" where
  "listSummaries offset limit project s =
     (let hits = filter (\<lambda>su. project_filter project (sum_project su) \<and>
                               sum_deleted_at_epoch su = None) (session_summaries s)
      in (sql_limit limit (sql_offset offset (order_by_epoch None sum_created_at_epoch hits)),
          length hits))"

definition listPrompts :: "int \<Rightarrow> int \<Rightarrow> string option \<Rightarrow> store \<Rightarrow> user_prompt list \<times> nat" where
  "listPrompts offset limit project s =
     (let hits = filter (\<lambda>up. up_deleted_at_epoch up = None \<and>
                               (case project of None \<Rightarrow> True
                                | Some q \<Rightarrow> q = [] \<or>
                                    list_ex (\<lambda>ses. ses_project ses = q \<and>
                                                    ses_content_session_id ses = up_content_session_id up)
                                      (sdk_sessions s))) (user_prompts s)
      in (sql_limit limit (sql_offset offset (order_by_epoch None up_created_at_epoch hits)),
          length hits))"

text \<open>JavaScript's \<open>String.prototype.trim\<close> on text whose code units are below 256:
  tab, line feed, vertical tab, form feed, carriage return, space and no-break space.\<close>

definition js_whitespace :: "char \<Rightarrow> bool" where
  "js_whitespace c = ((of_char c :: nat) \<in> {9, 10, 11, 12, 13, 32, 160})"

definition js_trim :: "string \<Rightarrow> string" where
  "js_trim x = rev (dropWhile js_whitespace (rev (dropWhile js_whitespace x)))"

text \<open>\<open>Store.search\<close>. SQLite's \<open>LIKE\<close> operator is the database engine's; it is the
  parameter \<open>like pattern value\<close>, and a NULL column matches nothing.\<close>

record search_args =
  sa_query :: "string option"
  sa_limit :: "int option"
  sa_offset :: "int option"
  sa_project :: "string option"
  sa_includeObservations :: "bool option"
  sa_includeSessions :: "bool option"
  sa_includePrompts :: "bool option"
  sa_obsTypes :: "string list"
  sa_dateStartEpoch :: "int option"
  sa_dateEndEpoch :: "int option"
  sa_orderBy :: "order_by option"

record search_result =
  sr_observations :: "observation list"
  sr_sessions :: "session_summary list"
  sr_prompts :: "user_prompt list"

definition like_column :: "(string \<Rightarrow> string \<Rightarrow> bool) \<Rightarrow> string \<Rightarrow> string option \<Rightarrow> bool" where
  "like_column like pat col = (case col of None \<Rightarrow> False | Some v \<Rightarrow> like pat v)"

text \<open>\<open>ORDER BY created_at_epoch ... LIMIT ? OFFSET ?\<close>\<close>

definition page :: "order_by option \<Rightarrow> int \<Rightarrow> int \<Rightarrow> ('r \<Rightarrow> int) \<Rightarrow> 'r list \<Rightarrow> 'r list" where
  "page orderBy limit offset key rows =
     sql_limit limit (sql_offset offset (order_by_epoch orderBy key rows))"

definition search :: "(string \<Rightarrow> string \<Rightarrow> bool) \<Rightarrow> search_args \<Rightarrow> store \<Rightarrow> search_result" where
  "search like args s =
     (let limit = max 1 (min (case sa_limit args of None \<Rightarrow> 20 | Some n \<Rightarrow> n) 100);
          offset = max 0 (case sa_offset args of None \<Rightarrow> 0 | Some n \<Rightarrow> n);
          q = js_trim (case sa_query args of None \<Rightarrow> [] | Some x \<Rightarrow> x);
          pat = ''%'' @ q @ ''%''
      in \<lparr> sr_observations =
             (if sa_includeObservations args \<noteq> Some False
              then page (sa_orderBy args) limit offset obs_created_at_epoch
                     (filter (\<lambda>ob. obs_deleted_at_epoch ob = None \<and>
                                    (q = [] \<or> like_column like pat (obs_title ob) \<or>
                                       like_column like pat (obs_subtitle ob) \<or>
                                       like_column like pat (obs_narrative ob)) \<and>
                                    project_filter (sa_project args) (obs_project ob) \<and>
                                    type_filter (sa_obsTypes args) (obs_type ob) \<and>
                                    date_filter (sa_dateStartEpoch args) (sa_dateEndEpoch args)
                                      (obs_created_at_epoch ob))
                        (observations s))
              else []),
           sr_sessions =
             (if sa_includeSessions args \<noteq> Some False
              then page (sa_orderBy args) limit offset sum_created_at_epoch
                     (filter (\<lambda>su. sum_deleted_at_epoch su = None \<and>
                                    (q = [] \<or> like_column like pat (sum_request su) \<or>
                                       like_column like pat (sum_investigated su) \<or>
                                       like_column like pat (sum_learned su) \<or>
                                       like_column like pat (sum_completed su) \<or>
                                       like_column like pat (sum_next_steps su)) \<and>
                                    project_filter (sa_project args) (sum_project su) \<and>
                                    date_filter (sa_dateStartEpoch args) (sa_dateEndEpoch args)
                                      (sum_created_at_epoch su))
                        (session_summaries s))
              else []),
           sr_prompts =
             (if sa_includePrompts args \<noteq> Some False
              then map fst
                     (page (sa_orderBy args) limit offset (\<lambda>r. up_created_at_epoch (fst r))
                        (filter (\<lambda>r. up_deleted_at_epoch (fst r) = None \<and>
                                      (q = [] \<or> like pat (up_prompt_text (fst r))) \<and>
                                      project_filter (sa_project args) (ses_project (snd r)) \<and>
                                      date_filter (sa_dateStartEpoch args) (sa_dateEndEpoch args)
                                        (up_created_at_epoch (fst r)))
                           (prompt_join s)))
              else []) \<rparr>)"

text \<open>\<open>Store.touchMemoryAccess\<close>: the access stamp goes on the rows that are not deleted;
  the projects of all the named rows, deleted or not, are rolled up into the activity
  table.\<close>

record touch_args =
  ta_observationIds :: "int list"
  ta_summaryIds :: "int list"
  ta_promptIds :: "int list"
  ta_projects :: "string list"

definition touchMemoryAccess :: "touch_args \<Rightarrow> int \<Rightarrow> store \<Rightarrow> store" where
  "touchMemoryAccess args atEpoch s =
     (let obsIds = uniq (ta_observationIds args);
          summaryIds = uniq (ta_summaryIds args);
          promptIds = uniq (ta_promptIds args);
          s1 = s\<lparr> observations :=
                     map (\<lambda>ob. if obs_deleted_at_epoch ob = None \<and> obs_id ob \<in> set obsIds
                                then ob\<lparr> obs_last_accessed_at_epoch := Some atEpoch \<rparr> else ob)
                       (observations s),
                   session_summaries :=
                     map (\<lambda>su. if sum_deleted_at_epoch su = None \<and> sum_id su \<in> set summaryIds
                                then su\<lparr> sum_last_accessed_at_epoch := Some atEpoch \<rparr> else su)
                       (session_summaries s),
                   user_prompts :=
                     map (\<lambda>up. if up_deleted_at_epoch up = None \<and> up_id up \<in> set promptIds
                                then up\<lparr> up_last_accessed_at_epoch := Some atEpoch \<rparr> else up)
                       (user_prompts s) \<rparr>;
          touchedProjects =
            ta_projects args
            @ map obs_project (filter (\<lambda>ob. obs_id ob \<in> set obsIds) (observations s))
            @ map sum_project (filter (\<lambda>su. sum_id su \<in> set summaryIds) (session_summaries s))
            @ map (\<lambda>r. ses_project (snd r))
                (filter (\<lambda>r. up_id (fst r) \<in> set promptIds) (prompt_join s))
      in touchProjectActivity touchedProjects atEpoch s1)"

section \<open>Retention (Store.runRetentionCleanup)\<close>

datatype skipped_reason = SkippedPinned | SkippedDisabled | SkippedNotExpired

record entity_counts =
  n_observations :: nat
  n_summaries :: nat
  n_prompts :: nat

text \<open>The report as the source builds it, without \<open>inactiveDays\<close>, which is a two-decimal
  floating-point rendering of \<open>nowEpoch - lastAccessEpoch\<close>.\<close>

record retention_detail =
  rd_project :: string
  rd_ttlDays :: int
  rd_lastAccessEpoch :: "int option"
  rd_skippedReason :: "skipped_reason option"
  rd_softDeleteCandidate :: bool
  rd_counts :: entity_counts

record retention_report =
  rr_dryRun :: bool
  rr_nowEpoch :: int
  rr_defaultTtlDays :: int
  rr_softDeleteDays :: int
  rr_scannedProjects :: nat
  rr_skippedPinned :: nat
  rr_skippedDisabled :: nat
  rr_softDeletedProjects :: nat
  rr_softDeleted :: entity_counts
  rr_hardDeleted :: entity_counts
  rr_details :: "retention_detail list"

record retention_cleanup_options =
  rc_dryRun :: bool
  rc_nowEpoch :: "int option"
  rc_defaultTtlDays :: real
  rc_softDeleteDays :: real

text \<open>\<open>SELECT DISTINCT project FROM (... UNION ...) WHERE project IS NOT NULL AND project <> ''\<close>.
  SQLite removes the duplicates of a \<open>UNION\<close> through a sorted index, so the projects come
  back in ascending order of their bytes (the \<open>BINARY\<close> collation), a proper prefix before
  its extensions.\<close>

fun binary_le :: "string \<Rightarrow> string \<Rightarrow> bool" where
  "binary_le [] q = True"
| "binary_le (c # p) [] = False"
| "binary_le (c # p) (d # q) =
     ((of_char c :: nat) < of_char d \<or> (c = d \<and> binary_le p q))"

fun insert_project :: "string \<Rightarrow> string list \<Rightarrow> string list" where
  "insert_project p [] = [p]"
| "insert_project p (q # qs) =
     (if binary_le p q then p # q # qs else q # insert_project p qs)"

definition sort_projects :: "string list \<Rightarrow> string list" where
  "sort_projects ps = foldr insert_project ps []"

definition listRetentionProjects :: "store \<Rightarrow> string list" where
  "listRetentionProjects s =
     sort_projects
       (uniq (filter (\<lambda>p. p \<noteq> [])
                (map ses_project (sdk_sessions s) @ map obs_project (observations s)
                 @ map sum_project (session_summaries s)
                 @ map pa_project (project_memory_activity s)
                 @ map rp_project (project_retention_policies s))))"

record effective_policy =
  ep_enabled :: bool
  ep_pinned :: bool
  ep_ttlDays :: "int option"

definition getProjectRetentionPolicy :: "string \<Rightarrow> store \<Rightarrow> effective_policy" where
  "getProjectRetentionPolicy project s =
     (case find (\<lambda>r. rp_project r = project) (project_retention_policies s) of
        None \<Rightarrow> \<lparr> ep_enabled = True, ep_pinned = False, ep_ttlDays = None \<rparr>
      | Some r \<Rightarrow> \<lparr> ep_enabled = rp_enabled r, ep_pinned = rp_pinned r, ep_ttlDays = rp_ttl_days r \<rparr>)"

definition max_epoch :: "int list \<Rightarrow> int option" where
  "max_epoch vs = (case vs of [] \<Rightarrow> None | v # rest \<Rightarrow> Some (fold max rest v))"

definition coalesce :: "int option \<Rightarrow> int \<Rightarrow> int" where
  "coalesce a b = (case a of None \<Rightarrow> b | Some v \<Rightarrow> v)"

definition project_live_observations :: "string \<Rightarrow> store \<Rightarrow> observation list" where
  "project_live_observations project s =
     filter (\<lambda>ob. obs_project ob = project \<and> obs_deleted_at_epoch ob = None) (observations s)"

definition project_live_summaries :: "string \<Rightarrow> store \<Rightarrow> session_summary list" where
  "project_live_summaries project s =
     filter (\<lambda>su. sum_project su = project \<and> sum_deleted_at_epoch su = None) (session_summaries s)"

definition project_live_prompts :: "string \<Rightarrow> store \<Rightarrow> (user_prompt \<times> sdk_session) list" where
  "project_live_prompts project s =
     filter (\<lambda>r. ses_project (snd r) = project \<and> up_deleted_at_epoch (fst r) = None) (prompt_join s)"

definition getProjectLastAccessEpoch :: "string \<Rightarrow> store \<Rightarrow> int option" where
  "getProjectLastAccessEpoch project s =
     max_epoch
       (map (\<lambda>ob. coalesce (obs_last_accessed_at_epoch ob) (obs_created_at_epoch ob))
          (project_live_observations project s)
        @ map (\<lambda>su. coalesce (sum_last_accessed_at_epoch su) (sum_created_at_epoch su))
            (project_live_summaries project s)
        @ map (\<lambda>r. coalesce (up_last_accessed_at_epoch (fst r)) (up_created_at_epoch (fst r)))
            (project_live_prompts project s)
        @ map pa_last_accessed_at_epoch
            (filter (\<lambda>a. pa_project a = project) (project_memory_activity s)))"

text \<open>The three \<open>UPDATE ... SET deleted_at_epoch = ?\<close> statements of one expired project.\<close>

definition soft_delete_project :: "int \<Rightarrow> string \<Rightarrow> store \<Rightarrow> store" where
  "soft_delete_project nowEpoch project s =
     s\<lparr> observations :=
          map (\<lambda>ob. if obs_project ob = project \<and> obs_deleted_at_epoch ob = None
                     then ob\<lparr> obs_deleted_at_epoch := Some nowEpoch \<rparr> else ob) (observations s),
        session_summaries :=
          map (\<lambda>su. if sum_project su = project \<and> sum_deleted_at_epoch su = None
                     then su\<lparr> sum_deleted_at_epoch := Some nowEpoch \<rparr> else su) (session_summaries s),
        user_prompts :=
          map (\<lambda>up. if up_deleted_at_epoch up = None \<and>
                        list_ex (\<lambda>ses. ses_project ses = project \<and>
                                        ses_content_session_id ses = up_content_session_id up)
                          (sdk_sessions s)
                     then up\<lparr> up_deleted_at_epoch := Some nowEpoch \<rparr> else up) (user_prompts s) \<rparr>"

text \<open>The effective TTL of a project and the expiry test of the loop body.
  \<open>inactiveMs\<close> is infinite when the project has no access time at all, so such a
  project counts as expired.\<close>

definition effective_ttl_days :: "int \<Rightarrow> effective_policy \<Rightarrow> int" where
  "effective_ttl_days defaultTtlDays policy =
     (case ep_ttlDays policy of None \<Rightarrow> defaultTtlDays
      | Some d \<Rightarrow> if d > 0 then d else defaultTtlDays)"

definition expired :: "int \<Rightarrow> int \<Rightarrow> int option \<Rightarrow> bool" where
  "expired nowEpoch ttlDays lastAccessEpoch =
     (case lastAccessEpoch of None \<Rightarrow> True
      | Some t \<Rightarrow> nowEpoch - t \<ge> ttlDays * DAY_MS)"

text \<open>The body of the loop over the projects.\<close>

definition retention_project ::
  "bool \<Rightarrow> int \<Rightarrow> int \<Rightarrow> string \<Rightarrow> retention_report \<times> store \<Rightarrow> retention_report \<times> store" where
  "retention_project dryRun nowEpoch defaultTtlDays project st =
     (let report = fst st; s = snd st;
          policy = getProjectRetentionPolicy project s;
          ttlDays = effective_ttl_days defaultTtlDays policy;
          lastAccessEpoch = getProjectLastAccessEpoch project s;
          obsCount = length (project_live_observations project s);
          summaryCount = length (project_live_summaries project s);
          promptCount = length (project_live_prompts project s);
          detail = \<lparr> rd_project = project, rd_ttlDays = ttlDays,
                     rd_lastAccessEpoch = lastAccessEpoch, rd_skippedReason = None,
                     rd_softDeleteCandidate = False,
                     rd_counts = \<lparr> n_observations = obsCount, n_summaries = summaryCount,
                                   n_prompts = promptCount \<rparr> \<rparr>
      in if ep_pinned policy
         then (report\<lparr> rr_skippedPinned := rr_skippedPinned report + 1,
                       rr_details := rr_details report
                                     @ [detail\<lparr> rd_skippedReason := Some SkippedPinned \<rparr>] \<rparr>, s)
         else if \<not> ep_enabled policy
         then (report\<lparr> rr_skippedDisabled := rr_skippedDisabled report + 1,
                       rr_details := rr_details report
                                     @ [detail\<lparr> rd_skippedReason := Some SkippedDisabled \<rparr>] \<rparr>, s)
         else if \<not> expired nowEpoch ttlDays lastAccessEpoch
         then (report\<lparr> rr_details := rr_details report
                                     @ [detail\<lparr> rd_skippedReason := Some SkippedNotExpired \<rparr>] \<rparr>, s)
         else (report\<lparr> rr_softDeletedProjects := rr_softDeletedProjects report + 1,
                       rr_softDeleted :=
                         \<lparr> n_observations = n_observations (rr_softDeleted report) + obsCount,
                           n_summaries = n_summaries (rr_softDeleted report) + summaryCount,
                           n_prompts = n_prompts (rr_softDeleted report) + promptCount \<rparr>,
                       rr_details := rr_details report
                                     @ [detail\<lparr> rd_softDeleteCandidate := True \<rparr>] \<rparr>,
               if dryRun then s else soft_delete_project nowEpoch project s))"

definition past_cutoff :: "int \<Rightarrow> int option \<Rightarrow> bool" where
  "past_cutoff cutoff deletedAt = (case deletedAt of None \<Rightarrow> False | Some t \<Rightarrow> t \<le> cutoff)"

text \<open>The three \<open>DELETE ... WHERE deleted_at_epoch IS NOT NULL AND deleted_at_epoch <= ?\<close>
  statements at the end of the sweep: they look at no project and no policy.\<close>

definition hard_delete :: "int \<Rightarrow> store \<Rightarrow> store" where
  "hard_delete hardDeleteCutoff s =
     s\<lparr> user_prompts :=
          filter (\<lambda>up. \<not> past_cutoff hardDeleteCutoff (up_deleted_at_epoch up)) (user_prompts s),
        session_summaries :=
          filter (\<lambda>su. \<not> past_cutoff hardDeleteCutoff (sum_deleted_at_epoch su))
            (session_summaries s),
        observations :=
          filter (\<lambda>ob. \<not> past_cutoff hardDeleteCutoff (obs_deleted_at_epoch ob))
            (observations s) \<rparr>"

text \<open>The values \<open>runRetentionCleanup\<close> computes from its options.\<close>

definition cleanup_now :: "int \<Rightarrow> retention_cleanup_options \<Rightarrow> int" where
  "cleanup_now clock options = (case rc_nowEpoch options of None \<Rightarrow> clock | Some t \<Rightarrow> t)"

definition cleanup_default_ttl :: "retention_cleanup_options \<Rightarrow> int" where
  "cleanup_default_ttl options = max 1 \<lfloor>rc_defaultTtlDays options\<rfloor>"

definition cleanup_soft_delete_days :: "retention_cleanup_options \<Rightarrow> int" where
  "cleanup_soft_delete_days options = max 1 \<lfloor>rc_softDeleteDays options\<rfloor>"

definition hard_delete_cutoff :: "int \<Rightarrow> retention_cleanup_options \<Rightarrow> int" where
  "hard_delete_cutoff clock options =
     cleanup_now clock options - cleanup_soft_delete_days options * DAY_MS"

definition runRetentionCleanup ::
  "int \<Rightarrow> retention_cleanup_options \<Rightarrow> store \<Rightarrow> retention_report \<times> store" where
  "runRetentionCleanup clock options s =
     (let nowEpoch = cleanup_now clock options;
          defaultTtlDays = cleanup_default_ttl options;
          softDeleteDays = cleanup_soft_delete_days options;
          projects = listRetentionProjects s;
          report0 = \<lparr> rr_dryRun = rc_dryRun options, rr_nowEpoch = nowEpoch,
                      rr_defaultTtlDays = defaultTtlDays, rr_softDeleteDays = softDeleteDays,
                      rr_scannedProjects = length projects, rr_skippedPinned = 0,
                      rr_skippedDisabled = 0, rr_softDeletedProjects = 0,
                      rr_softDeleted = \<lparr> n_observations = 0, n_summaries = 0, n_prompts = 0 \<rparr>,
                      rr_hardDeleted = \<lparr> n_observations = 0, n_summaries = 0, n_prompts = 0 \<rparr>,
                      rr_details = [] \<rparr>;
          st = fold (retention_project (rc_dryRun options) nowEpoch defaultTtlDays) projects
                 (report0, s);
          s1 = snd st;
          hardDeleteCutoff = hard_delete_cutoff clock options;
          report = (fst st)\<lparr> rr_hardDeleted :=
                      \<lparr> n_observations =
                          length (filter (\<lambda>ob. past_cutoff hardDeleteCutoff (obs_deleted_at_epoch ob))
                                    (observations s1)),
                        n_summaries =
                          length (filter (\<lambda>su. past_cutoff hardDeleteCutoff (sum_deleted_at_epoch su))
                                    (session_summaries s1)),
                        n_prompts =
                          length (filter (\<lambda>up. past_cutoff hardDeleteCutoff (up_deleted_at_epoch up))
                                    (user_prompts s1)) \<rparr> \<rparr>
      in (report, if rc_dryRun options then s1 else hard_delete hardDeleteCutoff s1))"

section \<open>Privacy markers (src/lib/tag-stripping.ts)\<close>

text \<open>\<open>find_after pat x\<close> is the text after the first occurrence of \<open>pat\<close> in \<open>x\<close>.\<close>

fun find_after :: "string \<Rightarrow> string \<Rightarrow> string option" where
  "find_after pat [] = (if pat = [] then Some [] else None)"
| "find_after pat (c # cs) =
     (if take (length pat) (c # cs) = pat then Some (drop (length pat) (c # cs))
      else find_after pat cs)"

text \<open>\<open>content.replace(/<tag>[\s\S]*?<\/tag>/g, "")\<close>: scanning from the left, an opening
  tag that has a closing tag after it is removed together with everything up to the first
  such closing tag, and the scan goes on behind it; any other character is kept.\<close>

function strip_tag :: "string \<Rightarrow> string \<Rightarrow> string \<Rightarrow> string" where
  "strip_tag start_tag end_tag [] = []"
| "strip_tag start_tag end_tag (c # cs) =
     (if take (length start_tag) (c # cs) = start_tag
      then (case find_after end_tag (drop (length start_tag - 1) cs) of
              Some rest \<Rightarrow> strip_tag start_tag end_tag rest
            | None \<Rightarrow> c # strip_tag start_tag end_tag cs)
      else c # strip_tag start_tag end_tag cs)"
  by pat_completeness auto
termination
proof (relation "measure (\<lambda>(start_tag, end_tag, x). length x)")
  show "wf (measure (\<lambda>(start_tag, end_tag, x). length x))" by simp
next
  fix start_tag end_tag :: string and c :: char and cs rest :: string
  assume "find_after end_tag (drop (length start_tag - 1) cs) = Some rest"
  moreover have "find_after pat x = Some r \<Longrightarrow> length r \<le> length x" for pat x r
    by (induction x arbitrary: r) (auto split: if_splits)
  ultimately have "length rest \<le> length (drop (length start_tag - 1) cs)" by blast
  then show "((start_tag, end_tag, rest), (start_tag, end_tag, c # cs))
               \<in> measure (\<lambda>(start_tag, end_tag, x). length x)" by simp
qed simp_all

text \<open>Both branches of \<open>stripTagsInternal\<close> (more than \<open>MAX_TAG_COUNT\<close> tags or not) are
  the same expression.\<close>

definition stripTagsInternal :: "string \<Rightarrow> string" where
  "stripTagsInternal content =
     js_trim (strip_tag ''<private>'' ''</private>''
                (strip_tag ''<claude-mem-context>'' ''</claude-mem-context>'' content))"

definition stripMemoryTagsFromPrompt :: "string \<Rightarrow> string" where
  "stripMemoryTagsFromPrompt content = stripTagsInternal content"

section \<open>The worker (src/worker/server.ts)\<close>

text \<open>The worker owns the store and the in-process set \<open>activeSessions\<close>. Server-sent
  events, log lines, the trace and timing buffers and the calls that index vectors in the
  external services are observability: they are not part of the state below.\<close>

record worker =
  w_store :: store
  activeSessions :: "int set"

datatype 'a response = BadRequest string | ServerError db_error | Ok 'a

record init_request =
  ir_contentSessionId :: "string option"
  ir_project :: "string option"
  ir_prompt :: "string option"

record init_body =
  ib_sessionDbId :: int
  ib_promptNumber :: int
  ib_skipped :: bool
  ib_reason :: "string option"

text \<open>\<open>POST /api/sessions/init\<close>. A body field is \<open>None\<close> when it is missing (for the
  prompt: when it is not a string).\<close>

definition sessions_init :: "int \<Rightarrow> init_request \<Rightarrow> worker \<Rightarrow> init_body response \<times> worker" where
  "sessions_init now req w =
     (case (ir_contentSessionId req, ir_project req, ir_prompt req) of
        (Some contentSessionId, Some project, Some prompt) \<Rightarrow>
          if contentSessionId = [] \<or> project = []
          then (BadRequest ''Missing contentSessionId/project/prompt'', w)
          else
            (let created = createSDKSession now contentSessionId project prompt (w_store w);
                 sessionDbId = fst created;
                 w1 = w\<lparr> w_store := snd created,
                          activeSessions := insert sessionDbId (activeSessions w) \<rparr>;
                 currentCount = getPromptNumberFromUserPrompts contentSessionId (w_store w1);
                 promptNumber = currentCount + 1;
                 cleanedPrompt = stripMemoryTagsFromPrompt prompt
             in if js_trim cleanedPrompt = []
                then (Ok \<lparr> ib_sessionDbId = sessionDbId, ib_promptNumber = promptNumber,
                           ib_skipped = True, ib_reason = Some ''private'' \<rparr>, w1)
                else (case saveUserPrompt now contentSessionId promptNumber cleanedPrompt
                             (w_store w1) of
                        Inl e \<Rightarrow> (ServerError e, w1)
                      | Inr (promptId, s2) \<Rightarrow>
                          (Ok \<lparr> ib_sessionDbId = sessionDbId, ib_promptNumber = promptNumber,
                                ib_skipped = False, ib_reason = None \<rparr>, w1\<lparr> w_store := s2 \<rparr>)))
      | _ \<Rightarrow> (BadRequest ''Missing contentSessionId/project/prompt'', w))"

datatype complete_body = CompleteSkipped string | CompleteCompleted int

text \<open>\<open>POST /api/sessions/complete\<close>\<close>

definition sessions_complete :: "string option \<Rightarrow> worker \<Rightarrow> complete_body response \<times> worker" where
  "sessions_complete contentSessionId w =
     (case contentSessionId of
        None \<Rightarrow> (BadRequest ''Missing contentSessionId'', w)
      | Some c \<Rightarrow>
          if c = [] then (BadRequest ''Missing contentSessionId'', w)
          else (case getSessionByContentSessionId c (w_store w) of
                  None \<Rightarrow> (Ok (CompleteSkipped ''not_active''), w)
                | Some session \<Rightarrow>
                    (Ok (CompleteCompleted (ses_id session)),
                     w\<lparr> activeSessions := activeSessions w - {ses_id session} \<rparr>)))"

section \<open>Hybrid search (mergeRowsWithPriority, GET /api/search)\<close>

text \<open>The loop of \<open>mergeRowsWithPriority\<close> over \<open>[...priorityRows, ...lexicalRows]\<close>.
  \<open>rid row\<close> is the row's id, \<open>None\<close> for a row the loop skips (a null row or an id that
  is not an integer).\<close>

fun merge_loop :: "('r \<Rightarrow> int option) \<Rightarrow> int \<Rightarrow> int set \<Rightarrow> 'r list \<Rightarrow> 'r list \<Rightarrow> 'r list" where
  "merge_loop rid limit seen merged [] = merged"
| "merge_loop rid limit seen merged (row # rest) =
     (case rid row of
        None \<Rightarrow> merge_loop rid limit seen merged rest
      | Some i \<Rightarrow>
          if i \<in> seen then merge_loop rid limit seen merged rest
          else if int (length (merged @ [row])) \<ge> limit then merged @ [row]
          else merge_loop rid limit (insert i seen) (merged @ [row]) rest)"

definition mergeRowsWithPriority :: "('r \<Rightarrow> int option) \<Rightarrow> 'r list \<Rightarrow> 'r list \<Rightarrow> int \<Rightarrow> 'r list" where
  "mergeRowsWithPriority rid priorityRows lexicalRows limit =
     merge_loop rid limit {} [] (priorityRows @ lexicalRows)"

datatype search_mode = LexicalOnly | Hybrid

record search_request =
  sq_query :: "string option"
  sq_limit :: "int option"
  sq_offset :: "int option"
  sq_project :: "string option"
  sq_includeObservations :: bool
  sq_includeSessions :: bool
  sq_includePrompts :: bool
  sq_obsTypes :: "string list"
  sq_dateStartEpoch :: "int option"
  sq_dateEndEpoch :: "int option"
  sq_orderBy :: "order_by option"

text \<open>What the two vector sources answer for the query: \<open>vb_sqlite\<close> is the id list of
  \<open>semanticSearch.findObservationIds\<close> when the local backend is enabled and available,
  \<open>vb_chroma\<close> the three id lists of \<open>chromaSearch.queryIds\<close> when the external one is
  enabled and configured; each list is in rank order (nearest first).\<close>

record chroma_ids =
  ch_observations :: "int list"
  ch_summaries :: "int list"
  ch_prompts :: "int list"

record vector_backends =
  vb_sqlite :: "int list option"
  vb_chroma :: "chroma_ids option"

record search_response =
  so_searchMode :: search_mode
  so_observations :: "observation list"
  so_sessions :: "session_summary list"
  so_prompts :: "user_prompt list"

definition vectorObservationIds :: "search_request \<Rightarrow> vector_backends \<Rightarrow> int list" where
  "vectorObservationIds req vb =
     (case vb_sqlite vb of None \<Rightarrow> [] | Some ids \<Rightarrow> if sq_includeObservations req then ids else [])
     @ (case vb_chroma vb of None \<Rightarrow> []
        | Some c \<Rightarrow> if sq_includeObservations req then ch_observations c else [])"

definition vectorSummaryIds :: "search_request \<Rightarrow> vector_backends \<Rightarrow> int list" where
  "vectorSummaryIds req vb =
     (case vb_chroma vb of None \<Rightarrow> []
      | Some c \<Rightarrow> if sq_includeSessions req then ch_summaries c else [])"

definition vectorPromptIds :: "search_request \<Rightarrow> vector_backends \<Rightarrow> int list" where
  "vectorPromptIds req vb =
     (case vb_chroma vb of None \<Rightarrow> []
      | Some c \<Rightarrow> if sq_includePrompts req then ch_prompts c else [])"

text \<open>The values the route computes before it searches: the clamped page size and offset,
  the query when it is not empty, the arguments of the lexical search, and the options of
  the by-ids fetches that hydrate the vector hits.\<close>

definition page_limit :: "search_request \<Rightarrow> int" where
  "page_limit req = max 1 (min (case sq_limit req of None \<Rightarrow> 20 | Some n \<Rightarrow> n) 100)"

definition page_offset :: "search_request \<Rightarrow> int" where
  "page_offset req = max 0 (case sq_offset req of None \<Rightarrow> 0 | Some n \<Rightarrow> n)"

definition request_query :: "search_request \<Rightarrow> string option" where
  "request_query req =
     (case sq_query req of None \<Rightarrow> None | Some q \<Rightarrow> if q = [] then None else Some q)"

definition lexical_args :: "search_request \<Rightarrow> search_args" where
  "lexical_args req =
     \<lparr> sa_query = request_query req, sa_limit = Some (page_limit req),
       sa_offset = Some (page_offset req), sa_project = sq_project req,
       sa_includeObservations = Some (sq_includeObservations req),
       sa_includeSessions = Some (sq_includeSessions req),
       sa_includePrompts = Some (sq_includePrompts req),
       sa_obsTypes = sq_obsTypes req,
       sa_dateStartEpoch = sq_dateStartEpoch req,
       sa_dateEndEpoch = sq_dateEndEpoch req, sa_orderBy = sq_orderBy req \<rparr>"

definition hydrate_options :: "search_request \<Rightarrow> by_ids_options" where
  "hydrate_options req =
     \<lparr> bo_orderBy = Some DateDesc, bo_limit = Some (page_limit req),
       bo_project = sq_project req, bo_obsTypes = sq_obsTypes req,
       bo_dateStartEpoch = sq_dateStartEpoch req,
       bo_dateEndEpoch = sq_dateEndEpoch req \<rparr>"

definition api_search ::
  "(string \<Rightarrow> string \<Rightarrow> bool) \<Rightarrow> int \<Rightarrow> vector_backends \<Rightarrow> search_request \<Rightarrow> store
     \<Rightarrow> search_response \<times> store" where
  "api_search like now vb req s =
     (let limit = page_limit req;
          lexical = search like (lexical_args req) s;
          options = hydrate_options req;
          vObs = (if request_query req = None then [] else vectorObservationIds req vb);
          vSum = (if request_query req = None then [] else vectorSummaryIds req vb);
          vPrompt = (if request_query req = None then [] else vectorPromptIds req vb);
          observations' =
            (if vObs \<noteq> []
             then mergeRowsWithPriority (\<lambda>r. Some (obs_id r)) (getObservationsByIds vObs options s)
                    (sr_observations lexical) limit
             else sr_observations lexical);
          sessions' =
            (if vSum \<noteq> []
             then mergeRowsWithPriority (\<lambda>r. Some (sum_id r)) (getSummariesByIds vSum options s)
                    (sr_sessions lexical) limit
             else sr_sessions lexical);
          prompts' =
            (if vPrompt \<noteq> []
             then mergeRowsWithPriority (\<lambda>r. Some (up_id r)) (getPromptsByIds vPrompt options s)
                    (sr_prompts lexical) limit
             else sr_prompts lexical)
      in (\<lparr> so_searchMode = (if vObs \<noteq> [] \<or> vSum \<noteq> [] \<or> vPrompt \<noteq> [] then Hybrid
                              else LexicalOnly),
            so_observations = observations', so_sessions = sessions', so_prompts = prompts' \<rparr>,
          touchMemoryAccess
            \<lparr> ta_observationIds = map obs_id observations', ta_summaryIds = map sum_id sessions',
              ta_promptIds = map up_id prompts',
              ta_projects = (case sq_project req of None \<Rightarrow> [] | Some p \<Rightarrow> if p = [] then [] else [p]) \<rparr>
            now s))"

section \<open>Timeline (GET /api/timeline)\<close>

record timeline_request =
  tq_anchor :: "int option"
  tq_query :: "string option"
  tq_depth_before :: "int option"
  tq_depth_after :: "int option"
  tq_project :: "string option"

datatype timeline_body = NoAnchor | AnchorNotFound int | Timeline "observation list"

text \<open>The two inline queries of the route select from \<open>observations\<close> by creation time and
  project only. The response text is a rendering of the items, line by line.\<close>

definition api_timeline ::
  "(string \<Rightarrow> string \<Rightarrow> bool) \<Rightarrow> int \<Rightarrow> timeline_request \<Rightarrow> store \<Rightarrow> timeline_body \<times> store" where
  "api_timeline like now req s =
     (let query = (case tq_query req of None \<Rightarrow> None | Some q \<Rightarrow> if q = [] then None else Some q);
          depthBefore = (case tq_depth_before req of None \<Rightarrow> 3 | Some d \<Rightarrow> d);
          depthAfter = (case tq_depth_after req of None \<Rightarrow> 3 | Some d \<Rightarrow> d);
          project = (case tq_project req of None \<Rightarrow> None | Some p \<Rightarrow> if p = [] then None else Some p);
          anchor = (case tq_anchor req of None \<Rightarrow> None | Some a \<Rightarrow> if a = 0 then None else Some a);
          anchorId =
            (if anchor = None \<and> query \<noteq> None
             then (case sr_observations
                          (search like \<lparr> sa_query = query, sa_limit = Some 1, sa_offset = Some 0,
                                         sa_project = project, sa_includeObservations = None,
                                         sa_includeSessions = None, sa_includePrompts = None,
                                         sa_obsTypes = [], sa_dateStartEpoch = None,
                                         sa_dateEndEpoch = None, sa_orderBy = None \<rparr> s) of
                     [] \<Rightarrow> None
                   | ob # _ \<Rightarrow> if obs_id ob = 0 then None else Some (obs_id ob))
             else anchor)
      in case anchorId of
           None \<Rightarrow> (NoAnchor, s)
         | Some a \<Rightarrow>
             (case getObservationById a s of
                None \<Rightarrow> (AnchorNotFound a, s)
              | Some anchorRow \<Rightarrow>
                  (let before = sql_limit depthBefore
                                  (order_by_epoch (Some DateDesc) obs_created_at_epoch
                                     (filter (\<lambda>ob. obs_created_at_epoch ob < obs_created_at_epoch anchorRow
                                                    \<and> project_filter project (obs_project ob))
                                        (observations s)));
                       after = sql_limit depthAfter
                                 (order_by_epoch (Some DateAsc) obs_created_at_epoch
                                    (filter (\<lambda>ob. obs_created_at_epoch ob > obs_created_at_epoch anchorRow
                                                   \<and> project_filter project (obs_project ob))
                                       (observations s)));
                       items = rev before @ [anchorRow] @ after
                   in (Timeline items,
                       touchMemoryAccess
                         \<lparr> ta_observationIds = map obs_id items, ta_summaryIds = [],
                           ta_promptIds = [],
                           ta_projects = (case project of None \<Rightarrow> [obs_project anchorRow]
                                          | Some p \<Rightarrow> [p]) \<rparr> now s))))"

section \<open>The queue processor (processSessionQueue)\<close>

text \<open>Decimal rendering of a session id in the template literal \<open>`cmem-${session.id}`\<close>.\<close>

fun show_nat :: "nat \<Rightarrow> string" where
  "show_nat n = (if n < 10 then [''0123456789'' ! n]
                 else show_nat (n div 10) @ [''0123456789'' ! (n mod 10)])"

definition show_int :: "int \<Rightarrow> string" where
  "show_int i = (if i < 0 then ''-'' @ show_nat (nat (- i)) else show_nat (nat i))"

text \<open>The Agent is an external collaborator: each of its two calls either returns the
  structured result or throws (\<open>Inl\<close>, the error text).\<close>

record agent =
  processObservation :: "pending_message \<Rightarrow> string + observation_input"
  processSummary :: "pending_message \<Rightarrow> string + summary_input"

text \<open>The \<open>try\<close> block from the Agent call on. Every exception lands in the \<open>catch\<close>
  block, which calls \<open>markFailed\<close>; what the block wrote before it threw stays written.
  The first component tells whether the Agent was invoked.\<close>

definition run_agent ::
  "agent \<Rightarrow> int \<Rightarrow> pending_message \<Rightarrow> sdk_session \<Rightarrow> string \<Rightarrow> store \<Rightarrow> bool \<times> store" where
  "run_agent ag now msg session memorySessionId s =
     (let project = (if ses_project session = [] then ''unknown'' else ses_project session);
          promptNumber = (case pm_prompt_number msg of None \<Rightarrow> 0 | Some n \<Rightarrow> n)
      in case pm_message_type msg of
           Observation \<Rightarrow>
             (case processObservation ag msg of
                Inl err \<Rightarrow> (True, markFailed now (pm_id msg) s)
              | Inr ob \<Rightarrow>
                  (case storeObservation now memorySessionId project ob promptNumber s of
                     Inl e \<Rightarrow> (True, markFailed now (pm_id msg) s)
                   | Inr (obsId, s1) \<Rightarrow> (True, confirmProcessed (pm_id msg) s1)))
         | Summarize \<Rightarrow>
             (case processSummary ag msg of
                Inl err \<Rightarrow> (True, markFailed now (pm_id msg) s)
              | Inr su \<Rightarrow>
                  (case storeSummary now memorySessionId project su promptNumber s of
                     Inl e \<Rightarrow> (True, markFailed now (pm_id msg) s)
                   | Inr (summaryId, s1) \<Rightarrow> (True, confirmProcessed (pm_id msg) s1))))"

definition process_message :: "agent \<Rightarrow> int \<Rightarrow> pending_message \<Rightarrow> store \<Rightarrow> bool \<times> store" where
  "process_message ag now msg s =
     (case getSessionById (pm_session_db_id msg) s of
        None \<Rightarrow> (False, markFailed now (pm_id msg) s)
      | Some session \<Rightarrow>
          (case (case ses_memory_session_id session of None \<Rightarrow> None
                 | Some m \<Rightarrow> if m = [] then None else Some m) of
             Some m \<Rightarrow> run_agent ag now msg session m s
           | None \<Rightarrow>
               (let m = ''cmem-'' @ show_int (ses_id session)
                in case ensureMemorySessionIdRegistered (ses_id session) m s of
                     Inl e \<Rightarrow> (False, markFailed now (pm_id msg) s)
                   | Inr s1 \<Rightarrow> run_agent ag now msg session m s1)))"

text \<open>The state of one invocation of the loop: the store, the set \<open>seen\<close>, and two
  observers that the source does not keep: the ids the Agent was invoked for, in order,
  and the number of iterations that went past the two \<open>break\<close>s. \<open>clock k\<close> is the
  time read in iteration \<open>k\<close>.\<close>

record drain_state =
  ds_store :: store
  ds_seen :: "int set"
  ds_agent_calls :: "int list"
  ds_iterations :: nat

text \<open>One turn of \<open>while (true)\<close>: \<open>Inl\<close> is a \<open>break\<close> with the state the loop leaves
  behind (the second \<open>break\<close> comes after \<open>claimNextPending\<close> has flipped the row),
  \<open>Inr\<close> the state at the next turn.\<close>

definition drain_step :: "agent \<Rightarrow> (nat \<Rightarrow> int) \<Rightarrow> int \<Rightarrow> drain_state \<Rightarrow> drain_state + drain_state" where
  "drain_step ag clock sessionDbId st =
     (let now = clock (ds_iterations st)
      in case claimNextPending now sessionDbId (ds_store st) of
           (None, s1) \<Rightarrow> Inl st
         | (Some msg, s1) \<Rightarrow>
             if pm_id msg \<in> ds_seen st then Inl (st\<lparr> ds_store := s1 \<rparr>)
             else (let r = process_message ag now msg s1
                   in Inr \<lparr> ds_store = snd r,
                            ds_seen = insert (pm_id msg) (ds_seen st),
                            ds_agent_calls = (if fst r then ds_agent_calls st @ [pm_id msg]
                                              else ds_agent_calls st),
                            ds_iterations = Suc (ds_iterations st) \<rparr>))"

text \<open>The loop itself. It is a total function: every turn that does not break claims a
  queue row whose id is not yet in \<open>seen\<close> and adds it, and no turn adds a row to the
  queue, so the rows with an unseen id get fewer.\<close>

function drain_loop :: "agent \<Rightarrow> (nat \<Rightarrow> int) \<Rightarrow> int \<Rightarrow> drain_state \<Rightarrow> drain_state" where
  "drain_loop ag clock sessionDbId st =
     (case drain_step ag clock sessionDbId st of
        Inl final \<Rightarrow> final
      | Inr st' \<Rightarrow> drain_loop ag clock sessionDbId st')"
  by pat_completeness auto
termination
proof (relation "measure (\<lambda>(ag, clock, sessionDbId, st).
          card (set (map pm_id (pending_messages (ds_store st))) - ds_seen st))")
  show "wf (measure (\<lambda>(ag, clock, sessionDbId, st).
          card (set (map pm_id (pending_messages (ds_store st))) - ds_seen st)))" by simp
next
  fix ag :: agent and clock :: "nat \<Rightarrow> int" and sessionDbId :: int and st st' :: drain_state
  assume step: "drain_step ag clock sessionDbId st = Inr st'"
  let ?ids = "\<lambda>s. set (map pm_id (pending_messages s))"
  have old: "oldest xs = Some m \<Longrightarrow> m \<in> set xs" for xs m
    by (induction xs arbitrary: m) (auto split: option.splits if_splits)
  have mf: "map pm_id (pending_messages (markFailed t i s)) = map pm_id (pending_messages s)" for t i s
    by (simp add: markFailed_def comp_def if_distrib [of pm_id] split: option.splits)
  have cp: "?ids (confirmProcessed i s) \<subseteq> ?ids s" for i s
    by (auto simp: confirmProcessed_def)
  have tp: "pending_messages (touchProjectActivity ps t s) = pending_messages s" for ps t s
    by (simp add: touchProjectActivity_def)
  have so: "storeObservation t m p ob n s = Inr (i, s1) \<Longrightarrow> pending_messages s1 = pending_messages s"
    for t m p ob n s i s1
    by (auto simp: storeObservation_def tp Let_def split: if_splits)
  have ss: "storeSummary t m p su n s = Inr (i, s1) \<Longrightarrow> pending_messages s1 = pending_messages s"
    for t m p su n s i s1
    by (auto simp: storeSummary_def tp Let_def split: if_splits)
  have em: "ensureMemorySessionIdRegistered i m s = Inr s1 \<Longrightarrow> pending_messages s1 = pending_messages s"
    for i m s s1
    by (auto simp: ensureMemorySessionIdRegistered_def split: option.splits if_splits)
  have ra: "?ids (snd (run_agent ag t msg ses m s)) \<subseteq> ?ids s" for t msg ses m s
  proof (cases "pm_message_type msg")
    case Observation
    show ?thesis
    proof (cases "processObservation ag msg")
      case (Inl e)
      with Observation show ?thesis by (simp add: run_agent_def mf)
    next
      case (Inr ob)
      show ?thesis
      proof (cases "storeObservation t m (if ses_project ses = [] then ''unknown'' else ses_project ses) ob
                      (case pm_prompt_number msg of None \<Rightarrow> 0 | Some n \<Rightarrow> n) s")
        case (Inl e)
        with Observation Inr show ?thesis by (simp add: run_agent_def mf)
      next
        case (Inr r)
        obtain i s1 where r: "r = (i, s1)" by (cases r)
        from so Inr r have "pending_messages s1 = pending_messages s" by blast
        with cp [of "pm_id msg" s1] Observation \<open>processObservation ag msg = Inr ob\<close> Inr r
        show ?thesis by (simp add: run_agent_def)
      qed
    qed
  next
    case Summarize
    show ?thesis
    proof (cases "processSummary ag msg")
      case (Inl e)
      with Summarize show ?thesis by (simp add: run_agent_def mf)
    next
      case (Inr su)
      show ?thesis
      proof (cases "storeSummary t m (if ses_project ses = [] then ''unknown'' else ses_project ses) su
                      (case pm_prompt_number msg of None \<Rightarrow> 0 | Some n \<Rightarrow> n) s")
        case (Inl e)
        with Summarize Inr show ?thesis by (simp add: run_agent_def mf)
      next
        case (Inr r)
        obtain i s1 where r: "r = (i, s1)" by (cases r)
        from ss Inr r have "pending_messages s1 = pending_messages s" by blast
        with cp [of "pm_id msg" s1] Summarize \<open>processSummary ag msg = Inr su\<close> Inr r
        show ?thesis by (simp add: run_agent_def)
      qed
    qed
  qed
  have pm: "?ids (snd (process_message ag t msg s)) \<subseteq> ?ids s" for t msg s
  proof (cases "getSessionById (pm_session_db_id msg) s")
    case None
    then show ?thesis by (simp add: process_message_def mf)
  next
    case (Some session)
    note ses = this
    show ?thesis
    proof (cases "case ses_memory_session_id session of None \<Rightarrow> None
                 | Some m \<Rightarrow> if m = [] then None else Some m")
      case (Some m)
      with ses show ?thesis
        using ra by (simp add: process_message_def)
    next
      case None
      show ?thesis
      proof (cases "ensureMemorySessionIdRegistered (ses_id session) (''cmem-'' @ show_int (ses_id session)) s")
        case (Inl e)
        with None ses show ?thesis
          by (simp add: process_message_def mf)
      next
        case (Inr s1)
        from em [OF Inr] have "?ids s1 = ?ids s" by simp
        with Inr None ses show ?thesis
          using ra [of _ msg session _ s1] by (simp add: process_message_def)
      qed
    qed
  qed
  let ?now = "clock (ds_iterations st)"
  obtain r s1 where c: "claimNextPending ?now sessionDbId (ds_store st) = (r, s1)"
    by (cases "claimNextPending ?now sessionDbId (ds_store st)")
  from step c obtain msg where r: "r = Some msg" and ns: "pm_id msg \<notin> ds_seen st"
    and st': "st' = \<lparr> ds_store = snd (process_message ag ?now msg s1),
                      ds_seen = insert (pm_id msg) (ds_seen st),
                      ds_agent_calls = (if fst (process_message ag ?now msg s1)
                                        then ds_agent_calls st @ [pm_id msg] else ds_agent_calls st),
                      ds_iterations = Suc (ds_iterations st) \<rparr>"
    by (cases r) (simp_all add: drain_step_def Let_def split: if_splits)
  from c r have o: "oldest (filter (claimable sessionDbId) (pending_messages (ds_store st))) = Some msg"
    by (simp add: claimNextPending_def split: option.splits)
  from c r have s1: "map pm_id (pending_messages s1) = map pm_id (pending_messages (ds_store st))"
    by (auto simp add: claimNextPending_def comp_def if_distrib [of pm_id] split: option.splits)
  from old [OF o] have mem: "pm_id msg \<in> ?ids (ds_store st)" by auto
  have "?ids (ds_store st') \<subseteq> ?ids (ds_store st)"
    using pm [of ?now msg s1] s1 st' by simp
  with mem ns st' have "?ids (ds_store st') - ds_seen st' \<subset> ?ids (ds_store st) - ds_seen st"
    by auto
  then have "card (?ids (ds_store st') - ds_seen st') < card (?ids (ds_store st) - ds_seen st)"
    by (intro psubset_card_mono) auto
  then show "((ag, clock, sessionDbId, st'), (ag, clock, sessionDbId, st))
      \<in> measure (\<lambda>(ag, clock, sessionDbId, st).
          card (set (map pm_id (pending_messages (ds_store st))) - ds_seen st))" by simp
qed

definition processSessionQueue :: "agent \<Rightarrow> (nat \<Rightarrow> int) \<Rightarrow> int \<Rightarrow> store \<Rightarrow> drain_state" where
  "processSessionQueue ag clock sessionDbId s =
     drain_loop ag clock sessionDbId
       \<lparr> ds_store = s, ds_seen = {}, ds_agent_calls = [], ds_iterations = 0 \<rparr>"

section \<open>Example states\<close>

definition demo_session :: sdk_session where
  "demo_session =
     \<lparr> ses_id = 1, ses_content_session_id = ''s1'', ses_memory_session_id = None,
       ses_project = ''p'', ses_user_prompt = Some ''hello'', ses_started_at_epoch = 1000,
       ses_completed_at_epoch = None, ses_status = Active \<rparr>"

definition demo_payload :: "string option \<Rightarrow> observation_payload" where
  "demo_payload key =
     \<lparr> pl_tool_name = ''Read'', pl_tool_input = ''{}'', pl_tool_response = ''{}'',
       pl_cwd = ''/tmp'', pl_prompt_number = 1, pl_dedupe_key = key \<rparr>"

definition demo_item :: "int \<Rightarrow> pending_message" where
  "demo_item i = (observation_row 2000 1 ''s1'' (demo_payload None) None)\<lparr> pm_id := i \<rparr>"

text \<open>One session with two queued observations, as two calls of \<open>enqueueObservation\<close>
  without a dedupe key leave it.\<close>

definition demo_queue :: store where
  "demo_queue =
     empty_store\<lparr> sdk_sessions := [demo_session], seq_sdk_sessions := 1,
                  project_memory_activity :=
                    [\<lparr> pa_project = ''p'', pa_last_accessed_at_epoch = 1000,
                       pa_updated_at_epoch = 1000 \<rparr>],
                  pending_messages := [demo_item 1, demo_item 2],
                  seq_pending_messages := 2 \<rparr>"

text \<open>One failed processing attempt, as the queue processor and the repository's test
  \<open>failed retry reaches capped failed status\<close> perform it: claim the next row of the
  session, then \<open>markFailed\<close> the claimed row.\<close>

definition fail_once :: "int \<Rightarrow> int \<Rightarrow> store \<Rightarrow> store" where
  "fail_once now sessionDbId s =
     (case claimNextPending now sessionDbId s of
        (None, s1) \<Rightarrow> s1
      | (Some msg, s1) \<Rightarrow> markFailed now (pm_id msg) s1)"

definition queue_row :: "int \<Rightarrow> store \<Rightarrow> pending_message option" where
  "queue_row i s = find (\<lambda>m. pm_id m = i) (pending_messages s)"

definition demo_single :: store where
  "demo_single = demo_queue\<lparr> pending_messages := [demo_item 1], seq_pending_messages := 1 \<rparr>"

definition after_failure :: "int \<Rightarrow> pending_message \<Rightarrow> pending_message" where
  "after_failure now m =
     (if pm_retry_count m < MAX_RETRY
      then m\<lparr> pm_status := Pending, pm_retry_count := pm_retry_count m + 1,
              pm_started_processing_at_epoch := None \<rparr>
      else m\<lparr> pm_status := Failed, pm_started_processing_at_epoch := Some now,
              pm_failed_at_epoch := Some now \<rparr>)"

definition status_retry :: "int \<Rightarrow> store \<Rightarrow> (pending_status \<times> int) option" where
  "status_retry i s = map_option (\<lambda>r. (pm_status r, pm_retry_count r)) (queue_row i s)"

definition demo_failed :: store where
  "demo_failed = fold (\<lambda>t. fail_once t 1) [3000, 4000, 5000, 6000] demo_single"

definition demo_failed_row :: pending_message where
  "demo_failed_row =
     (demo_item 1)\<lparr> pm_status := Failed, pm_retry_count := 3,
                    pm_started_processing_at_epoch := Some 6000,
                    pm_failed_at_epoch := Some 6000 \<rparr>"

text \<open>A session that is ready for processing (its memory session id is assigned) with an
  empty queue, and an Agent that always succeeds.\<close>

definition demo_ready :: store where
  "demo_ready =
     empty_store\<lparr> sdk_sessions := [demo_session\<lparr> ses_memory_session_id := Some ''cmem-1'' \<rparr>],
                  seq_sdk_sessions := 1,
                  project_memory_activity :=
                    [\<lparr> pa_project = ''p'', pa_last_accessed_at_epoch = 1000,
                       pa_updated_at_epoch = 1000 \<rparr>] \<rparr>"

definition demo_observation :: observation_input where
  "demo_observation =
     \<lparr> oi_type = ''discovery'', oi_title = Some ''read a file'', oi_subtitle = None,
       oi_facts = [], oi_narrative = Some ''the file was read'', oi_concepts = [],
       oi_files_read = [''a.ts''], oi_files_modified = [] \<rparr>"

definition demo_agent :: agent where
  "demo_agent = \<lparr> processObservation = (\<lambda>msg. Inr demo_observation),
                  processSummary = (\<lambda>msg. Inl ''not used'') \<rparr>"

definition queue_ids :: "store \<Rightarrow> int set" where
  "queue_ids s = set (map pm_id (pending_messages s))"

text \<open>An Agent that fails on every call. On a queue with one pending row the loop claims
  the row, fails it (back to \<open>pending\<close>, retry count 1), claims it again, finds its id
  in \<open>seen\<close> and breaks: one Agent call, one turn.\<close>

definition demo_failing_agent :: agent where
  "demo_failing_agent = \<lparr> processObservation = (\<lambda>msg. Inl ''timeout''),
                          processSummary = (\<lambda>msg. Inl ''timeout'') \<rparr>"

text \<open>The merge as the specification words it: the rows in order, each id kept where it is
  first seen, rows without an id left out.\<close>

fun first_seen :: "('r \<Rightarrow> int option) \<Rightarrow> int set \<Rightarrow> 'r list \<Rightarrow> 'r list" where
  "first_seen rid seen [] = []"
| "first_seen rid seen (row # rest) =
     (case rid row of
        None \<Rightarrow> first_seen rid seen rest
      | Some i \<Rightarrow> if i \<in> seen then first_seen rid seen rest
                  else row # first_seen rid (insert i seen) rest)"

text \<open>A store with three observations of one project, created at 100, 200 and 300; the
  third one can be given a deletion stamp.\<close>

definition demo_observation_row :: "int \<Rightarrow> int \<Rightarrow> int option \<Rightarrow> observation" where
  "demo_observation_row i created deleted =
     \<lparr> obs_id = i, obs_memory_session_id = ''cmem-1'', obs_project = ''p'',
       obs_type = ''discovery'', obs_title = Some ''note'', obs_subtitle = None,
       obs_facts = [], obs_narrative = Some ''text'', obs_concepts = [],
       obs_files_read = [], obs_files_modified = [], obs_prompt_number = 1,
       obs_created_at_epoch = created, obs_last_accessed_at_epoch = Some created,
       obs_deleted_at_epoch = deleted \<rparr>"

definition demo_library :: "int option \<Rightarrow> store" where
  "demo_library deleted =
     demo_ready\<lparr> observations := [demo_observation_row 1 100 None,
                                   demo_observation_row 2 200 None,
                                   demo_observation_row 3 300 deleted],
                 seq_observations := 3 \<rparr>"

definition demo_request :: search_request where
  "demo_request =
     \<lparr> sq_query = Some ''note'', sq_limit = None, sq_offset = None, sq_project = None,
       sq_includeObservations = True, sq_includeSessions = True, sq_includePrompts = True,
       sq_obsTypes = [], sq_dateStartEpoch = None, sq_dateEndEpoch = None,
       sq_orderBy = None \<rparr>"

text \<open>The local vector source ranks observation 1 before observation 2.\<close>

definition demo_vectors :: vector_backends where
  "demo_vectors = \<lparr> vb_sqlite = Some [1, 2], vb_chroma = None \<rparr>"

definition demo_timeline_request :: timeline_request where
  "demo_timeline_request =
     \<lparr> tq_anchor = Some 2, tq_query = None, tq_depth_before = None, tq_depth_after = None,
       tq_project = None \<rparr>"

text \<open>A worker that has just started on an empty store, and the init request of the
  scenario.\<close>

definition demo_worker :: worker where
  "demo_worker = \<lparr> w_store = empty_store, activeSessions = {} \<rparr>"

definition demo_init :: "string \<Rightarrow> init_request" where
  "demo_init prompt =
     \<lparr> ir_contentSessionId = Some ''s1'', ir_project = Some ''p'', ir_prompt = Some prompt \<rparr>"

text \<open>An instance of the \<open>LIKE\<close> parameter for the examples: the pattern \<open>%q%\<close> matches the
  values that contain \<open>q\<close>. (SQLite also ignores the case of ASCII letters and reads \<open>%\<close>
  and \<open>_\<close> inside \<open>q\<close> as wildcards; the texts of the examples are in lower case and have
  neither.)\<close>

fun starts_with :: "string \<Rightarrow> string \<Rightarrow> bool" where
  "starts_with [] v = True"
| "starts_with (c # q) [] = False"
| "starts_with (c # q) (d # v) = (c = d \<and> starts_with q v)"

fun contains :: "string \<Rightarrow> string \<Rightarrow> bool" where
  "contains q [] = (q = [])"
| "contains q (d # v) = (starts_with q (d # v) \<or> contains q v)"

definition like_contains :: "string \<Rightarrow> string \<Rightarrow> bool" where
  "like_contains pat v = contains (butlast (tl pat)) v"

text \<open>The library with a fourth, newer observation that belongs to another project; a
  request for the project \<open>p\<close>; vector sources that rank observation 1 first, then
  observation 4, then observation 2.\<close>

definition demo_two_projects :: store where
  "demo_two_projects =
     demo_ready\<lparr> observations := [demo_observation_row 1 100 None,
                                   demo_observation_row 2 200 None,
                                   demo_observation_row 3 300 None,
                                   (demo_observation_row 4 400 None)\<lparr> obs_project := ''q'' \<rparr>],
                 seq_observations := 4 \<rparr>"

definition demo_project_request :: search_request where
  "demo_project_request = demo_request\<lparr> sq_project := Some ''p'' \<rparr>"

definition demo_project_vectors :: vector_backends where
  "demo_project_vectors = \<lparr> vb_sqlite = Some [1, 4, 2], vb_chroma = None \<rparr>"

text \<open>The prompts of a project are the prompts of its sessions:
  \<open>content_session_id IN (SELECT content_session_id FROM sdk_sessions WHERE project = ?)\<close>.\<close>

definition prompt_of_project :: "string \<Rightarrow> store \<Rightarrow> user_prompt \<Rightarrow> bool" where
  "prompt_of_project project s up =
     list_ex (\<lambda>ses. ses_project ses = project \<and>
                     ses_content_session_id ses = up_content_session_id up) (sdk_sessions s)"

text \<open>Two stores show the same of a project when they agree on the sessions, the activity
  and policy tables, and the project's observations, summaries and prompts.\<close>

definition same_project_view :: "string \<Rightarrow> store \<Rightarrow> store \<Rightarrow> bool" where
  "same_project_view project s s' =
     (sdk_sessions s' = sdk_sessions s
      \<and> project_memory_activity s' = project_memory_activity s
      \<and> project_retention_policies s' = project_retention_policies s
      \<and> filter (\<lambda>ob. obs_project ob = project) (observations s')
          = filter (\<lambda>ob. obs_project ob = project) (observations s)
      \<and> filter (\<lambda>su. sum_project su = project) (session_summaries s')
          = filter (\<lambda>su. sum_project su = project) (session_summaries s)
      \<and> filter (prompt_of_project project s) (user_prompts s')
          = filter (prompt_of_project project s) (user_prompts s))"

text \<open>What one turn of the loop of an execute call does to the store.\<close>

definition sweep_project :: "int \<Rightarrow> int \<Rightarrow> string \<Rightarrow> store \<Rightarrow> store" where
  "sweep_project t ttl project s =
     (if \<not> ep_pinned (getProjectRetentionPolicy project s)
         \<and> ep_enabled (getProjectRetentionPolicy project s)
         \<and> expired t (effective_ttl_days ttl (getProjectRetentionPolicy project s))
              (getProjectLastAccessEpoch project s)
      then soft_delete_project t project s else s)"

text \<open>A store for the retention sweep, times in days. Project \<open>old\<close> has no policy row and
  was last used on day 69. Project \<open>keep\<close> is pinned and was last used on day 60; its
  observation 3 was soft-deleted on day 50, before the project was pinned. The sweep
  runs on day 100 with a default TTL of 30 days and a grace window of 7 days.\<close>

definition day :: "int \<Rightarrow> int" where
  "day n = n * DAY_MS"

definition demo_retention_session :: "int \<Rightarrow> string \<Rightarrow> string \<Rightarrow> sdk_session" where
  "demo_retention_session i csid project =
     \<lparr> ses_id = i, ses_content_session_id = csid, ses_memory_session_id = Some (''m-'' @ csid),
       ses_project = project, ses_user_prompt = Some ''hello'', ses_started_at_epoch = day 10,
       ses_completed_at_epoch = None, ses_status = Active \<rparr>"

definition demo_retention_observation :: "int \<Rightarrow> string \<Rightarrow> int \<Rightarrow> int option \<Rightarrow> observation" where
  "demo_retention_observation i project created deleted =
     (demo_observation_row i created deleted)\<lparr> obs_project := project \<rparr>"

definition demo_retention_summary :: session_summary where
  "demo_retention_summary =
     \<lparr> sum_id = 1, sum_memory_session_id = ''m-s-old'', sum_project = ''old'',
       sum_request = Some ''request'', sum_investigated = None, sum_learned = None,
       sum_completed = None, sum_next_steps = None, sum_notes = None, sum_prompt_number = 1,
       sum_created_at_epoch = day 69, sum_last_accessed_at_epoch = Some (day 69),
       sum_deleted_at_epoch = None \<rparr>"

definition demo_retention_prompt :: "int \<Rightarrow> string \<Rightarrow> int \<Rightarrow> user_prompt" where
  "demo_retention_prompt i csid created =
     \<lparr> up_id = i, up_content_session_id = csid, up_prompt_number = 1, up_prompt_text = ''hello'',
       up_created_at_epoch = created, up_last_accessed_at_epoch = Some created,
       up_deleted_at_epoch = None \<rparr>"

definition demo_retention :: store where
  "demo_retention =
     empty_store\<lparr>
       sdk_sessions := [demo_retention_session 1 ''s-old'' ''old'',
                        demo_retention_session 2 ''s-keep'' ''keep''],
       user_prompts := [demo_retention_prompt 1 ''s-old'' (day 69),
                        demo_retention_prompt 2 ''s-keep'' (day 60)],
       observations := [demo_retention_observation 1 ''old'' (day 69) None,
                        demo_retention_observation 2 ''keep'' (day 60) None,
                        demo_retention_observation 3 ''keep'' (day 10) (Some (day 50))],
       session_summaries := [demo_retention_summary],
       project_memory_activity :=
         [\<lparr> pa_project = ''old'', pa_last_accessed_at_epoch = day 69, pa_updated_at_epoch = day 69 \<rparr>,
          \<lparr> pa_project = ''keep'', pa_last_accessed_at_epoch = day 60, pa_updated_at_epoch = day 60 \<rparr>],
       project_retention_policies :=
         [\<lparr> rp_project = ''keep'', rp_enabled = True, rp_pinned = True, rp_ttl_days = None,
            rp_updated_at_epoch = day 55 \<rparr>],
       seq_sdk_sessions := 2, seq_user_prompts := 2, seq_observations := 3,
       seq_session_summaries := 1 \<rparr>"

definition demo_sweep :: retention_cleanup_options where
  "demo_sweep = \<lparr> rc_dryRun = False, rc_nowEpoch = Some (day 100), rc_defaultTtlDays = 30,
                  rc_softDeleteDays = 7 \<rparr>"

section \<open>Properties\<close>

subsection \<open>Claiming the next queue item\<close>

lemma oldest_None: "oldest xs = None \<longleftrightarrow> xs = []"
  by (induction xs) (auto split: option.splits)

lemma oldest_Some:
  "oldest xs = Some m \<Longrightarrow> m \<in> set xs \<and> (\<forall>m' \<in> set xs. pm_id m \<le> pm_id m')"
proof (induction xs arbitrary: m)
  case Nil
  then show ?case by simp
next
  case (Cons x xs)
  show ?case
  proof (cases "oldest xs")
    case None
    then have "xs = []" by (simp add: oldest_None)
    with Cons.prems None show ?thesis by simp
  next
    case (Some m')
    from Cons.IH [OF Some] have ih: "m' \<in> set xs" "\<forall>y \<in> set xs. pm_id m' \<le> pm_id y" by auto
    from Cons.prems Some show ?thesis
      using ih by (auto split: if_splits)
  qed
qed

lemma claim_none:
  "\<not> list_ex (claimable sid) (pending_messages s) \<Longrightarrow> claimNextPending now sid s = (None, s)"
  by (simp add: claimNextPending_def list_ex_iff filter_empty_conv[THEN iffD2])

lemma flip_unique:
  assumes "distinct (map pm_id xs)" "msg \<in> set xs"
  shows "map (\<lambda>m. if pm_id m = pm_id msg then f m else m) xs = map (\<lambda>m. if m = msg then f m else m) xs"
proof (rule map_cong [OF refl])
  fix x assume "x \<in> set xs"
  with assms have "pm_id x = pm_id msg \<longleftrightarrow> x = msg"
    by (auto simp: distinct_map inj_on_def)
  then show "(if pm_id x = pm_id msg then f x else x) = (if x = msg then f x else x)"
    by simp
qed

text \<open>
  Claim C3. In a queue whose rows have distinct ids (the primary key), when the session has
  a pending row, \<open>claimNextPending\<close> returns the pending row of the session with the
  least id, as it was read; the store it leaves differs from the old one in exactly that
  row, whose status is now \<open>processing\<close> and whose claim time is the clock reading; and
  whatever a second claim on the session returns has a strictly larger id, so no row is
  handed out twice and rows go out in creation order. When the session has no pending
  row, the result is none and the store is unchanged. Select and update are one
  transaction in the source and one step of the model.
\<close>

theorem claimNextPending_oldest_first:
  assumes d: "distinct (map pm_id (pending_messages s))"
  shows "(if list_ex (claimable sid) (pending_messages s)
          then (\<exists>msg. fst (claimNextPending now sid s) = Some msg
                 \<and> msg \<in> set (pending_messages s)
                 \<and> claimable sid msg
                 \<and> (\<forall>m' \<in> set (pending_messages s). claimable sid m' \<longrightarrow> pm_id msg \<le> pm_id m')
                 \<and> snd (claimNextPending now sid s) =
                     s\<lparr> pending_messages :=
                          map (\<lambda>m. if m = msg
                                    then m\<lparr> pm_status := Processing,
                                            pm_started_processing_at_epoch := Some now \<rparr>
                                    else m) (pending_messages s) \<rparr>
                 \<and> (\<forall>msg2. fst (claimNextPending now2 sid (snd (claimNextPending now sid s))) = Some msg2
                        \<longrightarrow> pm_id msg < pm_id msg2))
          else claimNextPending now sid s = (None, s))"
proof (cases "list_ex (claimable sid) (pending_messages s)")
  case False
  then show ?thesis by (simp add: claim_none)
next
  case True
  let ?c = "filter (claimable sid) (pending_messages s)"
  from True have "?c \<noteq> []" by (auto simp: list_ex_iff filter_empty_conv)
  then obtain msg where o: "oldest ?c = Some msg" using oldest_None by (cases "oldest ?c") auto
  from oldest_Some [OF o] have mem: "msg \<in> set (pending_messages s)" and cl: "claimable sid msg"
    and least: "\<forall>m' \<in> set (pending_messages s). claimable sid m' \<longrightarrow> pm_id msg \<le> pm_id m'"
    by auto
  let ?f = "\<lambda>m. m\<lparr> pm_status := Processing, pm_started_processing_at_epoch := Some now \<rparr>"
  let ?s' = "s\<lparr> pending_messages := map (\<lambda>m. if m = msg then ?f m else m) (pending_messages s) \<rparr>"
  have res: "claimNextPending now sid s = (Some msg, ?s')"
    using o flip_unique [OF d mem, of ?f] by (simp add: claimNextPending_def)
  have second: "pm_id msg < pm_id msg2"
    if h: "fst (claimNextPending now2 sid ?s') = Some msg2" for msg2
  proof -
    let ?c2 = "filter (claimable sid) (pending_messages ?s')"
    from h have o2: "oldest ?c2 = Some msg2"
      by (auto simp: claimNextPending_def split: option.splits)
    from oldest_Some [OF o2] have m2: "msg2 \<in> set (pending_messages ?s')" and c2: "claimable sid msg2"
      by auto
    from m2 obtain m where m: "m \<in> set (pending_messages s)"
      and e: "msg2 = (if m = msg then ?f m else m)" by auto
    have "m \<noteq> msg"
    proof
      assume "m = msg"
      with e have "pm_status msg2 = Processing" by simp
      with c2 show False by (simp add: claimable_def)
    qed
    with e m have "msg2 \<in> set (pending_messages s)" "msg2 \<noteq> msg" by auto
    with least c2 d mem have "pm_id msg \<le> pm_id msg2" "pm_id msg2 \<noteq> pm_id msg"
      by (auto simp: distinct_map inj_on_def)
    then show ?thesis by simp
  qed
  show ?thesis using True res mem cl least second by auto
qed

theorem claimNextPending_oldest_first_witness:
  "distinct (map pm_id (pending_messages demo_queue))
   \<and> list_ex (claimable 1) (pending_messages demo_queue)
   \<and> map_option pm_id (fst (claimNextPending 3000 1 demo_queue)) = Some 1
   \<and> map_option pm_id
        (fst (claimNextPending 4000 1 (snd (claimNextPending 3000 1 demo_queue)))) = Some 2
   \<and> (\<exists>msg. fst (claimNextPending 3000 1 demo_queue) = Some msg
          \<and> (\<forall>msg2. fst (claimNextPending 4000 1 (snd (claimNextPending 3000 1 demo_queue)))
                        = Some msg2 \<longrightarrow> pm_id msg < pm_id msg2))"
proof -
  have d: "distinct (map pm_id (pending_messages demo_queue))"
    by (simp add: demo_queue_def demo_item_def)
  have c: "list_ex (claimable 1) (pending_messages demo_queue)"
    by (simp add: demo_queue_def demo_item_def claimable_def observation_row_def)
  have e1: "map_option pm_id (fst (claimNextPending 3000 1 demo_queue)) = Some 1"
    by (simp add: demo_queue_def demo_item_def claimable_def observation_row_def
          claimNextPending_def)
  have e2: "map_option pm_id
        (fst (claimNextPending 4000 1 (snd (claimNextPending 3000 1 demo_queue)))) = Some 2"
    by (simp add: demo_queue_def demo_item_def claimable_def observation_row_def
          claimNextPending_def)
  from claimNextPending_oldest_first [OF d, of 1 3000 4000] c
  have "\<exists>msg. fst (claimNextPending 3000 1 demo_queue) = Some msg
          \<and> (\<forall>msg2. fst (claimNextPending 4000 1 (snd (claimNextPending 3000 1 demo_queue)))
                        = Some msg2 \<longrightarrow> pm_id msg < pm_id msg2)"
    by (simp only: if_True) blast
  with d c e1 e2 show ?thesis by blast
qed

subsection \<open>The retry cap\<close>

lemma find_by_id:
  assumes "distinct (map pm_id xs)" "m \<in> set xs"
  shows "find (\<lambda>x. pm_id x = pm_id m) xs = Some m"
  using assms by (induction xs) (auto simp: rev_image_eqI)

lemma oldest_least:
  assumes d: "distinct (map pm_id xs)" and m: "m \<in> set xs"
    and l: "\<forall>x \<in> set xs. pm_id m \<le> pm_id x"
  shows "oldest xs = Some m"
proof -
  from m have "xs \<noteq> []" by auto
  then obtain m0 where o: "oldest xs = Some m0" using oldest_None by (cases "oldest xs") auto
  from oldest_Some [OF o] have "m0 \<in> set xs" "pm_id m0 \<le> pm_id m" using m by auto
  with l have "pm_id m0 = pm_id m" by force
  with d m \<open>m0 \<in> set xs\<close> have "m0 = m" by (auto simp: distinct_map inj_on_def)
  with o show ?thesis by simp
qed

lemma markFailed_ids:
  "map pm_id (pending_messages (markFailed t i s)) = map pm_id (pending_messages s)"
  by (simp add: markFailed_def comp_def if_distrib [of pm_id] split: option.splits)

lemma claimNextPending_ids:
  "map pm_id (pending_messages (snd (claimNextPending t sid s))) = map pm_id (pending_messages s)"
  by (simp add: claimNextPending_def comp_def if_distrib [of pm_id] split: option.splits)

lemma markFailed_row:
  assumes d: "distinct (map pm_id (pending_messages s))" and m: "m \<in> set (pending_messages s)"
  shows "markFailed now (pm_id m) s =
           s\<lparr> pending_messages :=
                map (\<lambda>x. if x = m
                          then (if pm_retry_count m < 3
                                then m\<lparr> pm_status := Pending, pm_retry_count := pm_retry_count m + 1,
                                        pm_started_processing_at_epoch := None \<rparr>
                                else m\<lparr> pm_status := Failed, pm_failed_at_epoch := Some now \<rparr>)
                          else x) (pending_messages s) \<rparr>"
proof -
  have f: "find (\<lambda>x. pm_id x = pm_id m) (pending_messages s) = Some m"
    by (rule find_by_id [OF d m])
  have eq: "(pm_id x = pm_id m) = (x = m)" if "x \<in> set (pending_messages s)" for x
    using d m that by (auto simp: distinct_map inj_on_def)
  show ?thesis
    unfolding markFailed_def f option.case MAX_RETRY_def
    by (cases "pm_retry_count m < 3") (auto intro!: map_cong arg_cong [where f = "\<lambda>l. s\<lparr>pending_messages := l\<rparr>"] simp: eq)
qed

lemma claimNextPending_Some:
  assumes d: "distinct (map pm_id (pending_messages s))"
    and o: "oldest (filter (claimable sid) (pending_messages s)) = Some m"
  shows "claimNextPending now sid s =
           (Some m, s\<lparr> pending_messages :=
                         map (\<lambda>x. if x = m
                                   then m\<lparr> pm_status := Processing,
                                           pm_started_processing_at_epoch := Some now \<rparr>
                                   else x) (pending_messages s) \<rparr>)"
proof -
  from oldest_Some [OF o] have mem: "m \<in> set (pending_messages s)" by auto
  have "map (\<lambda>x. if pm_id x = pm_id m
                 then x\<lparr> pm_status := Processing, pm_started_processing_at_epoch := Some now \<rparr>
                 else x) (pending_messages s)
        = map (\<lambda>x. if x = m
                 then x\<lparr> pm_status := Processing, pm_started_processing_at_epoch := Some now \<rparr>
                 else x) (pending_messages s)"
    by (rule flip_unique [OF d mem])
  also have "\<dots> = map (\<lambda>x. if x = m
                 then m\<lparr> pm_status := Processing, pm_started_processing_at_epoch := Some now \<rparr>
                 else x) (pending_messages s)"
    by (rule map_cong) auto
  finally show ?thesis using o by (simp add: claimNextPending_def)
qed

lemma fail_once_next:
  assumes d: "distinct (map pm_id (pending_messages s))"
    and o: "oldest (filter (claimable sid) (pending_messages s)) = Some m"
  shows "fail_once now sid s =
           s\<lparr> pending_messages :=
                map (\<lambda>x. if x = m then after_failure now m else x) (pending_messages s) \<rparr>"
proof -
  let ?m1 = "m\<lparr> pm_status := Processing, pm_started_processing_at_epoch := Some now \<rparr>"
  let ?s1 = "s\<lparr> pending_messages := map (\<lambda>x. if x = m then ?m1 else x) (pending_messages s) \<rparr>"
  from oldest_Some [OF o] have mem: "m \<in> set (pending_messages s)" by auto
  have c: "claimNextPending now sid s = (Some m, ?s1)" by (rule claimNextPending_Some [OF d o])
  have ids: "map pm_id (pending_messages ?s1) = map pm_id (pending_messages s)"
    using claimNextPending_ids [of now sid s] c by simp
  have d1: "distinct (map pm_id (pending_messages ?s1))" using d by (simp only: ids)
  have m1: "?m1 \<in> set (pending_messages ?s1)" using mem by force
  have uniq: "x = m" if "x \<in> set (pending_messages s)" "pm_id x = pm_id m" for x
    using d mem that by (auto simp: distinct_map inj_on_def)
  have "fail_once now sid s = markFailed now (pm_id ?m1) ?s1"
    by (simp add: fail_once_def c)
  also have "\<dots> = ?s1\<lparr> pending_messages :=
                map (\<lambda>x. if x = ?m1
                          then (if pm_retry_count ?m1 < 3
                                then ?m1\<lparr> pm_status := Pending, pm_retry_count := pm_retry_count ?m1 + 1,
                                        pm_started_processing_at_epoch := None \<rparr>
                                else ?m1\<lparr> pm_status := Failed, pm_failed_at_epoch := Some now \<rparr>)
                          else x) (pending_messages ?s1) \<rparr>"
    by (rule markFailed_row [OF d1 m1])
  also have "\<dots> = s\<lparr> pending_messages :=
                map (\<lambda>x. if x = m then after_failure now m else x) (pending_messages s) \<rparr>"
  proof -
    have "(if (if x = m then ?m1 else x) = ?m1
           then (if pm_retry_count ?m1 < 3
                 then ?m1\<lparr> pm_status := Pending, pm_retry_count := pm_retry_count ?m1 + 1,
                         pm_started_processing_at_epoch := None \<rparr>
                 else ?m1\<lparr> pm_status := Failed, pm_failed_at_epoch := Some now \<rparr>)
           else (if x = m then ?m1 else x))
          = (if x = m then after_failure now m else x)"
      if x: "x \<in> set (pending_messages s)" for x
    proof (cases "x = m")
      case True
      then show ?thesis by (simp add: after_failure_def MAX_RETRY_def)
    next
      case False
      have "x \<noteq> ?m1"
      proof
        assume "x = ?m1"
        then have "pm_id x = pm_id m" by simp
        with uniq [OF x] False show False by simp
      qed
      with False show ?thesis by simp
    qed
    then show ?thesis by (simp add: comp_def cong: map_cong)
  qed
  finally show ?thesis .
qed

lemma fail_once_ids:
  "map pm_id (pending_messages (fail_once t sid s)) = map pm_id (pending_messages s)"
proof (cases "claimNextPending t sid s")
  case (Pair r s1)
  with claimNextPending_ids [of t sid s] have "map pm_id (pending_messages s1) = map pm_id (pending_messages s)"
    by simp
  with Pair show ?thesis by (cases r) (simp_all add: fail_once_def markFailed_ids)
qed

lemma fail_once_keeps_failed:
  assumes d: "distinct (map pm_id (pending_messages s))"
    and x: "x \<in> set (pending_messages s)" and f: "pm_status x = Failed"
  shows "x \<in> set (pending_messages (fail_once t sid s))"
proof (cases "oldest (filter (claimable sid) (pending_messages s))")
  case None
  then show ?thesis using x by (simp add: fail_once_def claimNextPending_def)
next
  case (Some m)
  from oldest_Some [OF Some] have "claimable sid m" by auto
  with f have "x \<noteq> m" by (auto simp: claimable_def)
  with x show ?thesis by (simp add: fail_once_next [OF d Some])
qed

lemma fold_fail_once_ids:
  "map pm_id (pending_messages (fold (\<lambda>t. fail_once t sid) ts s)) = map pm_id (pending_messages s)"
  by (induction ts arbitrary: s) (simp_all add: fail_once_ids)

lemma fold_fail_once_keeps_failed:
  assumes "distinct (map pm_id (pending_messages s))"
    and "x \<in> set (pending_messages s)" and "pm_status x = Failed"
  shows "x \<in> set (pending_messages (fold (\<lambda>t. fail_once t sid) ts s))"
  using assms
proof (induction ts arbitrary: s)
  case Nil
  then show ?case by simp
next
  case (Cons t ts)
  have "distinct (map pm_id (pending_messages (fail_once t sid s)))"
    using Cons.prems(1) by (simp only: fail_once_ids)
  moreover have "x \<in> set (pending_messages (fail_once t sid s))"
    by (rule fail_once_keeps_failed [OF Cons.prems])
  ultimately show ?case using Cons.IH Cons.prems(3) by simp
qed

lemma status_retry_row:
  assumes "distinct (map pm_id (pending_messages s))" "x \<in> set (pending_messages s)"
  shows "status_retry (pm_id x) s = Some (pm_status x, pm_retry_count x)"
  using find_by_id [OF assms] by (simp add: status_retry_def queue_row_def)

lemma retry_trace:
  assumes d: "distinct (map pm_id (pending_messages s))"
    and o: "oldest (filter (claimable sid) (pending_messages s)) = Some m"
    and r: "pm_retry_count m \<le> MAX_RETRY"
  shows "status_retry (pm_id m) (fold (\<lambda>t. fail_once t sid) ts s) =
           Some (if pm_retry_count m + int (length ts) \<le> MAX_RETRY
                 then (Pending, pm_retry_count m + int (length ts))
                 else (Failed, MAX_RETRY))"
  using d o r
proof (induction ts arbitrary: s m)
  case Nil
  from oldest_Some [OF Nil.prems(2)] have "m \<in> set (pending_messages s)" "claimable sid m"
    by auto
  with status_retry_row [OF Nil.prems(1), of m] Nil.prems(3) show ?case
    by (simp add: claimable_def)
next
  case (Cons t ts)
  let ?m' = "after_failure t m"
  let ?s' = "fail_once t sid s"
  from oldest_Some [OF Cons.prems(2)]
  have mem: "m \<in> set (pending_messages s)" and cl: "claimable sid m"
    and least: "\<forall>x \<in> set (pending_messages s). claimable sid x \<longrightarrow> pm_id m \<le> pm_id x"
    by auto
  have s': "pending_messages ?s' = map (\<lambda>x. if x = m then ?m' else x) (pending_messages s)"
    by (simp add: fail_once_next [OF Cons.prems(1,2)])
  have d': "distinct (map pm_id (pending_messages ?s'))"
    using Cons.prems(1) by (simp only: fail_once_ids)
  have m': "?m' \<in> set (pending_messages ?s')" using mem by (force simp: s')
  have id': "pm_id ?m' = pm_id m" by (simp add: after_failure_def)
  show ?case
  proof (cases "pm_retry_count m < MAX_RETRY")
    case True
    then have am: "?m' = m\<lparr> pm_status := Pending, pm_retry_count := pm_retry_count m + 1,
                             pm_started_processing_at_epoch := None \<rparr>"
      by (simp add: after_failure_def)
    have cl': "claimable sid ?m'" using cl by (simp add: am claimable_def)
    have "oldest (filter (claimable sid) (pending_messages ?s')) = Some ?m'"
    proof (rule oldest_least)
      show "distinct (map pm_id (filter (claimable sid) (pending_messages ?s')))"
        using d' by (rule distinct_map_filter)
      show "?m' \<in> set (filter (claimable sid) (pending_messages ?s'))" using m' cl' by simp
      show "\<forall>x \<in> set (filter (claimable sid) (pending_messages ?s')). pm_id ?m' \<le> pm_id x"
      proof
        fix x assume "x \<in> set (filter (claimable sid) (pending_messages ?s'))"
        then have "x = ?m' \<or> (x \<in> set (pending_messages s) \<and> claimable sid x)"
          by (auto simp: s' split: if_splits)
        with least id' show "pm_id ?m' \<le> pm_id x" by auto
      qed
    qed
    moreover have "pm_retry_count ?m' \<le> MAX_RETRY" using True by (simp add: am)
    ultimately have "status_retry (pm_id ?m') (fold (\<lambda>t. fail_once t sid) ts ?s') =
           Some (if pm_retry_count ?m' + int (length ts) \<le> MAX_RETRY
                 then (Pending, pm_retry_count ?m' + int (length ts))
                 else (Failed, MAX_RETRY))"
      using Cons.IH [OF d'] by blast
    then show ?thesis by (simp add: id') (simp add: am add.commute add.left_commute)
  next
    case False
    with Cons.prems(3) have r3: "pm_retry_count m = MAX_RETRY" by simp
    from False have am: "?m' = m\<lparr> pm_status := Failed, pm_started_processing_at_epoch := Some t,
              pm_failed_at_epoch := Some t \<rparr>"
      by (simp add: after_failure_def)
    have fl: "pm_status ?m' = Failed" by (simp add: am)
    let ?sn = "fold (\<lambda>t. fail_once t sid) ts ?s'"
    have "?m' \<in> set (pending_messages ?sn)"
      by (rule fold_fail_once_keeps_failed [OF d' m' fl])
    moreover have "distinct (map pm_id (pending_messages ?sn))"
      using d' by (simp only: fold_fail_once_ids)
    ultimately have "status_retry (pm_id ?m') ?sn = Some (pm_status ?m', pm_retry_count ?m')"
      by (rule status_retry_row [rotated])
    then show ?thesis using r3 by (simp add: id') (simp add: am)
  qed
qed

lemma markFailed_keeps_cap:
  assumes d: "distinct (map pm_id (pending_messages s))" and m: "m \<in> set (pending_messages s)"
    and c: "list_all (\<lambda>x. pm_retry_count x \<le> MAX_RETRY) (pending_messages s)"
  shows "list_all (\<lambda>x. pm_retry_count x \<le> MAX_RETRY) (pending_messages (markFailed now (pm_id m) s))"
proof -
  from c m have "pm_retry_count m \<le> MAX_RETRY" by (simp add: list_all_iff)
  with c show ?thesis
    by (auto simp: markFailed_row [OF d m] list_all_iff MAX_RETRY_def)
qed

text \<open>
  Claim C2, as amended. In a queue with distinct ids, \<open>markFailed\<close> on a row puts it
  back to \<open>pending\<close> with the retry count incremented when the count is below 3, and
  makes it \<open>failed\<close> otherwise, leaving every other row alone; retry counts that are at
  most 3 stay at most 3; a row with count 0 that is next in line of its session is
  \<open>pending\<close> with count \<open>k\<close> after \<open>k \<le> 3\<close> claim-and-fail rounds and is
  \<open>failed\<close> with count 3 after the fourth round and after every later one; and a failed
  row is never returned by \<open>claimNextPending\<close> and survives any number of further rounds
  unchanged.
\<close>

theorem markFailed_retry_cap:
  assumes d: "distinct (map pm_id (pending_messages s))" and m: "m \<in> set (pending_messages s)"
  shows "markFailed now (pm_id m) s =
           s\<lparr> pending_messages :=
                map (\<lambda>x. if x = m
                          then (if pm_retry_count m < MAX_RETRY
                                then m\<lparr> pm_status := Pending, pm_retry_count := pm_retry_count m + 1,
                                        pm_started_processing_at_epoch := None \<rparr>
                                else m\<lparr> pm_status := Failed, pm_failed_at_epoch := Some now \<rparr>)
                          else x) (pending_messages s) \<rparr>
         \<and> (list_all (\<lambda>x. pm_retry_count x \<le> MAX_RETRY) (pending_messages s) \<longrightarrow>
              list_all (\<lambda>x. pm_retry_count x \<le> MAX_RETRY)
                (pending_messages (markFailed now (pm_id m) s)))
         \<and> (oldest (filter (claimable sid) (pending_messages s)) = Some m \<and> pm_retry_count m = 0 \<longrightarrow>
              (\<forall>ts. status_retry (pm_id m) (fold (\<lambda>t. fail_once t sid) ts s) =
                      Some (if length ts \<le> 3 then (Pending, int (length ts)) else (Failed, 3))))
         \<and> (pm_status m = Failed \<longrightarrow>
              (\<forall>msg. fst (claimNextPending t sid s) = Some msg \<longrightarrow> pm_id msg \<noteq> pm_id m)
              \<and> (\<forall>ts. m \<in> set (pending_messages (fold (\<lambda>t. fail_once t sid) ts s))))"
proof (intro conjI impI allI)
  show "markFailed now (pm_id m) s =
           s\<lparr> pending_messages :=
                map (\<lambda>x. if x = m
                          then (if pm_retry_count m < MAX_RETRY
                                then m\<lparr> pm_status := Pending, pm_retry_count := pm_retry_count m + 1,
                                        pm_started_processing_at_epoch := None \<rparr>
                                else m\<lparr> pm_status := Failed, pm_failed_at_epoch := Some now \<rparr>)
                          else x) (pending_messages s) \<rparr>"
    using markFailed_row [OF d m] by (simp add: MAX_RETRY_def)
next
  assume "list_all (\<lambda>x. pm_retry_count x \<le> MAX_RETRY) (pending_messages s)"
  then show "list_all (\<lambda>x. pm_retry_count x \<le> MAX_RETRY)
               (pending_messages (markFailed now (pm_id m) s))"
    by (rule markFailed_keeps_cap [OF d m])
next
  fix ts
  assume a: "oldest (filter (claimable sid) (pending_messages s)) = Some m \<and> pm_retry_count m = 0"
  then have "pm_retry_count m \<le> MAX_RETRY" by (simp add: MAX_RETRY_def)
  from retry_trace [OF d _ this, of sid ts] a
  show "status_retry (pm_id m) (fold (\<lambda>t. fail_once t sid) ts s) =
          Some (if length ts \<le> 3 then (Pending, int (length ts)) else (Failed, 3))"
    by (simp add: MAX_RETRY_def)
next
  fix msg
  assume f: "pm_status m = Failed" and c: "fst (claimNextPending t sid s) = Some msg"
  from c have "oldest (filter (claimable sid) (pending_messages s)) = Some msg"
    by (auto simp: claimNextPending_def split: option.splits)
  from oldest_Some [OF this] have "msg \<in> set (pending_messages s)" "pm_status msg = Pending"
    by (auto simp: claimable_def)
  with f d m show "pm_id msg \<noteq> pm_id m" by (auto simp: distinct_map inj_on_def)
next
  fix ts
  assume "pm_status m = Failed"
  then show "m \<in> set (pending_messages (fold (\<lambda>t. fail_once t sid) ts s))"
    by (rule fold_fail_once_keeps_failed [OF d m])
qed

lemmas queue_eval =
  demo_queue_def demo_single_def demo_item_def demo_payload_def observation_row_def
  empty_store_def claimable_def claimNextPending_def markFailed_def fail_once_def
  MAX_RETRY_def status_retry_def queue_row_def

text \<open>After exactly three failures the row is still \<open>pending\<close> (with retry count 3); it
  is the fourth failure that makes it \<open>failed\<close>.\<close>

theorem retry_cap_counterexample:
  "status_retry 1 (fold (\<lambda>t. fail_once t 1) [3000, 4000, 5000] demo_single) = Some (Pending, 3)
   \<and> status_retry 1 (fold (\<lambda>t. fail_once t 1) [3000, 4000, 5000] demo_single) \<noteq> Some (Failed, 3)
   \<and> status_retry 1 (fold (\<lambda>t. fail_once t 1) [3000, 4000, 5000, 6000] demo_single) = Some (Failed, 3)"
  by (simp add: queue_eval)

theorem markFailed_retry_cap_witness:
  "distinct (map pm_id (pending_messages demo_single))
   \<and> demo_item 1 \<in> set (pending_messages demo_single)
   \<and> list_all (\<lambda>x. pm_retry_count x \<le> MAX_RETRY) (pending_messages demo_single)
   \<and> oldest (filter (claimable 1) (pending_messages demo_single)) = Some (demo_item 1)
   \<and> pm_retry_count (demo_item 1) = 0
   \<and> list_all (\<lambda>x. pm_retry_count x \<le> MAX_RETRY)
        (pending_messages (markFailed 3000 (pm_id (demo_item 1)) demo_single))
   \<and> status_retry (pm_id (demo_item 1))
        (fold (\<lambda>t. fail_once t 1) [3000, 4000, 5000, 6000] demo_single) = Some (Failed, 3)
   \<and> distinct (map pm_id (pending_messages demo_failed))
   \<and> demo_failed_row \<in> set (pending_messages demo_failed)
   \<and> pm_status demo_failed_row = Failed
   \<and> \<not> (\<exists>msg. fst (claimNextPending 7000 1 demo_failed) = Some msg
               \<and> pm_id msg = pm_id demo_failed_row)
   \<and> demo_failed_row \<in> set (pending_messages (fold (\<lambda>t. fail_once t 1) [7000, 8000] demo_failed))"
proof -
  have d: "distinct (map pm_id (pending_messages demo_single))" by (simp add: queue_eval)
  have m: "demo_item 1 \<in> set (pending_messages demo_single)" by (simp add: queue_eval)
  have c: "list_all (\<lambda>x. pm_retry_count x \<le> MAX_RETRY) (pending_messages demo_single)"
    by (simp add: queue_eval)
  have o: "oldest (filter (claimable 1) (pending_messages demo_single)) = Some (demo_item 1)"
    by (simp add: queue_eval)
  have r: "pm_retry_count (demo_item 1) = 0" by (simp add: queue_eval)
  have d2: "distinct (map pm_id (pending_messages demo_failed))"
    by (simp add: demo_failed_def queue_eval)
  have m2: "demo_failed_row \<in> set (pending_messages demo_failed)"
    by (simp add: demo_failed_def demo_failed_row_def queue_eval)
  have f2: "pm_status demo_failed_row = Failed" by (simp add: demo_failed_row_def)
  note w1 = markFailed_retry_cap [OF d m, of 3000 1 7000]
  note w2 = markFailed_retry_cap [OF d2 m2, of 3000 1 7000]
  from w1 c have "list_all (\<lambda>x. pm_retry_count x \<le> MAX_RETRY)
        (pending_messages (markFailed 3000 (pm_id (demo_item 1)) demo_single))" by blast
  moreover from w1 o r have "status_retry (pm_id (demo_item 1))
        (fold (\<lambda>t. fail_once t 1) [3000, 4000, 5000, 6000] demo_single)
        = Some (if length [3000, 4000, 5000, 6000 :: int] \<le> 3
                then (Pending, int (length [3000, 4000, 5000, 6000 :: int])) else (Failed, 3))"
    by blast
  moreover from w2 f2
  have "\<not> (\<exists>msg. fst (claimNextPending 7000 1 demo_failed) = Some msg
               \<and> pm_id msg = pm_id demo_failed_row)"
    and "demo_failed_row \<in> set (pending_messages (fold (\<lambda>t. fail_once t 1) [7000, 8000] demo_failed))"
    by blast+
  ultimately show ?thesis using d m c o r d2 m2 f2 by simp
qed

subsection \<open>Idempotent enqueue\<close>

lemma list_ex_False: "\<not> list_ex P xs \<Longrightarrow> find P xs = None"
  by (induction xs) auto

lemma find_app:
  "find P (xs @ ys) = (case find P xs of None \<Rightarrow> find P ys | Some x \<Rightarrow> Some x)"
  by (induction xs) auto

lemma enqueueObservation_first:
  assumes "session_exists sid s" and "pl_dedupe_key p = Some k" and "k \<noteq> []"
    and "\<not> list_ex (ledger_match sid Observation k) (processed_message_dedupe s)"
    and "\<not> list_ex (dedupe_match sid Observation k) (pending_messages s)"
  shows "enqueueObservation now sid csid p s =
           Inr (\<lparr> enq_id = seq_pending_messages s + 1, deduped = False \<rparr>,
                s\<lparr> processed_message_dedupe := processed_message_dedupe s @
                       [\<lparr> dd_id = seq_processed_message_dedupe s + 1, dd_session_db_id = sid,
                          dd_message_type = Observation, dd_dedupe_key = k,
                          dd_created_at_epoch = now \<rparr>],
                     seq_processed_message_dedupe := seq_processed_message_dedupe s + 1,
                     pending_messages := pending_messages s @
                       [(observation_row now sid csid p (Some k))
                          \<lparr> pm_id := seq_pending_messages s + 1 \<rparr>],
                     seq_pending_messages := seq_pending_messages s + 1 \<rparr>)"
  using assms
  by (simp add: enqueueObservation_def enqueue_tx_def insert_pending_message_def Let_def
        session_exists_def observation_row_def)

lemma enqueueObservation_replay:
  assumes "pl_dedupe_key p = Some k" and "k \<noteq> []"
    and "list_ex (ledger_match sid Observation k) (processed_message_dedupe s)"
  shows "enqueueObservation now sid csid p s =
           Inr (\<lparr> enq_id = (case find (dedupe_match sid Observation k) (pending_messages s) of
                              None \<Rightarrow> 0 | Some existing \<Rightarrow> pm_id existing),
                   deduped = True \<rparr>, s)"
  using assms
  by (simp add: enqueueObservation_def enqueue_tx_def split: option.splits)

lemma enqueueObservation_atomic:
  assumes "enqueueObservation now sid csid p s = Inr (r, s')"
  shows "(\<not> deduped r \<and> length (pending_messages s') = length (pending_messages s) + 1
            \<and> (case pl_dedupe_key p of None \<Rightarrow> processed_message_dedupe s' = processed_message_dedupe s
                | Some k \<Rightarrow> if k = [] then processed_message_dedupe s' = processed_message_dedupe s
                             else length (processed_message_dedupe s') = length (processed_message_dedupe s) + 1))
         \<or> (deduped r \<and> s' = s)"
  using assms
  by (auto simp: enqueueObservation_def enqueue_tx_def insert_pending_message_def Let_def
        split: option.splits if_splits sum.splits)

lemma find_Some_list_ex: "find P xs = Some x \<Longrightarrow> P x \<and> x \<in> set xs"
  by (induction xs) (auto split: if_splits)

lemma filter_claimed:
  "filter (\<lambda>x. pm_id x \<noteq> i)
     (map (\<lambda>x. if pm_id x = i
               then x\<lparr> pm_status := a, pm_started_processing_at_epoch := b \<rparr> else x) xs)
   = filter (\<lambda>x. pm_id x \<noteq> i) xs"
  by (induction xs) auto

lemma drain_single_observation:
  assumes only: "filter (claimable sid) (pending_messages s) = [row]"
    and ses: "getSessionById sid s = Some ses"
    and mid: "ses_memory_session_id ses = Some m" "m \<noteq> []"
    and ty: "pm_message_type row = Observation"
    and ag: "processObservation ag row = Inr ob"
  shows "\<exists>s'. processSessionQueue ag clock sid s =
                 \<lparr> ds_store = s', ds_seen = {pm_id row}, ds_agent_calls = [pm_id row],
                   ds_iterations = 1 \<rparr>
              \<and> length (observations s') = length (observations s) + 1
              \<and> butlast (observations s') = observations s
              \<and> pending_messages s' = filter (\<lambda>x. pm_id x \<noteq> pm_id row) (pending_messages s)
              \<and> processed_message_dedupe s' = processed_message_dedupe s"
proof -
  let ?now = "clock 0"
  let ?st0 = "\<lparr> ds_store = s, ds_seen = {}, ds_agent_calls = [], ds_iterations = 0 \<rparr>"
  let ?flip = "\<lambda>x. if pm_id x = pm_id row
                    then x\<lparr> pm_status := Processing, pm_started_processing_at_epoch := Some ?now \<rparr>
                    else x"
  let ?s2 = "s\<lparr> pending_messages := map ?flip (pending_messages s) \<rparr>"
  have "row \<in> set (filter (claimable sid) (pending_messages s))" by (simp add: only)
  then have rowcl: "claimable sid row" by simp
  then have rsid: "pm_session_db_id row = sid" by (simp add: claimable_def)
  have c: "claimNextPending ?now sid s = (Some row, ?s2)"
    by (simp add: claimNextPending_def only)
  have g2: "getSessionById sid ?s2 = Some ses" using ses by (simp add: getSessionById_def)
  from find_Some_list_ex [OF ses [unfolded getSessionById_def]] mid
  have reg: "memory_session_registered m ?s2"
    by (auto simp: memory_session_registered_def list_ex_iff)
  let ?project = "if ses_project ses = [] then ''unknown'' else ses_project ses"
  let ?pn = "case pm_prompt_number row of None \<Rightarrow> 0 | Some n \<Rightarrow> n"
  obtain i s3 where st: "storeObservation ?now m ?project ob ?pn ?s2 = Inr (i, s3)"
    and o3: "observations s3 = observations s @ [\<lparr> obs_id = i, obs_memory_session_id = m,
                                  obs_project = ?project, obs_type = oi_type ob,
                                  obs_title = oi_title ob, obs_subtitle = oi_subtitle ob,
                                  obs_facts = oi_facts ob, obs_narrative = oi_narrative ob,
                                  obs_concepts = oi_concepts ob, obs_files_read = oi_files_read ob,
                                  obs_files_modified = oi_files_modified ob,
                                  obs_prompt_number = ?pn, obs_created_at_epoch = ?now,
                                  obs_last_accessed_at_epoch = Some ?now,
                                  obs_deleted_at_epoch = None \<rparr>]"
    and p3: "pending_messages s3 = map ?flip (pending_messages s)"
    and l3: "processed_message_dedupe s3 = processed_message_dedupe s"
    using reg by (simp add: storeObservation_def touchProjectActivity_def Let_def)
  let ?s4 = "confirmProcessed (pm_id row) s3"
  have pm: "process_message ag ?now row ?s2 = (True, ?s4)"
    using g2 mid ty ag st by (simp add: process_message_def run_agent_def rsid)
  let ?st1 = "\<lparr> ds_store = ?s4, ds_seen = {pm_id row}, ds_agent_calls = [pm_id row],
                 ds_iterations = 1 \<rparr>"
  have step0: "drain_step ag clock sid ?st0 = Inr ?st1"
    by (simp add: drain_step_def c pm)
  have p4: "pending_messages ?s4 = filter (\<lambda>x. pm_id x \<noteq> pm_id row) (pending_messages s)"
    by (simp add: confirmProcessed_def p3 filter_claimed)
  have none: "filter (claimable sid) (pending_messages ?s4) = []"
  proof -
    have "\<not> claimable sid x" if "x \<in> set (pending_messages s)" "pm_id x \<noteq> pm_id row" for x
    proof
      assume "claimable sid x"
      with that(1) have "x \<in> set (filter (claimable sid) (pending_messages s))" by simp
      with only have "x = row" by simp
      with that(2) show False by simp
    qed
    then show ?thesis by (auto simp: p4 filter_empty_conv)
  qed
  have step1: "drain_step ag clock sid ?st1 = Inl ?st1"
    by (simp add: drain_step_def claimNextPending_def none)
  have "processSessionQueue ag clock sid s = ?st1"
    unfolding processSessionQueue_def
    by (subst drain_loop.simps, simp only: step0 sum.case, subst drain_loop.simps,
        simp only: step1 sum.case)
  moreover have "length (observations ?s4) = length (observations s) + 1"
    by (simp add: confirmProcessed_def o3)
  moreover have "butlast (observations ?s4) = observations s"
    by (simp add: confirmProcessed_def o3)
  moreover have "processed_message_dedupe ?s4 = processed_message_dedupe s"
    by (simp add: confirmProcessed_def l3)
  ultimately show ?thesis using p4 by blast
qed

text \<open>
  Claim C1. Take a session that exists, has its memory session id, and has nothing pending,
  and a non-empty dedupe key that is neither in the ledger nor in the queue of that
  session. The first \<open>enqueueObservation\<close> returns \<open>deduped = false\<close> with a fresh id and
  appends one pending row and one ledger entry; a second call with the same key (whatever
  the rest of the payload) returns \<open>deduped = true\<close> with the same id and changes nothing,
  so the pending count stays one above what it was. Draining the session with an Agent
  that succeeds on the row invokes the Agent once, stores exactly one observation and
  removes the row; replaying the payload after that is still reported as deduped (with
  reference id 0, the row being gone) and queues nothing. The ledger insert and the queue
  insert are one transaction: any successful call either adds one row to both or changes
  nothing at all.
\<close>

theorem enqueueObservation_idempotent:
  assumes ses: "getSessionById sid s = Some ses"
    and mid: "ses_memory_session_id ses = Some m" "m \<noteq> []"
    and key: "pl_dedupe_key p = Some k" "k \<noteq> []" "pl_dedupe_key p' = Some k"
    and fresh: "\<not> list_ex (ledger_match sid Observation k) (processed_message_dedupe s)"
    and noitem: "\<not> list_ex (dedupe_match sid Observation k) (pending_messages s)"
    and idle: "\<not> list_ex (claimable sid) (pending_messages s)"
    and ag: "processObservation ag
               ((observation_row now sid csid p (Some k))\<lparr> pm_id := seq_pending_messages s + 1 \<rparr>)
             = Inr ob"
  shows "\<exists>i s1 s2.
           enqueueObservation now sid csid p s = Inr (\<lparr> enq_id = i, deduped = False \<rparr>, s1)
         \<and> enqueueObservation now2 sid csid2 p' s1 = Inr (\<lparr> enq_id = i, deduped = True \<rparr>, s1)
         \<and> pending_messages s1 =
             pending_messages s @ [(observation_row now sid csid p (Some k))\<lparr> pm_id := i \<rparr>]
         \<and> length (processed_message_dedupe s1) = length (processed_message_dedupe s) + 1
         \<and> observations s1 = observations s
         \<and> getPendingCount sid s1 = getPendingCount sid s + 1
         \<and> ds_store (processSessionQueue ag clock sid s1) = s2
         \<and> ds_agent_calls (processSessionQueue ag clock sid s1) = [i]
         \<and> length (observations s2) = length (observations s) + 1
         \<and> pending_messages s2 = filter (\<lambda>x. pm_id x \<noteq> i) (pending_messages s1)
         \<and> enqueueObservation now3 sid csid p s2 = Inr (\<lparr> enq_id = 0, deduped = True \<rparr>, s2)
         \<and> (\<forall>s0 r s'. enqueueObservation now sid csid p s0 = Inr (r, s') \<longrightarrow>
                (\<not> deduped r
                   \<and> length (pending_messages s') = length (pending_messages s0) + 1
                   \<and> length (processed_message_dedupe s') = length (processed_message_dedupe s0) + 1)
                \<or> (deduped r \<and> s' = s0))"
proof -
  let ?i = "seq_pending_messages s + 1"
  let ?row = "(observation_row now sid csid p (Some k))\<lparr> pm_id := ?i \<rparr>"
  let ?s1 = "s\<lparr> processed_message_dedupe := processed_message_dedupe s @
                       [\<lparr> dd_id = seq_processed_message_dedupe s + 1, dd_session_db_id = sid,
                          dd_message_type = Observation, dd_dedupe_key = k,
                          dd_created_at_epoch = now \<rparr>],
                     seq_processed_message_dedupe := seq_processed_message_dedupe s + 1,
                     pending_messages := pending_messages s @ [?row],
                     seq_pending_messages := ?i \<rparr>"
  from find_Some_list_ex [OF ses [unfolded getSessionById_def]]
  have ex: "session_exists sid s" by (auto simp: session_exists_def list_ex_iff)
  have e1: "enqueueObservation now sid csid p s = Inr (\<lparr> enq_id = ?i, deduped = False \<rparr>, ?s1)"
    by (rule enqueueObservation_first [OF ex key(1,2) fresh noitem])
  have rowm: "dedupe_match sid Observation k ?row"
    by (simp add: dedupe_match_def observation_row_def)
  have f1: "find (dedupe_match sid Observation k) (pending_messages ?s1) = Some ?row"
    using list_ex_False [OF noitem] rowm by (simp add: find_app)
  have l1: "list_ex (ledger_match sid Observation k) (processed_message_dedupe ?s1)"
    by (simp add: ledger_match_def)
  have e2: "enqueueObservation now2 sid csid2 p' ?s1 = Inr (\<lparr> enq_id = ?i, deduped = True \<rparr>, ?s1)"
    using enqueueObservation_replay [OF key(3,2) l1, of now2 csid2] by (simp only: f1) simp
  have rowc: "claimable sid ?row" by (simp add: claimable_def observation_row_def)
  have only: "filter (claimable sid) (pending_messages ?s1) = [?row]"
    using idle rowc by (simp add: list_ex_iff filter_empty_conv [THEN iffD2])
  have g1: "getSessionById sid ?s1 = Some ses" using ses by (simp add: getSessionById_def)
  have ty: "pm_message_type ?row = Observation" by (simp add: observation_row_def)
  from drain_single_observation [OF only g1 mid ty ag, of clock]
  obtain s2 where dr: "processSessionQueue ag clock sid ?s1 =
                 \<lparr> ds_store = s2, ds_seen = {pm_id ?row}, ds_agent_calls = [pm_id ?row],
                   ds_iterations = 1 \<rparr>"
    and ob2: "length (observations s2) = length (observations ?s1) + 1"
    and p2: "pending_messages s2 = filter (\<lambda>x. pm_id x \<noteq> pm_id ?row) (pending_messages ?s1)"
    and l2: "processed_message_dedupe s2 = processed_message_dedupe ?s1"
    by blast
  have noitem2: "find (dedupe_match sid Observation k) (pending_messages s2) = None"
  proof (rule list_ex_False)
    show "\<not> list_ex (dedupe_match sid Observation k) (pending_messages s2)"
      using noitem by (auto simp: p2 list_ex_iff)
  qed
  have e3: "enqueueObservation now3 sid csid p s2 = Inr (\<lparr> enq_id = 0, deduped = True \<rparr>, s2)"
    using enqueueObservation_replay [OF key(1,2), of sid s2 now3 csid] l1
    by (simp add: l2 noitem2)
  have cnt: "getPendingCount sid ?s1 = getPendingCount sid s + 1"
    by (simp add: getPendingCount_def observation_row_def)
  have atomic: "(\<not> deduped r
                   \<and> length (pending_messages s') = length (pending_messages s0) + 1
                   \<and> length (processed_message_dedupe s') = length (processed_message_dedupe s0) + 1)
                \<or> (deduped r \<and> s' = s0)"
    if "enqueueObservation now sid csid p s0 = Inr (r, s')" for s0 r s'
    using enqueueObservation_atomic [OF that] key(1,2) by auto
  show ?thesis
    apply (rule exI [of _ ?i], rule exI [of _ ?s1], rule exI [of _ s2])
    apply (intro conjI)
               apply (rule e1)
              apply (rule e2)
             apply simp
            apply simp
           apply simp
          apply (rule cnt)
         apply (simp add: dr)
        apply (simp add: dr)
       apply (simp add: ob2)
      defer
      apply (rule e3)
     apply (use atomic in blast)
    apply (simp add: p2)
    done
qed

theorem enqueueObservation_idempotent_witness:
  "getSessionById 1 demo_ready = Some (demo_session\<lparr> ses_memory_session_id := Some ''cmem-1'' \<rparr>)
   \<and> \<not> list_ex (ledger_match 1 Observation ''k1'') (processed_message_dedupe demo_ready)
   \<and> \<not> list_ex (dedupe_match 1 Observation ''k1'') (pending_messages demo_ready)
   \<and> \<not> list_ex (claimable 1) (pending_messages demo_ready)
   \<and> getPendingCount 1 demo_ready = 0
   \<and> (\<exists>i s1. enqueueObservation 2000 1 ''s1'' (demo_payload (Some ''k1'')) demo_ready
                 = Inr (\<lparr> enq_id = i, deduped = False \<rparr>, s1)
             \<and> enqueueObservation 2001 1 ''s1'' (demo_payload (Some ''k1'')) s1
                 = Inr (\<lparr> enq_id = i, deduped = True \<rparr>, s1)
             \<and> getPendingCount 1 s1 = getPendingCount 1 demo_ready + 1
             \<and> ds_agent_calls (processSessionQueue demo_agent (\<lambda>k. 3000) 1 s1) = [i]
             \<and> length (observations (ds_store (processSessionQueue demo_agent (\<lambda>k. 3000) 1 s1)))
                 = length (observations demo_ready) + 1)"
proof -
  have g: "getSessionById 1 demo_ready = Some (demo_session\<lparr> ses_memory_session_id := Some ''cmem-1'' \<rparr>)"
    by (simp add: demo_ready_def demo_session_def getSessionById_def empty_store_def)
  have m: "ses_memory_session_id (demo_session\<lparr> ses_memory_session_id := Some ''cmem-1'' \<rparr>) = Some ''cmem-1''"
    "''cmem-1'' \<noteq> []" by simp_all
  have k: "pl_dedupe_key (demo_payload (Some ''k1'')) = Some ''k1''" "''k1'' \<noteq> []"
    by (simp_all add: demo_payload_def)
  have f: "\<not> list_ex (ledger_match 1 Observation ''k1'') (processed_message_dedupe demo_ready)"
    by (simp add: demo_ready_def empty_store_def)
  have n: "\<not> list_ex (dedupe_match 1 Observation ''k1'') (pending_messages demo_ready)"
    by (simp add: demo_ready_def empty_store_def)
  have c: "\<not> list_ex (claimable 1) (pending_messages demo_ready)"
    by (simp add: demo_ready_def empty_store_def)
  have z: "getPendingCount 1 demo_ready = 0"
    by (simp add: demo_ready_def empty_store_def getPendingCount_def)
  have a: "processObservation demo_agent
             ((observation_row 2000 1 ''s1'' (demo_payload (Some ''k1'')) (Some ''k1''))
                \<lparr> pm_id := seq_pending_messages demo_ready + 1 \<rparr>) = Inr demo_observation"
    by (simp add: demo_agent_def)
  from enqueueObservation_idempotent [OF g m k k(1) f n c a, of 2001 "''s1''" "\<lambda>k. 3000" 2002]
  have "\<exists>i s1. enqueueObservation 2000 1 ''s1'' (demo_payload (Some ''k1'')) demo_ready
                 = Inr (\<lparr> enq_id = i, deduped = False \<rparr>, s1)
             \<and> enqueueObservation 2001 1 ''s1'' (demo_payload (Some ''k1'')) s1
                 = Inr (\<lparr> enq_id = i, deduped = True \<rparr>, s1)
             \<and> getPendingCount 1 s1 = getPendingCount 1 demo_ready + 1
             \<and> ds_agent_calls (processSessionQueue demo_agent (\<lambda>k. 3000) 1 s1) = [i]
             \<and> length (observations (ds_store (processSessionQueue demo_agent (\<lambda>k. 3000) 1 s1)))
                 = length (observations demo_ready) + 1"
    by (elim exE conjE) (intro exI conjI, assumption+, simp)
  with g f n c z show ?thesis by blast
qed

subsection \<open>The drain loop\<close>

lemma confirmProcessed_ids: "queue_ids (confirmProcessed i s) \<subseteq> queue_ids s"
  by (auto simp: confirmProcessed_def queue_ids_def)

lemma markFailed_queue_ids: "queue_ids (markFailed t i s) = queue_ids s"
  by (simp add: queue_ids_def markFailed_ids)

lemma storeObservation_queue:
  "storeObservation t m p ob n s = Inr (i, s1) \<Longrightarrow> pending_messages s1 = pending_messages s"
  by (auto simp: storeObservation_def touchProjectActivity_def Let_def split: if_splits)

lemma storeSummary_queue:
  "storeSummary t m p su n s = Inr (i, s1) \<Longrightarrow> pending_messages s1 = pending_messages s"
  by (auto simp: storeSummary_def touchProjectActivity_def Let_def split: if_splits)

lemma ensureMemorySessionIdRegistered_queue:
  "ensureMemorySessionIdRegistered i m s = Inr s1 \<Longrightarrow> pending_messages s1 = pending_messages s"
  by (auto simp: ensureMemorySessionIdRegistered_def split: option.splits if_splits)

lemma run_agent_ids: "queue_ids (snd (run_agent ag t msg ses m s)) \<subseteq> queue_ids s"
proof (cases "pm_message_type msg")
  case Observation
  show ?thesis
  proof (cases "processObservation ag msg")
    case (Inl e)
    with Observation show ?thesis by (simp add: run_agent_def markFailed_queue_ids)
  next
    case (Inr ob)
    show ?thesis
    proof (cases "storeObservation t m (if ses_project ses = [] then ''unknown'' else ses_project ses) ob
                    (case pm_prompt_number msg of None \<Rightarrow> 0 | Some n \<Rightarrow> n) s")
      case (Inl e)
      with Observation Inr show ?thesis by (simp add: run_agent_def markFailed_queue_ids)
    next
      case (Inr r)
      obtain i s1 where r: "r = (i, s1)" by (cases r)
      from storeObservation_queue Inr r have "queue_ids s1 = queue_ids s"
        unfolding queue_ids_def by metis
      with confirmProcessed_ids [of "pm_id msg" s1] Observation \<open>processObservation ag msg = Inr ob\<close> Inr r
      show ?thesis by (simp add: run_agent_def)
    qed
  qed
next
  case Summarize
  show ?thesis
  proof (cases "processSummary ag msg")
    case (Inl e)
    with Summarize show ?thesis by (simp add: run_agent_def markFailed_queue_ids)
  next
    case (Inr su)
    show ?thesis
    proof (cases "storeSummary t m (if ses_project ses = [] then ''unknown'' else ses_project ses) su
                    (case pm_prompt_number msg of None \<Rightarrow> 0 | Some n \<Rightarrow> n) s")
      case (Inl e)
      with Summarize Inr show ?thesis by (simp add: run_agent_def markFailed_queue_ids)
    next
      case (Inr r)
      obtain i s1 where r: "r = (i, s1)" by (cases r)
      from storeSummary_queue Inr r have "queue_ids s1 = queue_ids s"
        unfolding queue_ids_def by metis
      with confirmProcessed_ids [of "pm_id msg" s1] Summarize \<open>processSummary ag msg = Inr su\<close> Inr r
      show ?thesis by (simp add: run_agent_def)
    qed
  qed
qed

lemma process_message_ids: "queue_ids (snd (process_message ag t msg s)) \<subseteq> queue_ids s"
proof (cases "getSessionById (pm_session_db_id msg) s")
  case None
  then show ?thesis by (simp add: process_message_def markFailed_queue_ids)
next
  case (Some session)
  note ses = this
  show ?thesis
  proof (cases "case ses_memory_session_id session of None \<Rightarrow> None
               | Some m \<Rightarrow> if m = [] then None else Some m")
    case (Some m)
    with ses show ?thesis using run_agent_ids by (simp add: process_message_def)
  next
    case None
    show ?thesis
    proof (cases "ensureMemorySessionIdRegistered (ses_id session) (''cmem-'' @ show_int (ses_id session)) s")
      case (Inl e)
      with None ses show ?thesis by (simp add: process_message_def markFailed_queue_ids)
    next
      case (Inr s1)
      from ensureMemorySessionIdRegistered_queue [OF Inr] have "queue_ids s1 = queue_ids s"
        by (simp add: queue_ids_def)
      with Inr None ses show ?thesis
        using run_agent_ids [of _ _ msg session _ s1] by (simp add: process_message_def)
    qed
  qed
qed

lemma drain_step_break:
  assumes "drain_step ag clock sid st = Inl fin"
  shows "ds_agent_calls fin = ds_agent_calls st \<and> ds_seen fin = ds_seen st
         \<and> ds_iterations fin = ds_iterations st
         \<and> (case fst (claimNextPending (clock (ds_iterations st)) sid (ds_store st)) of
              None \<Rightarrow> fin = st
            | Some msg \<Rightarrow> pm_id msg \<in> ds_seen st
                \<and> fin = st\<lparr> ds_store := snd (claimNextPending (clock (ds_iterations st)) sid (ds_store st)) \<rparr>)"
proof (cases "claimNextPending (clock (ds_iterations st)) sid (ds_store st)")
  case (Pair r s1)
  with assms show ?thesis
    by (cases r) (auto simp: drain_step_def Let_def split: if_splits)
qed

lemma drain_step_continue:
  assumes "drain_step ag clock sid st = Inr st'"
  shows "\<exists>msg. fst (claimNextPending (clock (ds_iterations st)) sid (ds_store st)) = Some msg
           \<and> pm_id msg \<notin> ds_seen st \<and> pm_id msg \<in> queue_ids (ds_store st)
           \<and> ds_seen st' = insert (pm_id msg) (ds_seen st)
           \<and> (ds_agent_calls st' = ds_agent_calls st \<or> ds_agent_calls st' = ds_agent_calls st @ [pm_id msg])
           \<and> ds_iterations st' = Suc (ds_iterations st)
           \<and> queue_ids (ds_store st') \<subseteq> queue_ids (ds_store st)"
proof -
  let ?now = "clock (ds_iterations st)"
  obtain r s1 where c: "claimNextPending ?now sid (ds_store st) = (r, s1)"
    by (cases "claimNextPending ?now sid (ds_store st)")
  from assms c obtain msg where r: "r = Some msg" and ns: "pm_id msg \<notin> ds_seen st"
    and st': "st' = \<lparr> ds_store = snd (process_message ag ?now msg s1),
                      ds_seen = insert (pm_id msg) (ds_seen st),
                      ds_agent_calls = (if fst (process_message ag ?now msg s1)
                                        then ds_agent_calls st @ [pm_id msg] else ds_agent_calls st),
                      ds_iterations = Suc (ds_iterations st) \<rparr>"
    by (cases r) (simp_all add: drain_step_def Let_def split: if_splits)
  from c r have o: "oldest (filter (claimable sid) (pending_messages (ds_store st))) = Some msg"
    by (simp add: claimNextPending_def split: option.splits)
  from claimNextPending_ids [of ?now sid "ds_store st"] c
  have s1: "queue_ids s1 = queue_ids (ds_store st)" by (simp add: queue_ids_def)
  from oldest_Some [OF o] have mem: "pm_id msg \<in> queue_ids (ds_store st)"
    by (auto simp: queue_ids_def)
  have "queue_ids (ds_store st') \<subseteq> queue_ids (ds_store st)"
    using process_message_ids [of ag ?now msg s1] s1 st' by simp
  with c r ns mem st' show ?thesis by auto
qed

lemma drain_loop_invariants:
  assumes "distinct (ds_agent_calls st)" and "set (ds_agent_calls st) \<subseteq> ds_seen st"
    and "length (ds_agent_calls st) \<le> ds_iterations st"
  shows "distinct (ds_agent_calls (drain_loop ag clock sid st))
         \<and> set (ds_agent_calls (drain_loop ag clock sid st))
             \<subseteq> set (ds_agent_calls st) \<union> (queue_ids (ds_store st) - ds_seen st)
         \<and> length (ds_agent_calls (drain_loop ag clock sid st))
             \<le> ds_iterations (drain_loop ag clock sid st)
         \<and> ds_iterations (drain_loop ag clock sid st)
             \<le> ds_iterations st + card (queue_ids (ds_store st) - ds_seen st)"
  using assms
proof (induction ag clock sid st rule: drain_loop.induct)
  case (1 ag clock sid st)
  show ?case
  proof (cases "drain_step ag clock sid st")
    case (Inl fin)
    from drain_step_break [OF Inl] "1.prems" Inl show ?thesis
      by (subst (1 2 3 4) drain_loop.simps) auto
  next
    case (Inr st')
    from drain_step_continue [OF Inr] obtain msg :: pending_message where
      ns: "pm_id msg \<notin> ds_seen st" and mem: "pm_id msg \<in> queue_ids (ds_store st)"
      and seen: "ds_seen st' = insert (pm_id msg) (ds_seen st)"
      and calls: "ds_agent_calls st' = ds_agent_calls st \<or> ds_agent_calls st' = ds_agent_calls st @ [pm_id msg]"
      and it: "ds_iterations st' = Suc (ds_iterations st)"
      and ids: "queue_ids (ds_store st') \<subseteq> queue_ids (ds_store st)"
      by blast
    have d': "distinct (ds_agent_calls st')" using calls "1.prems"(1,2) ns by auto
    have s': "set (ds_agent_calls st') \<subseteq> ds_seen st'" using calls "1.prems"(2) seen by auto
    have l': "length (ds_agent_calls st') \<le> ds_iterations st'" using calls "1.prems"(3) it by auto
    note ih = "1.IH" [OF Inr d' s' l']
    have sub: "queue_ids (ds_store st') - ds_seen st' \<subset> queue_ids (ds_store st) - ds_seen st"
      using ids seen ns mem by auto
    have fin: "finite (queue_ids (ds_store st) - ds_seen st)" by (simp add: queue_ids_def)
    from psubset_card_mono [OF fin sub]
    have card: "Suc (card (queue_ids (ds_store st') - ds_seen st')) \<le> card (queue_ids (ds_store st) - ds_seen st)"
      by simp
    have eq: "drain_loop ag clock sid st = drain_loop ag clock sid st'"
      by (subst drain_loop.simps) (simp add: Inr)
    have "set (ds_agent_calls st') \<union> (queue_ids (ds_store st') - ds_seen st')
            \<subseteq> set (ds_agent_calls st) \<union> (queue_ids (ds_store st) - ds_seen st)"
      using calls sub mem ns by auto
    with ih card it show ?thesis unfolding eq by auto
  qed
qed

text \<open>
  Claim C10. One invocation of \<open>processSessionQueue\<close> always returns (the loop is a total
  function, and the number of turns that go past the two breaks is at most the number of
  rows in the queue when it starts); the Agent is invoked at most once per queue item id,
  and only for ids that were in the queue; and a turn breaks exactly when
  \<open>claimNextPending\<close> yields no row or yields a row whose id is already in \<open>seen\<close>.
\<close>

theorem processSessionQueue_once_per_item:
  "distinct (ds_agent_calls (processSessionQueue ag clock sid s))
   \<and> set (ds_agent_calls (processSessionQueue ag clock sid s)) \<subseteq> queue_ids s
   \<and> length (ds_agent_calls (processSessionQueue ag clock sid s))
       \<le> ds_iterations (processSessionQueue ag clock sid s)
   \<and> ds_iterations (processSessionQueue ag clock sid s) \<le> card (queue_ids s)
   \<and> card (queue_ids s) \<le> length (pending_messages s)
   \<and> (\<forall>st. drain_loop ag clock sid st =
              (case drain_step ag clock sid st of
                 Inl final \<Rightarrow> final | Inr st' \<Rightarrow> drain_loop ag clock sid st'))
   \<and> (\<forall>st. (\<exists>final. drain_step ag clock sid st = Inl final) \<longleftrightarrow>
              (case fst (claimNextPending (clock (ds_iterations st)) sid (ds_store st)) of
                 None \<Rightarrow> True | Some msg \<Rightarrow> pm_id msg \<in> ds_seen st))"
proof -
  let ?st0 = "\<lparr> ds_store = s, ds_seen = {}, ds_agent_calls = [], ds_iterations = 0 \<rparr>"
  have inv: "distinct (ds_agent_calls (drain_loop ag clock sid ?st0))
         \<and> set (ds_agent_calls (drain_loop ag clock sid ?st0))
             \<subseteq> set (ds_agent_calls ?st0) \<union> (queue_ids (ds_store ?st0) - ds_seen ?st0)
         \<and> length (ds_agent_calls (drain_loop ag clock sid ?st0))
             \<le> ds_iterations (drain_loop ag clock sid ?st0)
         \<and> ds_iterations (drain_loop ag clock sid ?st0)
             \<le> ds_iterations ?st0 + card (queue_ids (ds_store ?st0) - ds_seen ?st0)"
    by (rule drain_loop_invariants) simp_all
  have c: "card (queue_ids s) \<le> length (pending_messages s)"
    unfolding queue_ids_def using card_length [of "map pm_id (pending_messages s)"] by simp
  have u: "drain_loop ag clock sid st =
              (case drain_step ag clock sid st of
                 Inl final \<Rightarrow> final | Inr st' \<Rightarrow> drain_loop ag clock sid st')" for st
    by (rule drain_loop.simps)
  have b: "(\<exists>final. drain_step ag clock sid st = Inl final) \<longleftrightarrow>
              (case fst (claimNextPending (clock (ds_iterations st)) sid (ds_store st)) of
                 None \<Rightarrow> True | Some msg \<Rightarrow> pm_id msg \<in> ds_seen st)" for st
  proof (cases "claimNextPending (clock (ds_iterations st)) sid (ds_store st)")
    case (Pair r s1)
    then show ?thesis by (cases r) (simp_all add: drain_step_def Let_def)
  qed
  from inv c u b show ?thesis by (simp add: processSessionQueue_def)
qed

theorem processSessionQueue_once_per_item_witness:
  "ds_agent_calls (processSessionQueue demo_failing_agent (\<lambda>k. 3000 + int k) 1 demo_single) = [1]
   \<and> ds_iterations (processSessionQueue demo_failing_agent (\<lambda>k. 3000 + int k) 1 demo_single) = 1
   \<and> status_retry 1 (ds_store (processSessionQueue demo_failing_agent (\<lambda>k. 3000 + int k) 1 demo_single))
       = Some (Processing, 1)
   \<and> distinct (ds_agent_calls (processSessionQueue demo_failing_agent (\<lambda>k. 3000 + int k) 1 demo_single))
   \<and> ds_iterations (processSessionQueue demo_failing_agent (\<lambda>k. 3000 + int k) 1 demo_single)
       \<le> card (queue_ids demo_single)"
proof -
  have e: "processSessionQueue demo_failing_agent (\<lambda>k. 3000 + int k) 1 demo_single =
             \<lparr> ds_store = demo_single\<lparr> sdk_sessions := [demo_session\<lparr> ses_memory_session_id := Some ''cmem-1'' \<rparr>],
                            pending_messages :=
                             [(demo_item 1)\<lparr> pm_status := Processing, pm_retry_count := 1,
                                             pm_started_processing_at_epoch := Some 3001 \<rparr>] \<rparr>,
               ds_seen = {1}, ds_agent_calls = [1], ds_iterations = 1 \<rparr>"
    by (simp add: processSessionQueue_def drain_loop.simps drain_step_def process_message_def
          run_agent_def getSessionById_def demo_failing_agent_def demo_session_def
          ensureMemorySessionIdRegistered_def show_int_def queue_eval)
  have s: "status_retry 1 (demo_single\<lparr> sdk_sessions := [demo_session\<lparr> ses_memory_session_id := Some ''cmem-1'' \<rparr>],
                            pending_messages :=
                             [(demo_item 1)\<lparr> pm_status := Processing, pm_retry_count := 1,
                                             pm_started_processing_at_epoch := Some 3001 \<rparr>] \<rparr>)
           = Some (Processing, 1)"
    by (simp add: queue_eval)
  from processSessionQueue_once_per_item [of demo_failing_agent "\<lambda>k. 3000 + int k" 1 demo_single]
  have "distinct (ds_agent_calls (processSessionQueue demo_failing_agent (\<lambda>k. 3000 + int k) 1 demo_single))"
    and "ds_iterations (processSessionQueue demo_failing_agent (\<lambda>k. 3000 + int k) 1 demo_single)
       \<le> card (queue_ids demo_single)"
    by blast+
  then show ?thesis using s by (simp add: e)
qed

subsection \<open>Hybrid merge\<close>

lemma merge_loop_first_seen:
  "merge_loop rid limit seen merged rows =
     merged @ take (nat (max 1 (limit - int (length merged)))) (first_seen rid seen rows)"
proof (induction rows arbitrary: seen merged)
  case Nil
  then show ?case by simp
next
  case (Cons row rest)
  show ?case
  proof (cases "rid row")
    case None
    then show ?thesis by (simp add: Cons.IH)
  next
    case (Some i)
    show ?thesis
    proof (cases "i \<in> seen")
      case True
      with Some show ?thesis by (simp add: Cons.IH)
    next
      case False
      show ?thesis
      proof (cases "int (length (merged @ [row])) \<ge> limit")
        case True
        then have "nat (max 1 (limit - int (length merged))) = 1" by simp
        with Some False True show ?thesis by simp
      next
        case full: False
        then have "nat (max 1 (limit - int (length merged)))
                   = Suc (nat (max 1 (limit - int (length (merged @ [row])))))" by simp
        with Some False full show ?thesis by (simp add: Cons.IH)
      qed
    qed
  qed
qed

lemma mergeRowsWithPriority_first_seen:
  "mergeRowsWithPriority rid priorityRows lexicalRows limit =
     take (nat (max 1 limit)) (first_seen rid {} (priorityRows @ lexicalRows))"
  by (simp add: mergeRowsWithPriority_def merge_loop_first_seen)

lemma first_seen_all:
  "first_seen (\<lambda>r. Some (f r)) seen rows =
     (case rows of [] \<Rightarrow> []
      | r # rest \<Rightarrow> if f r \<in> seen then first_seen (\<lambda>r. Some (f r)) seen rest
                    else r # first_seen (\<lambda>r. Some (f r)) (insert (f r) seen) rest)"
  by (cases rows) simp_all

lemma first_seen_distinct:
  "distinct (map f rows) \<Longrightarrow>
   first_seen (\<lambda>r. Some (f r)) seen rows = filter (\<lambda>r. f r \<notin> seen) rows"
proof (induction rows arbitrary: seen)
  case Nil
  then show ?case by simp
next
  case (Cons r rest)
  from Cons.prems have "f r \<notin> f ` set rest" by simp
  then have "\<forall>x \<in> set rest. f x \<noteq> f r" by (metis imageI)
  then have "filter (\<lambda>x. f x \<notin> insert (f r) seen) rest = filter (\<lambda>x. f x \<notin> seen) rest"
    by (auto intro!: filter_cong)
  with Cons show ?case by simp
qed

lemma first_seen_append:
  "first_seen rid seen (xs @ ys) =
     first_seen rid seen xs
     @ first_seen rid (seen \<union> {i. \<exists>x \<in> set xs. rid x = Some i}) ys"
proof (induction xs arbitrary: seen)
  case Nil
  then show ?case by simp
next
  case (Cons x xs)
  show ?case
  proof (cases "rid x")
    case None
    have "seen \<union> {i. \<exists>y \<in> set (x # xs). rid y = Some i} = seen \<union> {i. \<exists>y \<in> set xs. rid y = Some i}"
      using None by auto
    with None Cons.IH [of seen] show ?thesis by simp
  next
    case (Some i)
    have e1: "insert i seen \<union> {j. \<exists>y \<in> set xs. rid y = Some j}
              = seen \<union> {j. \<exists>y \<in> set (x # xs). rid y = Some j}"
      using Some by auto
    show ?thesis
    proof (cases "i \<in> seen")
      case True
      then have "seen \<union> {j. \<exists>y \<in> set xs. rid y = Some j}
                 = seen \<union> {j. \<exists>y \<in> set (x # xs). rid y = Some j}"
        using Some by auto
      with Some True Cons.IH [of seen] show ?thesis by simp
    next
      case False
      with Some Cons.IH [of "insert i seen"] e1 show ?thesis by simp
    qed
  qed
qed

text \<open>The rows a by-ids fetch returns are in descending creation time.\<close>

lemma sorted_sql_limit: "sorted (map k rows) \<Longrightarrow> sorted (map k (sql_limit n rows))"
  by (simp add: sql_limit_def take_map [symmetric] sorted_wrt_take)

lemma sorted_limit_clause: "sorted (map k rows) \<Longrightarrow> sorted (map k (limit_clause n rows))"
  by (auto simp: limit_clause_def sorted_sql_limit split: option.splits)

lemma order_desc_sorted:
  "sorted (map (\<lambda>r. - key r) (order_by_epoch (Some DateDesc) key rows))"
  by (simp add: order_by_epoch_def)

lemma set_sql_limit: "set (sql_limit n rows) \<subseteq> set rows"
  by (simp add: sql_limit_def set_take_subset)

lemma set_limit_clause: "set (limit_clause n rows) \<subseteq> set rows"
  by (cases n) (simp_all add: limit_clause_def set_sql_limit)

lemma in_limit_clause: "x \<in> set (limit_clause n rows) \<Longrightarrow> x \<in> set rows"
  by (rule subsetD [OF set_limit_clause])

lemma set_order_by_epoch: "set (order_by_epoch ob key rows) = set rows"
  by (simp add: order_by_epoch_def)

lemma getObservationsByIds_sorted:
  "bo_orderBy options = Some DateDesc \<Longrightarrow>
   sorted (map (\<lambda>ob. - obs_created_at_epoch ob) (getObservationsByIds ids options s))"
  by (simp add: getObservationsByIds_def sorted_limit_clause order_desc_sorted)

lemma getSummariesByIds_sorted:
  "bo_orderBy options = Some DateDesc \<Longrightarrow>
   sorted (map (\<lambda>su. - sum_created_at_epoch su) (getSummariesByIds ids options s))"
  by (simp add: getSummariesByIds_def sorted_limit_clause order_desc_sorted)

lemma getPromptsByIds_sorted:
  assumes o: "bo_orderBy options = Some DateDesc"
  shows "sorted (map (\<lambda>up. - up_created_at_epoch up) (getPromptsByIds ids options s))"
proof (cases "ids = []")
  case True
  then show ?thesis by (simp add: getPromptsByIds_def)
next
  case False
  let ?P = "\<lambda>r :: user_prompt \<times> sdk_session.
                 up_id (fst r) \<in> set ids \<and> up_deleted_at_epoch (fst r) = None \<and>
                 project_filter (bo_project options) (ses_project (snd r)) \<and>
                 date_filter (bo_dateStartEpoch options) (bo_dateEndEpoch options)
                   (up_created_at_epoch (fst r))"
  let ?rows = "limit_clause (bo_limit options)
                (order_by_epoch (Some DateDesc) (\<lambda>r. up_created_at_epoch (fst r))
                   (filter ?P (prompt_join s)))"
  from False o have e: "getPromptsByIds ids options s = map fst ?rows"
    by (simp add: getPromptsByIds_def)
  have "sorted (map (\<lambda>r. - up_created_at_epoch (fst r)) ?rows)"
    by (rule sorted_limit_clause) (rule order_desc_sorted)
  then have "sorted (map (\<lambda>up. - up_created_at_epoch up) (map fst ?rows))"
    by (simp add: o_def)
  then show ?thesis by (simp only: e)
qed

lemma getObservationsByIds_live:
  assumes "ob \<in> set (getObservationsByIds ids options s)"
  shows "ob \<in> set (observations s) \<and> obs_id ob \<in> set ids \<and> obs_deleted_at_epoch ob = None"
proof (cases "ids = []")
  case True
  with assms show ?thesis by (simp add: getObservationsByIds_def)
next
  case False
  let ?P = "\<lambda>ob. obs_id ob \<in> set ids \<and> obs_deleted_at_epoch ob = None \<and>
                   project_filter (bo_project options) (obs_project ob) \<and>
                   type_filter (bo_obsTypes options) (obs_type ob) \<and>
                   date_filter (bo_dateStartEpoch options) (bo_dateEndEpoch options)
                     (obs_created_at_epoch ob)"
  from assms False
  have "ob \<in> set (limit_clause (bo_limit options)
                (order_by_epoch (bo_orderBy options) obs_created_at_epoch
                   (filter ?P (observations s))))"
    by (simp add: getObservationsByIds_def)
  then have "ob \<in> set (order_by_epoch (bo_orderBy options) obs_created_at_epoch
                   (filter ?P (observations s)))" by (rule in_limit_clause)
  then have "ob \<in> set (filter ?P (observations s))" by (simp only: set_order_by_epoch)
  then show ?thesis by simp
qed

lemma getSummariesByIds_live:
  assumes "su \<in> set (getSummariesByIds ids options s)"
  shows "su \<in> set (session_summaries s) \<and> sum_id su \<in> set ids \<and> sum_deleted_at_epoch su = None"
proof (cases "ids = []")
  case True
  with assms show ?thesis by (simp add: getSummariesByIds_def)
next
  case False
  let ?P = "\<lambda>su. sum_id su \<in> set ids \<and> sum_deleted_at_epoch su = None \<and>
                   project_filter (bo_project options) (sum_project su) \<and>
                   date_filter (bo_dateStartEpoch options) (bo_dateEndEpoch options)
                     (sum_created_at_epoch su)"
  from assms False
  have "su \<in> set (limit_clause (bo_limit options)
                (order_by_epoch (bo_orderBy options) sum_created_at_epoch
                   (filter ?P (session_summaries s))))"
    by (simp add: getSummariesByIds_def)
  then have "su \<in> set (order_by_epoch (bo_orderBy options) sum_created_at_epoch
                   (filter ?P (session_summaries s)))" by (rule in_limit_clause)
  then have "su \<in> set (filter ?P (session_summaries s))" by (simp only: set_order_by_epoch)
  then show ?thesis by simp
qed

lemma in_prompt_join: "r \<in> set (prompt_join s) \<Longrightarrow> fst r \<in> set (user_prompts s)"
  by (auto simp: prompt_join_def)

lemma getPromptsByIds_live:
  assumes "up \<in> set (getPromptsByIds ids options s)"
  shows "up \<in> set (user_prompts s) \<and> up_id up \<in> set ids \<and> up_deleted_at_epoch up = None"
proof (cases "ids = []")
  case True
  with assms show ?thesis by (simp add: getPromptsByIds_def)
next
  case False
  let ?P = "\<lambda>r :: user_prompt \<times> sdk_session.
                 up_id (fst r) \<in> set ids \<and> up_deleted_at_epoch (fst r) = None \<and>
                 project_filter (bo_project options) (ses_project (snd r)) \<and>
                 date_filter (bo_dateStartEpoch options) (bo_dateEndEpoch options)
                   (up_created_at_epoch (fst r))"
  let ?rows = "limit_clause (bo_limit options)
                (order_by_epoch (bo_orderBy options) (\<lambda>r. up_created_at_epoch (fst r))
                   (filter ?P (prompt_join s)))"
  from False have "getPromptsByIds ids options s = map fst ?rows"
    by (simp add: getPromptsByIds_def)
  with assms have "up \<in> fst ` set ?rows" by simp
  then obtain r where up: "up = fst r" and r: "r \<in> set ?rows" by (rule imageE)
  from r have "r \<in> set (order_by_epoch (bo_orderBy options) (\<lambda>r. up_created_at_epoch (fst r))
                   (filter ?P (prompt_join s)))" by (rule in_limit_clause)
  then have "r \<in> set (filter ?P (prompt_join s))" by (simp only: set_order_by_epoch)
  then show ?thesis using in_prompt_join [of r s] by (simp add: up)
qed

lemma first_seen_priority:
  assumes "distinct (map f H)" and "distinct (map f L)"
  shows "first_seen (\<lambda>r. Some (f r)) {} (H @ L) = H @ filter (\<lambda>l. f l \<notin> f ` set H) L"
proof -
  have "{i. \<exists>x \<in> set H. Some (f x) = Some i} = f ` set H" by auto
  then show ?thesis
    using assms by (simp add: first_seen_append first_seen_distinct)
qed

lemma length_limit_clause:
  "0 < n \<Longrightarrow> length (limit_clause (Some n) rows) \<le> nat n"
  by (simp add: limit_clause_def sql_limit_def)

lemma page_limit_pos: "0 < page_limit req"
  by (simp add: page_limit_def)

lemma getObservationsByIds_length:
  "length (getObservationsByIds ids (hydrate_options req) s) \<le> nat (page_limit req)"
  by (simp add: getObservationsByIds_def hydrate_options_def length_limit_clause page_limit_pos)

lemma getSummariesByIds_length:
  "length (getSummariesByIds ids (hydrate_options req) s) \<le> nat (page_limit req)"
  by (simp add: getSummariesByIds_def hydrate_options_def length_limit_clause page_limit_pos)

lemma getPromptsByIds_length:
  "length (getPromptsByIds ids (hydrate_options req) s) \<le> nat (page_limit req)"
  by (simp add: getPromptsByIds_def hydrate_options_def length_limit_clause page_limit_pos)

lemma api_search_observations:
  "so_observations (fst (api_search like now vb req s)) =
     (if request_query req = None \<or> vectorObservationIds req vb = []
      then sr_observations (search like (lexical_args req) s)
      else take (nat (page_limit req))
             (first_seen (\<lambda>r. Some (obs_id r)) {}
                (getObservationsByIds (vectorObservationIds req vb) (hydrate_options req) s
                 @ sr_observations (search like (lexical_args req) s))))"
  using page_limit_pos [of req]
  by (simp add: api_search_def Let_def mergeRowsWithPriority_first_seen max_def)

lemma api_search_sessions:
  "so_sessions (fst (api_search like now vb req s)) =
     (if request_query req = None \<or> vectorSummaryIds req vb = []
      then sr_sessions (search like (lexical_args req) s)
      else take (nat (page_limit req))
             (first_seen (\<lambda>r. Some (sum_id r)) {}
                (getSummariesByIds (vectorSummaryIds req vb) (hydrate_options req) s
                 @ sr_sessions (search like (lexical_args req) s))))"
  using page_limit_pos [of req]
  by (simp add: api_search_def Let_def mergeRowsWithPriority_first_seen max_def)

lemma api_search_prompts:
  "so_prompts (fst (api_search like now vb req s)) =
     (if request_query req = None \<or> vectorPromptIds req vb = []
      then sr_prompts (search like (lexical_args req) s)
      else take (nat (page_limit req))
             (first_seen (\<lambda>r. Some (up_id r)) {}
                (getPromptsByIds (vectorPromptIds req vb) (hydrate_options req) s
                 @ sr_prompts (search like (lexical_args req) s))))"
  using page_limit_pos [of req]
  by (simp add: api_search_def Let_def mergeRowsWithPriority_first_seen max_def)

lemma in_prompt_join_iff:
  "r \<in> set (prompt_join s) \<longleftrightarrow>
     fst r \<in> set (user_prompts s) \<and> snd r \<in> set (sdk_sessions s)
     \<and> ses_content_session_id (snd r) = up_content_session_id (fst r)"
  by (cases r) (auto simp: prompt_join_def)

lemma limit_clause_take: "0 < n \<Longrightarrow> limit_clause (Some n) rows = take (nat n) rows"
  by (simp add: limit_clause_def sql_limit_def max_def)

text \<open>A row that a limited, newest-first selection leaves out: the selection is full and
  none of its rows is older than the row.\<close>

lemma newest_first_left_out:
  assumes n: "0 < n" and x: "x \<in> set rows"
    and out: "x \<notin> set (limit_clause (Some n) (order_by_epoch (Some DateDesc) key rows))"
  shows "length (limit_clause (Some n) (order_by_epoch (Some DateDesc) key rows)) = nat n
       \<and> (\<forall>h \<in> set (limit_clause (Some n) (order_by_epoch (Some DateDesc) key rows)).
             key x \<le> key h)"
proof -
  define ys where "ys = order_by_epoch (Some DateDesc) key rows"
  have l: "limit_clause (Some n) ys = take (nat n) ys" using n by (rule limit_clause_take)
  have s: "sorted (map (\<lambda>r. - key r) ys)" unfolding ys_def by (rule order_desc_sorted)
  from x have "x \<in> set ys" by (simp add: ys_def set_order_by_epoch)
  then have "x \<in> set (take (nat n) ys) \<or> x \<in> set (drop (nat n) ys)"
    using append_take_drop_id [of "nat n" ys] set_append [of "take (nat n) ys" "drop (nat n) ys"]
    by auto
  with out have d: "x \<in> set (drop (nat n) ys)" by (simp add: ys_def [symmetric] l)
  then have "drop (nat n) ys \<noteq> []" by auto
  then have len: "length (take (nat n) ys) = nat n" by simp
  from s have "sorted (map (\<lambda>r. - key r) (take (nat n) ys) @ map (\<lambda>r. - key r) (drop (nat n) ys))"
    by (simp only: map_append [symmetric] append_take_drop_id)
  then have "\<forall>a \<in> set (take (nat n) ys). \<forall>b \<in> set (drop (nat n) ys). - key a \<le> - key b"
    by (auto simp: sorted_append)
  with d have "\<forall>h \<in> set (take (nat n) ys). key x \<le> key h" by auto
  with len show ?thesis by (simp add: ys_def [symmetric] l)
qed

lemma getObservationsByIds_filters:
  assumes "ob \<in> set (getObservationsByIds ids options s)"
  shows "project_filter (bo_project options) (obs_project ob)
       \<and> type_filter (bo_obsTypes options) (obs_type ob)
       \<and> date_filter (bo_dateStartEpoch options) (bo_dateEndEpoch options) (obs_created_at_epoch ob)"
proof (cases "ids = []")
  case True
  with assms show ?thesis by (simp add: getObservationsByIds_def)
next
  case False
  let ?P = "\<lambda>ob. obs_id ob \<in> set ids \<and> obs_deleted_at_epoch ob = None \<and>
                   project_filter (bo_project options) (obs_project ob) \<and>
                   type_filter (bo_obsTypes options) (obs_type ob) \<and>
                   date_filter (bo_dateStartEpoch options) (bo_dateEndEpoch options)
                     (obs_created_at_epoch ob)"
  from assms False
  have "ob \<in> set (limit_clause (bo_limit options)
                (order_by_epoch (bo_orderBy options) obs_created_at_epoch
                   (filter ?P (observations s))))"
    by (simp add: getObservationsByIds_def)
  then have "ob \<in> set (order_by_epoch (bo_orderBy options) obs_created_at_epoch
                   (filter ?P (observations s)))" by (rule in_limit_clause)
  then have "ob \<in> set (filter ?P (observations s))" by (simp only: set_order_by_epoch)
  then show ?thesis by simp
qed

lemma getSummariesByIds_filters:
  assumes "su \<in> set (getSummariesByIds ids options s)"
  shows "project_filter (bo_project options) (sum_project su)
       \<and> date_filter (bo_dateStartEpoch options) (bo_dateEndEpoch options) (sum_created_at_epoch su)"
proof (cases "ids = []")
  case True
  with assms show ?thesis by (simp add: getSummariesByIds_def)
next
  case False
  let ?P = "\<lambda>su. sum_id su \<in> set ids \<and> sum_deleted_at_epoch su = None \<and>
                   project_filter (bo_project options) (sum_project su) \<and>
                   date_filter (bo_dateStartEpoch options) (bo_dateEndEpoch options)
                     (sum_created_at_epoch su)"
  from assms False
  have "su \<in> set (limit_clause (bo_limit options)
                (order_by_epoch (bo_orderBy options) sum_created_at_epoch
                   (filter ?P (session_summaries s))))"
    by (simp add: getSummariesByIds_def)
  then have "su \<in> set (order_by_epoch (bo_orderBy options) sum_created_at_epoch
                   (filter ?P (session_summaries s)))" by (rule in_limit_clause)
  then have "su \<in> set (filter ?P (session_summaries s))" by (simp only: set_order_by_epoch)
  then show ?thesis by simp
qed

lemma getPromptsByIds_filters:
  assumes "up \<in> set (getPromptsByIds ids options s)"
  shows "(\<exists>ses \<in> set (sdk_sessions s).
            ses_content_session_id ses = up_content_session_id up
            \<and> project_filter (bo_project options) (ses_project ses))
       \<and> date_filter (bo_dateStartEpoch options) (bo_dateEndEpoch options) (up_created_at_epoch up)"
proof (cases "ids = []")
  case True
  with assms show ?thesis by (simp add: getPromptsByIds_def)
next
  case False
  let ?P = "\<lambda>r :: user_prompt \<times> sdk_session.
                 up_id (fst r) \<in> set ids \<and> up_deleted_at_epoch (fst r) = None \<and>
                 project_filter (bo_project options) (ses_project (snd r)) \<and>
                 date_filter (bo_dateStartEpoch options) (bo_dateEndEpoch options)
                   (up_created_at_epoch (fst r))"
  let ?rows = "limit_clause (bo_limit options)
                (order_by_epoch (bo_orderBy options) (\<lambda>r. up_created_at_epoch (fst r))
                   (filter ?P (prompt_join s)))"
  from False have "getPromptsByIds ids options s = map fst ?rows"
    by (simp add: getPromptsByIds_def)
  with assms have "up \<in> fst ` set ?rows" by simp
  then obtain r where up: "up = fst r" and r: "r \<in> set ?rows" by (rule imageE)
  from r have "r \<in> set (order_by_epoch (bo_orderBy options) (\<lambda>r. up_created_at_epoch (fst r))
                   (filter ?P (prompt_join s)))" by (rule in_limit_clause)
  then have "r \<in> set (filter ?P (prompt_join s))" by (simp only: set_order_by_epoch)
  then have "?P r" and "r \<in> set (prompt_join s)" by simp_all
  then show ?thesis unfolding up in_prompt_join_iff by blast
qed

lemma getObservationsByIds_newest:
  assumes "ob \<in> set (observations s)" and "obs_id ob \<in> set ids"
    and "obs_deleted_at_epoch ob = None"
    and "project_filter (sq_project req) (obs_project ob)"
    and "type_filter (sq_obsTypes req) (obs_type ob)"
    and "date_filter (sq_dateStartEpoch req) (sq_dateEndEpoch req) (obs_created_at_epoch ob)"
    and out: "ob \<notin> set (getObservationsByIds ids (hydrate_options req) s)"
  shows "length (getObservationsByIds ids (hydrate_options req) s) = nat (page_limit req)
       \<and> (\<forall>h \<in> set (getObservationsByIds ids (hydrate_options req) s).
             obs_created_at_epoch ob \<le> obs_created_at_epoch h)"
proof -
  let ?P = "\<lambda>ob. obs_id ob \<in> set ids \<and> obs_deleted_at_epoch ob = None \<and>
                   project_filter (sq_project req) (obs_project ob) \<and>
                   type_filter (sq_obsTypes req) (obs_type ob) \<and>
                   date_filter (sq_dateStartEpoch req) (sq_dateEndEpoch req)
                     (obs_created_at_epoch ob)"
  from assms(2) have ne: "ids \<noteq> []" by auto
  then have e: "getObservationsByIds ids (hydrate_options req) s =
          limit_clause (Some (page_limit req))
            (order_by_epoch (Some DateDesc) obs_created_at_epoch (filter ?P (observations s)))"
    by (simp add: getObservationsByIds_def hydrate_options_def)
  from assms(1-6) have "ob \<in> set (filter ?P (observations s))" by simp
  from newest_first_left_out [OF page_limit_pos this out [unfolded e]]
  show ?thesis unfolding e .
qed

lemma getSummariesByIds_newest:
  assumes "su \<in> set (session_summaries s)" and "sum_id su \<in> set ids"
    and "sum_deleted_at_epoch su = None"
    and "project_filter (sq_project req) (sum_project su)"
    and "date_filter (sq_dateStartEpoch req) (sq_dateEndEpoch req) (sum_created_at_epoch su)"
    and out: "su \<notin> set (getSummariesByIds ids (hydrate_options req) s)"
  shows "length (getSummariesByIds ids (hydrate_options req) s) = nat (page_limit req)
       \<and> (\<forall>h \<in> set (getSummariesByIds ids (hydrate_options req) s).
             sum_created_at_epoch su \<le> sum_created_at_epoch h)"
proof -
  let ?P = "\<lambda>su. sum_id su \<in> set ids \<and> sum_deleted_at_epoch su = None \<and>
                   project_filter (sq_project req) (sum_project su) \<and>
                   date_filter (sq_dateStartEpoch req) (sq_dateEndEpoch req)
                     (sum_created_at_epoch su)"
  from assms(2) have ne: "ids \<noteq> []" by auto
  then have e: "getSummariesByIds ids (hydrate_options req) s =
          limit_clause (Some (page_limit req))
            (order_by_epoch (Some DateDesc) sum_created_at_epoch (filter ?P (session_summaries s)))"
    by (simp add: getSummariesByIds_def hydrate_options_def)
  from assms(1-5) have "su \<in> set (filter ?P (session_summaries s))" by simp
  from newest_first_left_out [OF page_limit_pos this out [unfolded e]]
  show ?thesis unfolding e .
qed

lemma getPromptsByIds_newest:
  assumes "up \<in> set (user_prompts s)" and "ses \<in> set (sdk_sessions s)"
    and "ses_content_session_id ses = up_content_session_id up"
    and "up_id up \<in> set ids" and "up_deleted_at_epoch up = None"
    and "project_filter (sq_project req) (ses_project ses)"
    and "date_filter (sq_dateStartEpoch req) (sq_dateEndEpoch req) (up_created_at_epoch up)"
    and out: "up \<notin> set (getPromptsByIds ids (hydrate_options req) s)"
  shows "length (getPromptsByIds ids (hydrate_options req) s) = nat (page_limit req)
       \<and> (\<forall>h \<in> set (getPromptsByIds ids (hydrate_options req) s).
             up_created_at_epoch up \<le> up_created_at_epoch h)"
proof -
  let ?P = "\<lambda>r :: user_prompt \<times> sdk_session.
                 up_id (fst r) \<in> set ids \<and> up_deleted_at_epoch (fst r) = None \<and>
                 project_filter (sq_project req) (ses_project (snd r)) \<and>
                 date_filter (sq_dateStartEpoch req) (sq_dateEndEpoch req)
                   (up_created_at_epoch (fst r))"
  let ?rows = "limit_clause (Some (page_limit req))
                (order_by_epoch (Some DateDesc) (\<lambda>r. up_created_at_epoch (fst r))
                   (filter ?P (prompt_join s)))"
  from assms(4) have ne: "ids \<noteq> []" by auto
  then have e: "getPromptsByIds ids (hydrate_options req) s = map fst ?rows"
    by (simp add: getPromptsByIds_def hydrate_options_def)
  from assms(1-3) have "(up, ses) \<in> set (prompt_join s)" by (simp add: in_prompt_join_iff)
  with assms(4-7) have m: "(up, ses) \<in> set (filter ?P (prompt_join s))" by simp
  from out have o: "(up, ses) \<notin> set ?rows" unfolding e by force
  from newest_first_left_out [OF page_limit_pos m o]
  have "length ?rows = nat (page_limit req)"
    and "\<forall>h \<in> set ?rows. up_created_at_epoch up \<le> up_created_at_epoch (fst h)" by simp_all
  then show ?thesis unfolding e by simp
qed

text \<open>
  Claim C4, as amended. For a request with a query, and for each of the three kinds: when
  the vector sources gave no id of that kind the result is the lexical page; otherwise it
  is the first \<open>limit\<close> rows of the hydrated vector hits followed by the lexical rows,
  each id kept where it is first seen. The hydrated vector hits are the rows that
  \<open>getObservationsByIds\<close> (\<open>getSummariesByIds\<close>, \<open>getPromptsByIds\<close>) returns for the
  vector ids. They are in descending creation time, which is not the rank order of the
  vector sources, and there are at most \<open>limit\<close> of them. Each of them is a row of the
  table that is not deleted, whose id is among the vector ids and that passes the filters
  of the request (project, observation types, date range; for a prompt the project is
  that of its session). They are the newest such rows: a row of that description that is
  not among them is left out only because \<open>limit\<close> rows were taken already, none of them
  older than it.
\<close>

theorem api_search_merge_order:
  assumes "request_query req = Some q"
  shows "so_observations (fst (api_search like now vb req s)) =
           (if vectorObservationIds req vb = []
            then sr_observations (search like (lexical_args req) s)
            else take (nat (page_limit req))
                   (first_seen (\<lambda>r. Some (obs_id r)) {}
                      (getObservationsByIds (vectorObservationIds req vb) (hydrate_options req) s
                       @ sr_observations (search like (lexical_args req) s))))
       \<and> so_sessions (fst (api_search like now vb req s)) =
           (if vectorSummaryIds req vb = []
            then sr_sessions (search like (lexical_args req) s)
            else take (nat (page_limit req))
                   (first_seen (\<lambda>r. Some (sum_id r)) {}
                      (getSummariesByIds (vectorSummaryIds req vb) (hydrate_options req) s
                       @ sr_sessions (search like (lexical_args req) s))))
       \<and> so_prompts (fst (api_search like now vb req s)) =
           (if vectorPromptIds req vb = []
            then sr_prompts (search like (lexical_args req) s)
            else take (nat (page_limit req))
                   (first_seen (\<lambda>r. Some (up_id r)) {}
                      (getPromptsByIds (vectorPromptIds req vb) (hydrate_options req) s
                       @ sr_prompts (search like (lexical_args req) s))))
       \<and> sorted (map (\<lambda>ob. - obs_created_at_epoch ob)
                  (getObservationsByIds (vectorObservationIds req vb) (hydrate_options req) s))
       \<and> sorted (map (\<lambda>su. - sum_created_at_epoch su)
                  (getSummariesByIds (vectorSummaryIds req vb) (hydrate_options req) s))
       \<and> sorted (map (\<lambda>up. - up_created_at_epoch up)
                  (getPromptsByIds (vectorPromptIds req vb) (hydrate_options req) s))
       \<and> length (getObservationsByIds (vectorObservationIds req vb) (hydrate_options req) s)
           \<le> nat (page_limit req)
       \<and> length (getSummariesByIds (vectorSummaryIds req vb) (hydrate_options req) s)
           \<le> nat (page_limit req)
       \<and> length (getPromptsByIds (vectorPromptIds req vb) (hydrate_options req) s)
           \<le> nat (page_limit req)
       \<and> (\<forall>ob \<in> set (getObservationsByIds (vectorObservationIds req vb) (hydrate_options req) s).
             ob \<in> set (observations s) \<and> obs_id ob \<in> set (vectorObservationIds req vb)
             \<and> obs_deleted_at_epoch ob = None
             \<and> project_filter (sq_project req) (obs_project ob)
             \<and> type_filter (sq_obsTypes req) (obs_type ob)
             \<and> date_filter (sq_dateStartEpoch req) (sq_dateEndEpoch req) (obs_created_at_epoch ob))
       \<and> (\<forall>su \<in> set (getSummariesByIds (vectorSummaryIds req vb) (hydrate_options req) s).
             su \<in> set (session_summaries s) \<and> sum_id su \<in> set (vectorSummaryIds req vb)
             \<and> sum_deleted_at_epoch su = None
             \<and> project_filter (sq_project req) (sum_project su)
             \<and> date_filter (sq_dateStartEpoch req) (sq_dateEndEpoch req) (sum_created_at_epoch su))
       \<and> (\<forall>up \<in> set (getPromptsByIds (vectorPromptIds req vb) (hydrate_options req) s).
             up \<in> set (user_prompts s) \<and> up_id up \<in> set (vectorPromptIds req vb)
             \<and> up_deleted_at_epoch up = None
             \<and> (\<exists>ses \<in> set (sdk_sessions s).
                   ses_content_session_id ses = up_content_session_id up
                   \<and> project_filter (sq_project req) (ses_project ses))
             \<and> date_filter (sq_dateStartEpoch req) (sq_dateEndEpoch req) (up_created_at_epoch up))
       \<and> (\<forall>ob \<in> set (observations s).
             obs_id ob \<in> set (vectorObservationIds req vb) \<and> obs_deleted_at_epoch ob = None
             \<and> project_filter (sq_project req) (obs_project ob)
             \<and> type_filter (sq_obsTypes req) (obs_type ob)
             \<and> date_filter (sq_dateStartEpoch req) (sq_dateEndEpoch req) (obs_created_at_epoch ob)
             \<and> ob \<notin> set (getObservationsByIds (vectorObservationIds req vb) (hydrate_options req) s)
             \<longrightarrow> length (getObservationsByIds (vectorObservationIds req vb) (hydrate_options req) s)
                   = nat (page_limit req)
                 \<and> (\<forall>h \<in> set (getObservationsByIds (vectorObservationIds req vb)
                                 (hydrate_options req) s).
                       obs_created_at_epoch ob \<le> obs_created_at_epoch h))
       \<and> (\<forall>su \<in> set (session_summaries s).
             sum_id su \<in> set (vectorSummaryIds req vb) \<and> sum_deleted_at_epoch su = None
             \<and> project_filter (sq_project req) (sum_project su)
             \<and> date_filter (sq_dateStartEpoch req) (sq_dateEndEpoch req) (sum_created_at_epoch su)
             \<and> su \<notin> set (getSummariesByIds (vectorSummaryIds req vb) (hydrate_options req) s)
             \<longrightarrow> length (getSummariesByIds (vectorSummaryIds req vb) (hydrate_options req) s)
                   = nat (page_limit req)
                 \<and> (\<forall>h \<in> set (getSummariesByIds (vectorSummaryIds req vb)
                                 (hydrate_options req) s).
                       sum_created_at_epoch su \<le> sum_created_at_epoch h))
       \<and> (\<forall>up \<in> set (user_prompts s). \<forall>ses \<in> set (sdk_sessions s).
             ses_content_session_id ses = up_content_session_id up
             \<and> up_id up \<in> set (vectorPromptIds req vb) \<and> up_deleted_at_epoch up = None
             \<and> project_filter (sq_project req) (ses_project ses)
             \<and> date_filter (sq_dateStartEpoch req) (sq_dateEndEpoch req) (up_created_at_epoch up)
             \<and> up \<notin> set (getPromptsByIds (vectorPromptIds req vb) (hydrate_options req) s)
             \<longrightarrow> length (getPromptsByIds (vectorPromptIds req vb) (hydrate_options req) s)
                   = nat (page_limit req)
                 \<and> (\<forall>h \<in> set (getPromptsByIds (vectorPromptIds req vb)
                                 (hydrate_options req) s).
                       up_created_at_epoch up \<le> up_created_at_epoch h))"
proof -
  have o: "bo_orderBy (hydrate_options req) = Some DateDesc" by (simp add: hydrate_options_def)
  have f: "bo_project (hydrate_options req) = sq_project req"
    "bo_obsTypes (hydrate_options req) = sq_obsTypes req"
    "bo_dateStartEpoch (hydrate_options req) = sq_dateStartEpoch req"
    "bo_dateEndEpoch (hydrate_options req) = sq_dateEndEpoch req"
    by (simp_all add: hydrate_options_def)
  have results: "so_observations (fst (api_search like now vb req s)) =
           (if vectorObservationIds req vb = []
            then sr_observations (search like (lexical_args req) s)
            else take (nat (page_limit req))
                   (first_seen (\<lambda>r. Some (obs_id r)) {}
                      (getObservationsByIds (vectorObservationIds req vb) (hydrate_options req) s
                       @ sr_observations (search like (lexical_args req) s))))"
    "so_sessions (fst (api_search like now vb req s)) =
           (if vectorSummaryIds req vb = []
            then sr_sessions (search like (lexical_args req) s)
            else take (nat (page_limit req))
                   (first_seen (\<lambda>r. Some (sum_id r)) {}
                      (getSummariesByIds (vectorSummaryIds req vb) (hydrate_options req) s
                       @ sr_sessions (search like (lexical_args req) s))))"
    "so_prompts (fst (api_search like now vb req s)) =
           (if vectorPromptIds req vb = []
            then sr_prompts (search like (lexical_args req) s)
            else take (nat (page_limit req))
                   (first_seen (\<lambda>r. Some (up_id r)) {}
                      (getPromptsByIds (vectorPromptIds req vb) (hydrate_options req) s
                       @ sr_prompts (search like (lexical_args req) s))))"
    using assms by (simp_all add: api_search_observations api_search_sessions api_search_prompts)
  have sound: "\<forall>ob \<in> set (getObservationsByIds (vectorObservationIds req vb) (hydrate_options req) s).
             ob \<in> set (observations s) \<and> obs_id ob \<in> set (vectorObservationIds req vb)
             \<and> obs_deleted_at_epoch ob = None
             \<and> project_filter (sq_project req) (obs_project ob)
             \<and> type_filter (sq_obsTypes req) (obs_type ob)
             \<and> date_filter (sq_dateStartEpoch req) (sq_dateEndEpoch req) (obs_created_at_epoch ob)"
    "\<forall>su \<in> set (getSummariesByIds (vectorSummaryIds req vb) (hydrate_options req) s).
             su \<in> set (session_summaries s) \<and> sum_id su \<in> set (vectorSummaryIds req vb)
             \<and> sum_deleted_at_epoch su = None
             \<and> project_filter (sq_project req) (sum_project su)
             \<and> date_filter (sq_dateStartEpoch req) (sq_dateEndEpoch req) (sum_created_at_epoch su)"
    "\<forall>up \<in> set (getPromptsByIds (vectorPromptIds req vb) (hydrate_options req) s).
             up \<in> set (user_prompts s) \<and> up_id up \<in> set (vectorPromptIds req vb)
             \<and> up_deleted_at_epoch up = None
             \<and> (\<exists>ses \<in> set (sdk_sessions s).
                   ses_content_session_id ses = up_content_session_id up
                   \<and> project_filter (sq_project req) (ses_project ses))
             \<and> date_filter (sq_dateStartEpoch req) (sq_dateEndEpoch req) (up_created_at_epoch up)"
    using getObservationsByIds_live [of _ "vectorObservationIds req vb" "hydrate_options req" s]
      getObservationsByIds_filters [of _ "vectorObservationIds req vb" "hydrate_options req" s]
      getSummariesByIds_live [of _ "vectorSummaryIds req vb" "hydrate_options req" s]
      getSummariesByIds_filters [of _ "vectorSummaryIds req vb" "hydrate_options req" s]
      getPromptsByIds_live [of _ "vectorPromptIds req vb" "hydrate_options req" s]
      getPromptsByIds_filters [of _ "vectorPromptIds req vb" "hydrate_options req" s]
    by (simp_all only: f) blast+
  have newest: "\<forall>ob \<in> set (observations s).
             obs_id ob \<in> set (vectorObservationIds req vb) \<and> obs_deleted_at_epoch ob = None
             \<and> project_filter (sq_project req) (obs_project ob)
             \<and> type_filter (sq_obsTypes req) (obs_type ob)
             \<and> date_filter (sq_dateStartEpoch req) (sq_dateEndEpoch req) (obs_created_at_epoch ob)
             \<and> ob \<notin> set (getObservationsByIds (vectorObservationIds req vb) (hydrate_options req) s)
             \<longrightarrow> length (getObservationsByIds (vectorObservationIds req vb) (hydrate_options req) s)
                   = nat (page_limit req)
                 \<and> (\<forall>h \<in> set (getObservationsByIds (vectorObservationIds req vb)
                                 (hydrate_options req) s).
                       obs_created_at_epoch ob \<le> obs_created_at_epoch h)"
    "\<forall>su \<in> set (session_summaries s).
             sum_id su \<in> set (vectorSummaryIds req vb) \<and> sum_deleted_at_epoch su = None
             \<and> project_filter (sq_project req) (sum_project su)
             \<and> date_filter (sq_dateStartEpoch req) (sq_dateEndEpoch req) (sum_created_at_epoch su)
             \<and> su \<notin> set (getSummariesByIds (vectorSummaryIds req vb) (hydrate_options req) s)
             \<longrightarrow> length (getSummariesByIds (vectorSummaryIds req vb) (hydrate_options req) s)
                   = nat (page_limit req)
                 \<and> (\<forall>h \<in> set (getSummariesByIds (vectorSummaryIds req vb)
                                 (hydrate_options req) s).
                       sum_created_at_epoch su \<le> sum_created_at_epoch h)"
    "\<forall>up \<in> set (user_prompts s). \<forall>ses \<in> set (sdk_sessions s).
             ses_content_session_id ses = up_content_session_id up
             \<and> up_id up \<in> set (vectorPromptIds req vb) \<and> up_deleted_at_epoch up = None
             \<and> project_filter (sq_project req) (ses_project ses)
             \<and> date_filter (sq_dateStartEpoch req) (sq_dateEndEpoch req) (up_created_at_epoch up)
             \<and> up \<notin> set (getPromptsByIds (vectorPromptIds req vb) (hydrate_options req) s)
             \<longrightarrow> length (getPromptsByIds (vectorPromptIds req vb) (hydrate_options req) s)
                   = nat (page_limit req)
                 \<and> (\<forall>h \<in> set (getPromptsByIds (vectorPromptIds req vb)
                                 (hydrate_options req) s).
                       up_created_at_epoch up \<le> up_created_at_epoch h)"
  proof -
    show "\<forall>ob \<in> set (observations s).
             obs_id ob \<in> set (vectorObservationIds req vb) \<and> obs_deleted_at_epoch ob = None
             \<and> project_filter (sq_project req) (obs_project ob)
             \<and> type_filter (sq_obsTypes req) (obs_type ob)
             \<and> date_filter (sq_dateStartEpoch req) (sq_dateEndEpoch req) (obs_created_at_epoch ob)
             \<and> ob \<notin> set (getObservationsByIds (vectorObservationIds req vb) (hydrate_options req) s)
             \<longrightarrow> length (getObservationsByIds (vectorObservationIds req vb) (hydrate_options req) s)
                   = nat (page_limit req)
                 \<and> (\<forall>h \<in> set (getObservationsByIds (vectorObservationIds req vb)
                                 (hydrate_options req) s).
                       obs_created_at_epoch ob \<le> obs_created_at_epoch h)"
      by (intro ballI impI, elim conjE, rule getObservationsByIds_newest)
    show "\<forall>su \<in> set (session_summaries s).
             sum_id su \<in> set (vectorSummaryIds req vb) \<and> sum_deleted_at_epoch su = None
             \<and> project_filter (sq_project req) (sum_project su)
             \<and> date_filter (sq_dateStartEpoch req) (sq_dateEndEpoch req) (sum_created_at_epoch su)
             \<and> su \<notin> set (getSummariesByIds (vectorSummaryIds req vb) (hydrate_options req) s)
             \<longrightarrow> length (getSummariesByIds (vectorSummaryIds req vb) (hydrate_options req) s)
                   = nat (page_limit req)
                 \<and> (\<forall>h \<in> set (getSummariesByIds (vectorSummaryIds req vb)
                                 (hydrate_options req) s).
                       sum_created_at_epoch su \<le> sum_created_at_epoch h)"
      by (intro ballI impI, elim conjE, rule getSummariesByIds_newest)
    show "\<forall>up \<in> set (user_prompts s). \<forall>ses \<in> set (sdk_sessions s).
             ses_content_session_id ses = up_content_session_id up
             \<and> up_id up \<in> set (vectorPromptIds req vb) \<and> up_deleted_at_epoch up = None
             \<and> project_filter (sq_project req) (ses_project ses)
             \<and> date_filter (sq_dateStartEpoch req) (sq_dateEndEpoch req) (up_created_at_epoch up)
             \<and> up \<notin> set (getPromptsByIds (vectorPromptIds req vb) (hydrate_options req) s)
             \<longrightarrow> length (getPromptsByIds (vectorPromptIds req vb) (hydrate_options req) s)
                   = nat (page_limit req)
                 \<and> (\<forall>h \<in> set (getPromptsByIds (vectorPromptIds req vb)
                                 (hydrate_options req) s).
                       up_created_at_epoch up \<le> up_created_at_epoch h)"
      by (intro ballI impI, elim conjE, rule getPromptsByIds_newest)
  qed
  show ?thesis
    by (intro conjI results sound newest getObservationsByIds_sorted [OF o]
          getSummariesByIds_sorted [OF o] getPromptsByIds_sorted [OF o]
          getObservationsByIds_length getSummariesByIds_length getPromptsByIds_length)
qed

lemmas search_eval =
  api_search_def search_def lexical_args_def hydrate_options_def page_limit_def page_offset_def
  request_query_def vectorObservationIds_def vectorSummaryIds_def vectorPromptIds_def
  getObservationsByIds_def getSummariesByIds_def getPromptsByIds_def limit_clause_def
  sql_limit_def sql_offset_def order_by_epoch_def page_def project_filter_def date_filter_def
  type_filter_def prompt_join_def mergeRowsWithPriority_def like_column_def js_trim_def
  js_whitespace_def demo_library_def demo_ready_def demo_observation_row_def demo_request_def
  demo_vectors_def demo_session_def empty_store_def

lemmas hybrid_eval = search_eval like_contains_def demo_two_projects_def demo_project_request_def
  demo_project_vectors_def

text \<open>The vector source ranks observation 1 first; the lexical page is 3, 2, 1 (all three
  titles contain the query); the merged result starts with observation 2, the newer
  one of the two vector hits.\<close>

theorem hybrid_merge_counterexample:
  "vectorObservationIds demo_request demo_vectors = [1, 2]
   \<and> map obs_id (sr_observations (search like_contains (lexical_args demo_request) (demo_library None)))
       = [3, 2, 1]
   \<and> map obs_id (so_observations
        (fst (api_search like_contains 5000 demo_vectors demo_request (demo_library None))))
       = [2, 1, 3]"
  by (simp add: hybrid_eval Let_def)

theorem api_search_merge_order_witness:
  "request_query demo_project_request = Some ''note''
   \<and> vectorObservationIds demo_project_request demo_project_vectors = [1, 4, 2]
   \<and> map obs_id (getObservationsByIds (vectorObservationIds demo_project_request demo_project_vectors)
                (hydrate_options demo_project_request) demo_two_projects) = [2, 1]
   \<and> map obs_id (sr_observations
                (search like_contains (lexical_args demo_project_request) demo_two_projects))
       = [3, 2, 1]
   \<and> so_observations
        (fst (api_search like_contains 5000 demo_project_vectors demo_project_request
                demo_two_projects))
      = take (nat (page_limit demo_project_request))
          (first_seen (\<lambda>r. Some (obs_id r)) {}
             (getObservationsByIds (vectorObservationIds demo_project_request demo_project_vectors)
                (hydrate_options demo_project_request) demo_two_projects
              @ sr_observations
                  (search like_contains (lexical_args demo_project_request) demo_two_projects)))
   \<and> map obs_id (so_observations
        (fst (api_search like_contains 5000 demo_project_vectors demo_project_request
                demo_two_projects))) = [2, 1, 3]"
proof -
  have q: "request_query demo_project_request = Some ''note''"
    by (simp add: request_query_def demo_project_request_def demo_request_def)
  have v: "vectorObservationIds demo_project_request demo_project_vectors = [1, 4, 2]"
    by (simp add: vectorObservationIds_def demo_project_request_def demo_request_def
          demo_project_vectors_def)
  have h: "map obs_id (getObservationsByIds (vectorObservationIds demo_project_request demo_project_vectors)
                (hydrate_options demo_project_request) demo_two_projects) = [2, 1]"
    by (simp add: hybrid_eval)
  have l: "map obs_id (sr_observations
                (search like_contains (lexical_args demo_project_request) demo_two_projects))
           = [3, 2, 1]"
    by (simp add: hybrid_eval Let_def)
  have r: "map obs_id (so_observations
        (fst (api_search like_contains 5000 demo_project_vectors demo_project_request
                demo_two_projects))) = [2, 1, 3]"
    by (simp add: hybrid_eval Let_def)
  from api_search_merge_order [OF q, of like_contains 5000 demo_project_vectors demo_two_projects] v
  have "so_observations
        (fst (api_search like_contains 5000 demo_project_vectors demo_project_request
                demo_two_projects))
      = take (nat (page_limit demo_project_request))
          (first_seen (\<lambda>r. Some (obs_id r)) {}
             (getObservationsByIds (vectorObservationIds demo_project_request demo_project_vectors)
                (hydrate_options demo_project_request) demo_two_projects
              @ sr_observations
                  (search like_contains (lexical_args demo_project_request) demo_two_projects)))"
    by simp
  with q v h l r show ?thesis by blast
qed

subsection \<open>Soft-deleted rows on the read paths\<close>

lemma set_sql_offset: "set (sql_offset n rows) \<subseteq> set rows"
  by (simp add: sql_offset_def set_drop_subset)

lemma in_page: "x \<in> set (page ob lmt off key rows) \<Longrightarrow> x \<in> set rows"
proof -
  assume "x \<in> set (page ob lmt off key rows)"
  then have "x \<in> set (sql_offset off (order_by_epoch ob key rows))"
    unfolding page_def by (rule subsetD [OF set_sql_limit])
  then have "x \<in> set (order_by_epoch ob key rows)" by (rule subsetD [OF set_sql_offset])
  then show ?thesis by (simp only: set_order_by_epoch)
qed

lemma search_observations_live:
  "ob \<in> set (sr_observations (search like args s)) \<Longrightarrow> obs_deleted_at_epoch ob = None"
  by (auto simp: search_def Let_def split: if_splits dest!: in_page)

lemma search_sessions_live:
  "su \<in> set (sr_sessions (search like args s)) \<Longrightarrow> sum_deleted_at_epoch su = None"
  by (auto simp: search_def Let_def split: if_splits dest!: in_page)

lemma listObservations_live:
  "ob \<in> set (fst (listObservations off lmt project s)) \<Longrightarrow> obs_deleted_at_epoch ob = None"
proof -
  assume "ob \<in> set (fst (listObservations off lmt project s))"
  then have "ob \<in> set (page None lmt off obs_created_at_epoch
                 (filter (\<lambda>ob. project_filter project (obs_project ob) \<and>
                               obs_deleted_at_epoch ob = None) (observations s)))"
    by (simp add: listObservations_def page_def Let_def)
  from in_page [OF this] show ?thesis by simp
qed

lemma listSummaries_live:
  "su \<in> set (fst (listSummaries off lmt project s)) \<Longrightarrow> sum_deleted_at_epoch su = None"
proof -
  assume "su \<in> set (fst (listSummaries off lmt project s))"
  then have "su \<in> set (page None lmt off sum_created_at_epoch
                 (filter (\<lambda>su. project_filter project (sum_project su) \<and>
                               sum_deleted_at_epoch su = None) (session_summaries s)))"
    by (simp add: listSummaries_def page_def Let_def)
  from in_page [OF this] show ?thesis by simp
qed

lemma getObservationById_live:
  "getObservationById i s = Some ob \<Longrightarrow> obs_deleted_at_epoch ob = None"
  using find_Some_list_ex [of "\<lambda>ob. obs_id ob = i \<and> obs_deleted_at_epoch ob = None" "observations s" ob]
  by (simp add: getObservationById_def)

text \<open>What holds of the other read paths: search, listing, by-id and by-ids fetch return
  only rows without a deletion stamp.\<close>

lemma read_paths_exclude_deleted:
  "(\<forall>ob \<in> set (sr_observations (search like args s)). obs_deleted_at_epoch ob = None)
   \<and> (\<forall>su \<in> set (sr_sessions (search like args s)). sum_deleted_at_epoch su = None)
   \<and> (\<forall>ob \<in> set (fst (listObservations off lmt project s)). obs_deleted_at_epoch ob = None)
   \<and> (\<forall>su \<in> set (fst (listSummaries off lmt project s)). sum_deleted_at_epoch su = None)
   \<and> (\<forall>ob. getObservationById i s = Some ob \<longrightarrow> obs_deleted_at_epoch ob = None)
   \<and> (\<forall>ob \<in> set (getObservationsByIds ids options s). obs_deleted_at_epoch ob = None)
   \<and> (\<forall>su \<in> set (getSummariesByIds ids options s). sum_deleted_at_epoch su = None)"
  by (intro conjI ballI allI impI)
     (simp_all add: search_observations_live search_sessions_live listObservations_live
        listSummaries_live getObservationById_live getObservationsByIds_live
        getSummariesByIds_live)

lemmas timeline_eval =
  api_timeline_def Let_def demo_timeline_request_def getObservationById_def touchMemoryAccess_def
  touchProjectActivity_def upsert_activity_def sql_limit_def order_by_epoch_def
  project_filter_def prompt_join_def demo_library_def demo_ready_def demo_observation_row_def
  demo_session_def empty_store_def

text \<open>
  Claim C6 on the code. Observation 3 carries a deletion stamp; the by-id fetch does not
  return it, the timeline around observation 2 does: the two inline queries of the route
  have no \<open>deleted_at_epoch IS NULL\<close> condition.
\<close>

theorem timeline_returns_deleted:
  "obs_deleted_at_epoch (demo_observation_row 3 300 (Some 4000)) = Some 4000
   \<and> demo_observation_row 3 300 (Some 4000) \<in> set (observations (demo_library (Some 4000)))
   \<and> getObservationById 3 (demo_library (Some 4000)) = None
   \<and> fst (api_timeline (\<lambda>pat v. False) 5000 demo_timeline_request (demo_library (Some 4000)))
       = Timeline [demo_observation_row 1 100 None, demo_observation_row 2 200 None,
                   demo_observation_row 3 300 (Some 4000)]"
  by (simp add: timeline_eval)

subsection \<open>Session init\<close>

lemma find_map_same:
  assumes "\<And>x. P (f x) = P x"
  shows "find P (map f xs) = map_option f (find P xs)"
  using assms by (induction xs) auto

lemma touchProjectActivity_tables:
  "sdk_sessions (touchProjectActivity ps t s) = sdk_sessions s"
  "user_prompts (touchProjectActivity ps t s) = user_prompts s"
  "observations (touchProjectActivity ps t s) = observations s"
  "session_summaries (touchProjectActivity ps t s) = session_summaries s"
  "pending_messages (touchProjectActivity ps t s) = pending_messages s"
  "seq_user_prompts (touchProjectActivity ps t s) = seq_user_prompts s"
  by (simp_all add: touchProjectActivity_def)

lemma createSDKSession_result:
  "\<exists>e. getSessionByContentSessionId c (snd (createSDKSession t c p u s)) = Some e
       \<and> ses_id e = fst (createSDKSession t c p u s)
       \<and> user_prompts (snd (createSDKSession t c p u s)) = user_prompts s
       \<and> length (sdk_sessions (snd (createSDKSession t c p u s)))
           = (case getSessionByContentSessionId c s of
                None \<Rightarrow> length (sdk_sessions s) + 1 | Some x \<Rightarrow> length (sdk_sessions s))"
proof (cases "getSessionByContentSessionId c s")
  case None
  then have "find (\<lambda>ses. ses_content_session_id ses = c) (sdk_sessions s) = None"
    by (simp add: getSessionByContentSessionId_def)
  with None show ?thesis
    by (simp add: createSDKSession_def getSessionByContentSessionId_def Let_def
          touchProjectActivity_tables find_app)
next
  case (Some e)
  let ?f = "\<lambda>ses. if ses_content_session_id ses = c \<and> ses_project ses = []
                   then ses\<lparr> ses_project := p \<rparr> else ses"
  have "find (\<lambda>ses. ses_content_session_id ses = c) (map ?f (sdk_sessions s))
        = map_option ?f (find (\<lambda>ses. ses_content_session_id ses = c) (sdk_sessions s))"
    by (rule find_map_same) simp
  with Some show ?thesis
    by (simp add: createSDKSession_def getSessionByContentSessionId_def)
qed

lemma createSDKSession_again:
  assumes "getSessionByContentSessionId c s = Some e"
  shows "fst (createSDKSession t c p u s) = ses_id e"
  using assms by (simp add: createSDKSession_def)

lemma saveUserPrompt_result:
  assumes "getSessionByContentSessionId c s = Some e"
  shows "\<exists>i s'. saveUserPrompt t c n txt s = Inr (i, s')
           \<and> user_prompts s' = user_prompts s @
                [\<lparr> up_id = seq_user_prompts s + 1, up_content_session_id = c,
                   up_prompt_number = n, up_prompt_text = txt, up_created_at_epoch = t,
                   up_last_accessed_at_epoch = Some t, up_deleted_at_epoch = None \<rparr>]
           \<and> sdk_sessions s' = sdk_sessions s"
  using assms by (simp add: saveUserPrompt_def Let_def touchProjectActivity_tables)

text \<open>What one accepted init call with a prompt that is not private does.\<close>

lemma sessions_init_visible:
  assumes c: "c \<noteq> []" and p: "p \<noteq> []"
    and v: "js_trim (stripMemoryTagsFromPrompt prompt) \<noteq> []"
  shows "\<exists>e w'. sessions_init t \<lparr> ir_contentSessionId = Some c, ir_project = Some p,
                                  ir_prompt = Some prompt \<rparr> w
               = (Ok \<lparr> ib_sessionDbId = fst (createSDKSession t c p prompt (w_store w)),
                       ib_promptNumber = getPromptNumberFromUserPrompts c (w_store w) + 1,
                       ib_skipped = False, ib_reason = None \<rparr>, w')
           \<and> getSessionByContentSessionId c (w_store w') = Some e
           \<and> ses_id e = fst (createSDKSession t c p prompt (w_store w))
           \<and> sdk_sessions (w_store w') = sdk_sessions (snd (createSDKSession t c p prompt (w_store w)))
           \<and> user_prompts (w_store w') = user_prompts (w_store w) @
                [\<lparr> up_id = seq_user_prompts (snd (createSDKSession t c p prompt (w_store w))) + 1,
                   up_content_session_id = c,
                   up_prompt_number = getPromptNumberFromUserPrompts c (w_store w) + 1,
                   up_prompt_text = stripMemoryTagsFromPrompt prompt, up_created_at_epoch = t,
                   up_last_accessed_at_epoch = Some t, up_deleted_at_epoch = None \<rparr>]"
proof -
  let ?cr = "createSDKSession t c p prompt (w_store w)"
  from createSDKSession_result [of c t p prompt "w_store w"]
  obtain e where e: "getSessionByContentSessionId c (snd ?cr) = Some e"
    and id: "ses_id e = fst ?cr" and up: "user_prompts (snd ?cr) = user_prompts (w_store w)"
    by blast
  have n: "getPromptNumberFromUserPrompts c (snd ?cr) = getPromptNumberFromUserPrompts c (w_store w)"
    by (simp add: getPromptNumberFromUserPrompts_def up)
  from saveUserPrompt_result [OF e, of t "getPromptNumberFromUserPrompts c (w_store w) + 1"
      "stripMemoryTagsFromPrompt prompt"]
  obtain i s' where sv: "saveUserPrompt t c (getPromptNumberFromUserPrompts c (w_store w) + 1)
                           (stripMemoryTagsFromPrompt prompt) (snd ?cr) = Inr (i, s')"
    and up': "user_prompts s' = user_prompts (snd ?cr) @
                [\<lparr> up_id = seq_user_prompts (snd ?cr) + 1, up_content_session_id = c,
                   up_prompt_number = getPromptNumberFromUserPrompts c (w_store w) + 1,
                   up_prompt_text = stripMemoryTagsFromPrompt prompt, up_created_at_epoch = t,
                   up_last_accessed_at_epoch = Some t, up_deleted_at_epoch = None \<rparr>]"
    and ss': "sdk_sessions s' = sdk_sessions (snd ?cr)"
    by blast
  have e': "getSessionByContentSessionId c s' = Some e"
    using e by (simp add: getSessionByContentSessionId_def ss')
  show ?thesis
    using c p v sv e' id ss' up' up
    by (simp add: sessions_init_def Let_def n)
qed

text \<open>
  Claim C7, as amended. Two init calls with the same content session id, project and a
  prompt that is visible after stripping return the same \<open>sessionDbId\<close>; the second call
  adds no session row (the first adds one exactly when the session did not exist); each
  call stores one prompt row, and the prompt number is the number of prompts the session
  had before the call plus one, so the second call returns the first call's number plus
  one.
\<close>

theorem sessions_init_twice:
  assumes c: "c \<noteq> []" and p: "p \<noteq> []"
    and v: "js_trim (stripMemoryTagsFromPrompt prompt) \<noteq> []"
  shows "\<exists>sid n w1 w2.
           sessions_init t1 \<lparr> ir_contentSessionId = Some c, ir_project = Some p,
                              ir_prompt = Some prompt \<rparr> w
             = (Ok \<lparr> ib_sessionDbId = sid, ib_promptNumber = n, ib_skipped = False,
                     ib_reason = None \<rparr>, w1)
         \<and> sessions_init t2 \<lparr> ir_contentSessionId = Some c, ir_project = Some p,
                                ir_prompt = Some prompt \<rparr> w1
             = (Ok \<lparr> ib_sessionDbId = sid, ib_promptNumber = n + 1, ib_skipped = False,
                     ib_reason = None \<rparr>, w2)
         \<and> n = getPromptNumberFromUserPrompts c (w_store w) + 1
         \<and> length (sdk_sessions (w_store w1))
             = (case getSessionByContentSessionId c (w_store w) of
                  None \<Rightarrow> length (sdk_sessions (w_store w)) + 1
                | Some x \<Rightarrow> length (sdk_sessions (w_store w)))
         \<and> length (sdk_sessions (w_store w2)) = length (sdk_sessions (w_store w1))
         \<and> length (user_prompts (w_store w1)) = length (user_prompts (w_store w)) + 1
         \<and> length (user_prompts (w_store w2)) = length (user_prompts (w_store w)) + 2"
proof -
  let ?req = "\<lparr> ir_contentSessionId = Some c, ir_project = Some p, ir_prompt = Some prompt \<rparr>"
  let ?n = "getPromptNumberFromUserPrompts c (w_store w) + 1"
  from sessions_init_visible [OF c p v, of t1 w]
  obtain e w1 where i1: "sessions_init t1 ?req w
               = (Ok \<lparr> ib_sessionDbId = fst (createSDKSession t1 c p prompt (w_store w)),
                       ib_promptNumber = ?n, ib_skipped = False, ib_reason = None \<rparr>, w1)"
    and e: "getSessionByContentSessionId c (w_store w1) = Some e"
    and id: "ses_id e = fst (createSDKSession t1 c p prompt (w_store w))"
    and ss1: "sdk_sessions (w_store w1) = sdk_sessions (snd (createSDKSession t1 c p prompt (w_store w)))"
    and up1: "user_prompts (w_store w1) = user_prompts (w_store w) @
                [\<lparr> up_id = seq_user_prompts (snd (createSDKSession t1 c p prompt (w_store w))) + 1,
                   up_content_session_id = c, up_prompt_number = ?n,
                   up_prompt_text = stripMemoryTagsFromPrompt prompt, up_created_at_epoch = t1,
                   up_last_accessed_at_epoch = Some t1, up_deleted_at_epoch = None \<rparr>]"
    by blast
  have n1: "getPromptNumberFromUserPrompts c (w_store w1) = ?n"
    by (simp add: getPromptNumberFromUserPrompts_def up1)
  from sessions_init_visible [OF c p v, of t2 w1]
  obtain e2 w2 where i2: "sessions_init t2 ?req w1
               = (Ok \<lparr> ib_sessionDbId = fst (createSDKSession t2 c p prompt (w_store w1)),
                       ib_promptNumber = getPromptNumberFromUserPrompts c (w_store w1) + 1,
                       ib_skipped = False, ib_reason = None \<rparr>, w2)"
    and ss2: "sdk_sessions (w_store w2) = sdk_sessions (snd (createSDKSession t2 c p prompt (w_store w1)))"
    and up2: "user_prompts (w_store w2) = user_prompts (w_store w1) @
                [\<lparr> up_id = seq_user_prompts (snd (createSDKSession t2 c p prompt (w_store w1))) + 1,
                   up_content_session_id = c,
                   up_prompt_number = getPromptNumberFromUserPrompts c (w_store w1) + 1,
                   up_prompt_text = stripMemoryTagsFromPrompt prompt, up_created_at_epoch = t2,
                   up_last_accessed_at_epoch = Some t2, up_deleted_at_epoch = None \<rparr>]"
    by blast
  have same: "fst (createSDKSession t2 c p prompt (w_store w1))
              = fst (createSDKSession t1 c p prompt (w_store w))"
    using createSDKSession_again [OF e, of t2 p prompt] id by simp
  from createSDKSession_result [of c t1 p prompt "w_store w"]
  have l1: "length (sdk_sessions (w_store w1))
             = (case getSessionByContentSessionId c (w_store w) of
                  None \<Rightarrow> length (sdk_sessions (w_store w)) + 1
                | Some x \<Rightarrow> length (sdk_sessions (w_store w)))"
    by (auto simp: ss1)
  from createSDKSession_result [of c t2 p prompt "w_store w1"] e
  have l2: "length (sdk_sessions (w_store w2)) = length (sdk_sessions (w_store w1))"
    by (auto simp: ss2)
  have u1: "length (user_prompts (w_store w1)) = length (user_prompts (w_store w)) + 1"
    by (simp add: up1)
  have u2: "length (user_prompts (w_store w2)) = length (user_prompts (w_store w)) + 2"
    by (simp add: up2 up1)
  from i2 have i2': "sessions_init t2 ?req w1
               = (Ok \<lparr> ib_sessionDbId = fst (createSDKSession t1 c p prompt (w_store w)),
                       ib_promptNumber = ?n + 1, ib_skipped = False, ib_reason = None \<rparr>, w2)"
    by (simp only: same n1)
  from i1 i2' l1 l2 u1 u2 show ?thesis by blast
qed

lemmas init_eval =
  sessions_init_def Let_def createSDKSession_def getSessionByContentSessionId_def
  saveUserPrompt_def getPromptNumberFromUserPrompts_def touchProjectActivity_def
  upsert_activity_def stripMemoryTagsFromPrompt_def stripTagsInternal_def js_trim_def
  js_whitespace_def demo_worker_def demo_init_def empty_store_def

text \<open>The scenario of the claim: on the second call the prompt number is 2 and a second
  prompt row is stored.\<close>

theorem init_twice_counterexample:
  "fst (sessions_init 1000 (demo_init ''hello'') demo_worker)
     = Ok \<lparr> ib_sessionDbId = 1, ib_promptNumber = 1, ib_skipped = False, ib_reason = None \<rparr>
   \<and> fst (sessions_init 2000 (demo_init ''hello'')
            (snd (sessions_init 1000 (demo_init ''hello'') demo_worker)))
     = Ok \<lparr> ib_sessionDbId = 1, ib_promptNumber = 2, ib_skipped = False, ib_reason = None \<rparr>
   \<and> map up_prompt_number
        (user_prompts (w_store (snd (sessions_init 2000 (demo_init ''hello'')
            (snd (sessions_init 1000 (demo_init ''hello'') demo_worker)))))) = [1, 2]
   \<and> length (sdk_sessions (w_store (snd (sessions_init 2000 (demo_init ''hello'')
            (snd (sessions_init 1000 (demo_init ''hello'') demo_worker)))))) = 1"
  by (simp add: init_eval)

theorem sessions_init_twice_witness:
  "''s1'' \<noteq> [] \<and> ''p'' \<noteq> [] \<and> js_trim (stripMemoryTagsFromPrompt ''hello'') \<noteq> []
   \<and> getPromptNumberFromUserPrompts ''s1'' (w_store demo_worker) = 0
   \<and> (\<exists>sid w1 w2.
           sessions_init 1000 (demo_init ''hello'') demo_worker
             = (Ok \<lparr> ib_sessionDbId = sid, ib_promptNumber = 1, ib_skipped = False,
                     ib_reason = None \<rparr>, w1)
         \<and> sessions_init 2000 (demo_init ''hello'') w1
             = (Ok \<lparr> ib_sessionDbId = sid, ib_promptNumber = 2, ib_skipped = False,
                     ib_reason = None \<rparr>, w2)
         \<and> length (sdk_sessions (w_store w2)) = length (sdk_sessions (w_store w1))
         \<and> length (user_prompts (w_store w2)) = length (user_prompts (w_store demo_worker)) + 2)"
proof -
  have c: "''s1'' \<noteq> []" and p: "''p'' \<noteq> []" by simp_all
  have v: "js_trim (stripMemoryTagsFromPrompt ''hello'') \<noteq> []"
    by (simp add: stripMemoryTagsFromPrompt_def stripTagsInternal_def js_trim_def js_whitespace_def)
  have z: "getPromptNumberFromUserPrompts ''s1'' (w_store demo_worker) = 0"
    by (simp add: getPromptNumberFromUserPrompts_def demo_worker_def empty_store_def)
  from sessions_init_twice [OF c p v, of 1000 demo_worker 2000]
  obtain sid n w1 w2 where
    "sessions_init 1000 (demo_init ''hello'') demo_worker
       = (Ok \<lparr> ib_sessionDbId = sid, ib_promptNumber = n, ib_skipped = False,
               ib_reason = None \<rparr>, w1)"
    "sessions_init 2000 (demo_init ''hello'') w1
       = (Ok \<lparr> ib_sessionDbId = sid, ib_promptNumber = n + 1, ib_skipped = False,
               ib_reason = None \<rparr>, w2)"
    "n = getPromptNumberFromUserPrompts ''s1'' (w_store demo_worker) + 1"
    "length (sdk_sessions (w_store w2)) = length (sdk_sessions (w_store w1))"
    "length (user_prompts (w_store w2)) = length (user_prompts (w_store demo_worker)) + 2"
    unfolding demo_init_def by blast
  with z have "\<exists>sid w1 w2.
           sessions_init 1000 (demo_init ''hello'') demo_worker
             = (Ok \<lparr> ib_sessionDbId = sid, ib_promptNumber = 1, ib_skipped = False,
                     ib_reason = None \<rparr>, w1)
         \<and> sessions_init 2000 (demo_init ''hello'') w1
             = (Ok \<lparr> ib_sessionDbId = sid, ib_promptNumber = 2, ib_skipped = False,
                     ib_reason = None \<rparr>, w2)
         \<and> length (sdk_sessions (w_store w2)) = length (sdk_sessions (w_store w1))
         \<and> length (user_prompts (w_store w2)) = length (user_prompts (w_store demo_worker)) + 2"
    by (intro exI [of _ sid] exI [of _ w1] exI [of _ w2]) simp
  with c p v z show ?thesis by blast
qed

subsection \<open>Private prompts\<close>

text \<open>What holds of an init call whose prompt is empty after stripping: the response is
  \<open>skipped\<close> with reason \<open>private\<close>, and no row is added to \<open>user_prompts\<close>.\<close>

lemma sessions_init_private:
  assumes "c \<noteq> []" and "p \<noteq> []" and "js_trim (stripMemoryTagsFromPrompt prompt) = []"
  shows "fst (sessions_init t \<lparr> ir_contentSessionId = Some c, ir_project = Some p,
                                 ir_prompt = Some prompt \<rparr> w)
           = Ok \<lparr> ib_sessionDbId = fst (createSDKSession t c p prompt (w_store w)),
                  ib_promptNumber = getPromptNumberFromUserPrompts c (w_store w) + 1,
                  ib_skipped = True, ib_reason = Some ''private'' \<rparr>
         \<and> user_prompts (w_store (snd (sessions_init t \<lparr> ir_contentSessionId = Some c,
                ir_project = Some p, ir_prompt = Some prompt \<rparr> w))) = user_prompts (w_store w)"
proof -
  from createSDKSession_result [of c t p prompt "w_store w"]
  have up: "user_prompts (snd (createSDKSession t c p prompt (w_store w))) = user_prompts (w_store w)"
    by blast
  then have "getPromptNumberFromUserPrompts c (snd (createSDKSession t c p prompt (w_store w)))
             = getPromptNumberFromUserPrompts c (w_store w)"
    by (simp add: getPromptNumberFromUserPrompts_def)
  with assms up show ?thesis by (simp add: sessions_init_def Let_def)
qed

text \<open>
  Claim C8 on the code. The first init call of a session with a prompt that is nothing but
  a private block answers \<open>skipped\<close> with reason \<open>private\<close> and stores no prompt row,
  but \<open>createSDKSession\<close> has run before the prompt was stripped and has written the
  prompt as it came, private text included, into \<open>sdk_sessions.user_prompt\<close>.
\<close>

theorem private_prompt_persisted:
  "js_trim (stripMemoryTagsFromPrompt ''<private>secret</private>'') = []
   \<and> fst (sessions_init 1000 (demo_init ''<private>secret</private>'') demo_worker)
       = Ok \<lparr> ib_sessionDbId = 1, ib_promptNumber = 1, ib_skipped = True,
              ib_reason = Some ''private'' \<rparr>
   \<and> user_prompts (w_store (snd (sessions_init 1000 (demo_init ''<private>secret</private>'')
                                   demo_worker))) = []
   \<and> map ses_user_prompt
        (sdk_sessions (w_store (snd (sessions_init 1000 (demo_init ''<private>secret</private>'')
                                       demo_worker))))
       = [Some ''<private>secret</private>'']"
  by (simp add: init_eval)

subsection \<open>Session complete\<close>

text \<open>What holds of the complete route: it never answers with an error for a non-empty
  id, it answers \<open>completed\<close> whenever the store has a session row for the id, whether
  or not the session is in the active set, and \<open>skipped\<close> only when there is no such row.\<close>

lemma sessions_complete_cases:
  assumes "c \<noteq> []"
  shows "sessions_complete (Some c) w =
           (case getSessionByContentSessionId c (w_store w) of
              None \<Rightarrow> (Ok (CompleteSkipped ''not_active''), w)
            | Some session \<Rightarrow>
                (Ok (CompleteCompleted (ses_id session)),
                 w\<lparr> activeSessions := activeSessions w - {ses_id session} \<rparr>))"
  using assms by (simp add: sessions_complete_def)

lemma sessions_complete_repeat:
  assumes "c \<noteq> []"
  shows "fst (sessions_complete (Some c) (snd (sessions_complete (Some c) w)))
           = fst (sessions_complete (Some c) w)"
  using assms by (simp add: sessions_complete_def split: option.splits)

text \<open>
  Claim C9 on the code. After an init, the first complete call removes the session from
  the active set and answers \<open>completed\<close>; the repeat call, with the session no longer
  active, answers \<open>completed\<close> again, not \<open>skipped\<close>: the route looks the session up in
  the store and never consults the active set.
\<close>

theorem complete_twice_completed:
  "activeSessions (snd (sessions_init 1000 (demo_init ''hello'') demo_worker)) = {1}
   \<and> fst (sessions_complete (Some ''s1'') (snd (sessions_init 1000 (demo_init ''hello'') demo_worker)))
       = Ok (CompleteCompleted 1)
   \<and> activeSessions (snd (sessions_complete (Some ''s1'')
                             (snd (sessions_init 1000 (demo_init ''hello'') demo_worker)))) = {}
   \<and> fst (sessions_complete (Some ''s1'')
            (snd (sessions_complete (Some ''s1'')
                    (snd (sessions_init 1000 (demo_init ''hello'') demo_worker)))))
       = Ok (CompleteCompleted 1)
   \<and> fst (sessions_complete (Some ''s1'')
            (snd (sessions_complete (Some ''s1'')
                    (snd (sessions_init 1000 (demo_init ''hello'') demo_worker)))))
       \<noteq> Ok (CompleteSkipped ''not_active'')"
  by (simp add: init_eval sessions_complete_def)

subsection \<open>Retention\<close>

lemma set_uniq: "set (uniq xs) = set xs"
  by (induction xs) auto

lemma distinct_uniq: "distinct (uniq xs)"
  by (induction xs) (auto simp: set_uniq)

lemma set_insert_project: "set (insert_project p qs) = insert p (set qs)"
  by (induction qs) auto

lemma distinct_insert_project: "distinct (insert_project p qs) \<longleftrightarrow> p \<notin> set qs \<and> distinct qs"
  by (induction qs) (auto simp: set_insert_project)

lemma set_sort_projects: "set (sort_projects ps) = set ps"
  by (induction ps) (simp_all add: sort_projects_def set_insert_project)

lemma distinct_sort_projects: "distinct (sort_projects ps) \<longleftrightarrow> distinct ps"
  by (induction ps)
     (simp_all add: sort_projects_def distinct_insert_project set_sort_projects [unfolded sort_projects_def])

lemma filter_map_fixed:
  assumes "\<And>x. p (g x) = p x" and "\<And>x. p x \<Longrightarrow> g x = x"
  shows "filter p (map g xs) = filter p xs"
  using assms by (induction xs) auto

lemma filter_map_commute:
  assumes "\<And>x. p (g x) = p x"
  shows "filter p (map g xs) = map g (filter p xs)"
  using assms by (induction xs) auto

lemma prompt_of_project_sessions:
  "sdk_sessions s' = sdk_sessions s \<Longrightarrow> prompt_of_project project s' = prompt_of_project project s"
  by (rule ext) (simp add: prompt_of_project_def)

lemma prompt_of_one_project:
  assumes d: "distinct (map ses_content_session_id (sdk_sessions s))"
    and p: "prompt_of_project P s up" and q: "prompt_of_project Q s up"
  shows "P = Q"
proof -
  from p obtain a where a: "a \<in> set (sdk_sessions s)" "ses_project a = P"
    "ses_content_session_id a = up_content_session_id up"
    by (auto simp: prompt_of_project_def list_ex_iff)
  from q obtain b where b: "b \<in> set (sdk_sessions s)" "ses_project b = Q"
    "ses_content_session_id b = up_content_session_id up"
    by (auto simp: prompt_of_project_def list_ex_iff)
  from d a(1,3) b(1,3) have "a = b" by (auto simp: distinct_map inj_on_def)
  with a(2) b(2) show ?thesis by simp
qed

lemma soft_delete_project_prompts:
  "user_prompts (soft_delete_project t Q s) =
     map (\<lambda>up. if up_deleted_at_epoch up = None \<and> prompt_of_project Q s up
                then up\<lparr> up_deleted_at_epoch := Some t \<rparr> else up) (user_prompts s)"
  by (simp add: soft_delete_project_def prompt_of_project_def)

lemma soft_delete_other_project:
  assumes d: "distinct (map ses_content_session_id (sdk_sessions s))" and ne: "Q \<noteq> P"
  shows "same_project_view P s (soft_delete_project t Q s)"
proof -
  have o: "filter (\<lambda>ob. obs_project ob = P) (observations (soft_delete_project t Q s))
           = filter (\<lambda>ob. obs_project ob = P) (observations s)"
    unfolding soft_delete_project_def using ne by (simp add: filter_map_fixed)
  have u: "filter (\<lambda>su. sum_project su = P) (session_summaries (soft_delete_project t Q s))
           = filter (\<lambda>su. sum_project su = P) (session_summaries s)"
    unfolding soft_delete_project_def using ne by (simp add: filter_map_fixed)
  have pr: "filter (prompt_of_project P s) (user_prompts (soft_delete_project t Q s))
           = filter (prompt_of_project P s) (user_prompts s)"
    unfolding soft_delete_project_prompts
  proof (rule filter_map_fixed)
    fix up
    show "prompt_of_project P s
            (if up_deleted_at_epoch up = None \<and> prompt_of_project Q s up
             then up\<lparr> up_deleted_at_epoch := Some t \<rparr> else up) = prompt_of_project P s up"
      by (simp add: prompt_of_project_def)
  next
    fix up assume "prompt_of_project P s up"
    with prompt_of_one_project [OF d this, of Q] ne
    show "(if up_deleted_at_epoch up = None \<and> prompt_of_project Q s up
           then up\<lparr> up_deleted_at_epoch := Some t \<rparr> else up) = up" by auto
  qed
  show ?thesis
    unfolding same_project_view_def using o u pr by (simp add: soft_delete_project_def)
qed

lemma same_project_view_refl: "same_project_view P s s"
  by (simp add: same_project_view_def)

lemma same_project_view_trans:
  assumes "same_project_view P s s1" and "same_project_view P s1 s2"
  shows "same_project_view P s s2"
proof -
  from assms(1) have "sdk_sessions s1 = sdk_sessions s" by (simp add: same_project_view_def)
  then have "prompt_of_project P s1 = prompt_of_project P s" by (rule prompt_of_project_sessions)
  with assms show ?thesis by (simp add: same_project_view_def)
qed

lemma concat_map_filter_empty:
  assumes "\<And>x. \<not> p x \<Longrightarrow> g x = []"
  shows "concat (map g xs) = concat (map g (filter p xs))"
  using assms by (induction xs) auto

lemma project_live_observations_alt:
  "project_live_observations P s =
     filter (\<lambda>ob. obs_deleted_at_epoch ob = None)
       (filter (\<lambda>ob. obs_project ob = P) (observations s))"
  by (simp add: project_live_observations_def)

lemma project_live_summaries_alt:
  "project_live_summaries P s =
     filter (\<lambda>su. sum_deleted_at_epoch su = None)
       (filter (\<lambda>su. sum_project su = P) (session_summaries s))"
  by (simp add: project_live_summaries_def)

lemma project_live_prompts_alt:
  "project_live_prompts P s =
     concat (map (\<lambda>up. map (Pair up)
                    (filter (\<lambda>ses. ses_content_session_id ses = up_content_session_id up \<and>
                                    ses_project ses = P \<and> up_deleted_at_epoch up = None)
                       (sdk_sessions s)))
               (filter (prompt_of_project P s) (user_prompts s)))"
proof -
  have "project_live_prompts P s =
     concat (map (\<lambda>up. map (Pair up)
                    (filter (\<lambda>ses. ses_content_session_id ses = up_content_session_id up \<and>
                                    ses_project ses = P \<and> up_deleted_at_epoch up = None)
                       (sdk_sessions s)))
               (user_prompts s))"
    by (simp add: project_live_prompts_def prompt_join_def filter_concat filter_map comp_def)
  also have "\<dots> = concat (map (\<lambda>up. map (Pair up)
                    (filter (\<lambda>ses. ses_content_session_id ses = up_content_session_id up \<and>
                                    ses_project ses = P \<and> up_deleted_at_epoch up = None)
                       (sdk_sessions s)))
               (filter (prompt_of_project P s) (user_prompts s)))"
    by (rule concat_map_filter_empty)
       (auto simp: prompt_of_project_def list_ex_iff filter_empty_conv)
  finally show ?thesis .
qed

lemma same_project_view_live:
  assumes "same_project_view P s s'"
  shows "project_live_observations P s' = project_live_observations P s"
    and "project_live_summaries P s' = project_live_summaries P s"
    and "project_live_prompts P s' = project_live_prompts P s"
proof -
  from assms have ses: "sdk_sessions s' = sdk_sessions s" by (simp add: same_project_view_def)
  then have pp: "prompt_of_project P s' = prompt_of_project P s"
    by (rule prompt_of_project_sessions)
  from assms show "project_live_observations P s' = project_live_observations P s"
    unfolding project_live_observations_alt by (simp only: same_project_view_def)
  from assms show "project_live_summaries P s' = project_live_summaries P s"
    unfolding project_live_summaries_alt by (simp only: same_project_view_def)
  from assms have "filter (prompt_of_project P s) (user_prompts s')
                   = filter (prompt_of_project P s) (user_prompts s)"
    by (simp only: same_project_view_def)
  then show "project_live_prompts P s' = project_live_prompts P s"
    unfolding project_live_prompts_alt by (simp only: ses pp)
qed

lemma same_project_view_policy:
  assumes "same_project_view P s s'"
  shows "getProjectRetentionPolicy P s' = getProjectRetentionPolicy P s"
  using assms by (simp add: same_project_view_def getProjectRetentionPolicy_def)

lemma same_project_view_last_access:
  assumes "same_project_view P s s'"
  shows "getProjectLastAccessEpoch P s' = getProjectLastAccessEpoch P s"
proof -
  from assms have "project_memory_activity s' = project_memory_activity s"
    by (simp add: same_project_view_def)
  then show ?thesis
    unfolding getProjectLastAccessEpoch_def by (simp only: same_project_view_live [OF assms])
qed

lemma retention_project_store:
  "snd (retention_project dryRun t ttl Q st) =
     (if \<not> dryRun \<and> \<not> ep_pinned (getProjectRetentionPolicy Q (snd st))
          \<and> ep_enabled (getProjectRetentionPolicy Q (snd st))
          \<and> expired t (effective_ttl_days ttl (getProjectRetentionPolicy Q (snd st)))
                (getProjectLastAccessEpoch Q (snd st))
      then soft_delete_project t Q (snd st) else snd st)"
  by (simp add: retention_project_def Let_def)

lemma retention_project_other:
  assumes "distinct (map ses_content_session_id (sdk_sessions (snd st)))" and "Q \<noteq> P"
  shows "same_project_view P (snd st) (snd (retention_project dryRun t ttl Q st))"
  unfolding retention_project_store
  using soft_delete_other_project [OF assms] by (simp add: same_project_view_refl)

lemma retention_project_pinned:
  assumes "ep_pinned (getProjectRetentionPolicy P (snd st))"
  shows "snd (retention_project dryRun t ttl P st) = snd st"
  unfolding retention_project_store using assms by simp

lemma retention_fold_other:
  assumes "distinct (map ses_content_session_id (sdk_sessions (snd st)))" and "P \<notin> set qs"
  shows "same_project_view P (snd st) (snd (fold (retention_project dryRun t ttl) qs st))"
  using assms
proof (induction qs arbitrary: st)
  case Nil
  show ?case by (simp add: same_project_view_refl)
next
  case (Cons q qs)
  let ?st1 = "retention_project dryRun t ttl q st"
  from Cons.prems have v: "same_project_view P (snd st) (snd ?st1)"
    by (intro retention_project_other) auto
  then have "sdk_sessions (snd ?st1) = sdk_sessions (snd st)" by (simp add: same_project_view_def)
  with Cons.prems have "distinct (map ses_content_session_id (sdk_sessions (snd ?st1)))" by simp
  moreover from Cons.prems have "P \<notin> set qs" by simp
  ultimately have "same_project_view P (snd ?st1) (snd (fold (retention_project dryRun t ttl) qs ?st1))"
    by (rule Cons.IH)
  with v show ?case by (simp add: same_project_view_trans)
qed

lemma retention_fold_pinned:
  assumes "distinct (map ses_content_session_id (sdk_sessions (snd st)))"
    and "ep_pinned (getProjectRetentionPolicy P (snd st))"
  shows "same_project_view P (snd st) (snd (fold (retention_project dryRun t ttl) qs st))"
  using assms
proof (induction qs arbitrary: st)
  case Nil
  show ?case by (simp add: same_project_view_refl)
next
  case (Cons q qs)
  let ?st1 = "retention_project dryRun t ttl q st"
  have v: "same_project_view P (snd st) (snd ?st1)"
  proof (cases "q = P")
    case True
    with Cons.prems(2) show ?thesis
      by (simp add: retention_project_pinned same_project_view_refl)
  next
    case False
    with Cons.prems(1) show ?thesis by (intro retention_project_other)
  qed
  then have "sdk_sessions (snd ?st1) = sdk_sessions (snd st)" by (simp add: same_project_view_def)
  with Cons.prems have "distinct (map ses_content_session_id (sdk_sessions (snd ?st1)))" by simp
  moreover from v Cons.prems(2) have "ep_pinned (getProjectRetentionPolicy P (snd ?st1))"
    by (simp add: same_project_view_policy)
  ultimately have "same_project_view P (snd ?st1) (snd (fold (retention_project dryRun t ttl) qs ?st1))"
    by (rule Cons.IH)
  with v show ?case by (simp add: same_project_view_trans)
qed

lemma filter_map_on:
  assumes "\<And>x. p (g x) = p x" and "\<And>x. p x \<Longrightarrow> g x = h x"
  shows "filter p (map g xs) = map h (filter p xs)"
  using assms by (induction xs) auto

lemma soft_delete_project_observations:
  "filter (\<lambda>ob. obs_project ob = P) (observations (soft_delete_project t P s))
     = map (\<lambda>ob. if obs_deleted_at_epoch ob = None then ob\<lparr> obs_deleted_at_epoch := Some t \<rparr> else ob)
         (filter (\<lambda>ob. obs_project ob = P) (observations s))"
proof -
  have "observations (soft_delete_project t P s) =
          map (\<lambda>ob. if obs_project ob = P \<and> obs_deleted_at_epoch ob = None
                     then ob\<lparr> obs_deleted_at_epoch := Some t \<rparr> else ob) (observations s)"
    by (simp add: soft_delete_project_def)
  then show ?thesis by (simp only:) (rule filter_map_on, simp_all)
qed

lemma soft_delete_project_summaries:
  "filter (\<lambda>su. sum_project su = P) (session_summaries (soft_delete_project t P s))
     = map (\<lambda>su. if sum_deleted_at_epoch su = None then su\<lparr> sum_deleted_at_epoch := Some t \<rparr> else su)
         (filter (\<lambda>su. sum_project su = P) (session_summaries s))"
proof -
  have "session_summaries (soft_delete_project t P s) =
          map (\<lambda>su. if sum_project su = P \<and> sum_deleted_at_epoch su = None
                     then su\<lparr> sum_deleted_at_epoch := Some t \<rparr> else su) (session_summaries s)"
    by (simp add: soft_delete_project_def)
  then show ?thesis by (simp only:) (rule filter_map_on, simp_all)
qed

lemma soft_delete_project_own_prompts:
  "filter (prompt_of_project P s) (user_prompts (soft_delete_project t P s))
     = map (\<lambda>up. if up_deleted_at_epoch up = None then up\<lparr> up_deleted_at_epoch := Some t \<rparr> else up)
         (filter (prompt_of_project P s) (user_prompts s))"
  unfolding soft_delete_project_prompts
  by (rule filter_map_on) (simp_all add: prompt_of_project_def)

lemma soft_delete_project_tables:
  "sdk_sessions (soft_delete_project t P s) = sdk_sessions s"
  "project_memory_activity (soft_delete_project t P s) = project_memory_activity s"
  "project_retention_policies (soft_delete_project t P s) = project_retention_policies s"
  by (simp_all add: soft_delete_project_def)

text \<open>The rows of a project after the loop over the projects, when the project is in the
  list, unpinned, enabled and expired, and the call is not a dry run.\<close>

lemma retention_fold_expired:
  fixes r :: retention_report
  assumes d: "distinct (map ses_content_session_id (sdk_sessions s))"
    and qs: "distinct qs" "P \<in> set qs"
    and pol: "\<not> ep_pinned (getProjectRetentionPolicy P s)" "ep_enabled (getProjectRetentionPolicy P s)"
    and ex: "expired t (effective_ttl_days ttl (getProjectRetentionPolicy P s))
               (getProjectLastAccessEpoch P s)"
  defines "s' \<equiv> snd (fold (retention_project False t ttl) qs (r, s))"
  shows "filter (\<lambda>ob. obs_project ob = P) (observations s')
     = map (\<lambda>ob. if obs_deleted_at_epoch ob = None then ob\<lparr> obs_deleted_at_epoch := Some t \<rparr> else ob)
         (filter (\<lambda>ob. obs_project ob = P) (observations s))"
    and "filter (\<lambda>su. sum_project su = P) (session_summaries s')
     = map (\<lambda>su. if sum_deleted_at_epoch su = None then su\<lparr> sum_deleted_at_epoch := Some t \<rparr> else su)
         (filter (\<lambda>su. sum_project su = P) (session_summaries s))"
    and "filter (prompt_of_project P s) (user_prompts s')
     = map (\<lambda>up. if up_deleted_at_epoch up = None then up\<lparr> up_deleted_at_epoch := Some t \<rparr> else up)
         (filter (prompt_of_project P s) (user_prompts s))"
    and "sdk_sessions s' = sdk_sessions s"
proof -
  from qs(2) obtain pre post where split: "qs = pre @ P # post" by (auto dest: split_list)
  with qs(1) have notin: "P \<notin> set pre" "P \<notin> set post" by auto
  define st1 where "st1 = fold (retention_project False t ttl) pre (r, s)"
  define st2 where "st2 = retention_project False t ttl P st1"
  have s': "s' = snd (fold (retention_project False t ttl) post st2)"
    by (simp add: s'_def split st1_def st2_def)
  have v1: "same_project_view P s (snd st1)"
    unfolding st1_def using retention_fold_other [of "(r, s)" P pre False t ttl] d notin(1) by simp
  then have ses1: "sdk_sessions (snd st1) = sdk_sessions s" by (simp add: same_project_view_def)
  have pp1: "prompt_of_project P (snd st1) = prompt_of_project P s"
    using ses1 by (rule prompt_of_project_sessions)
  have s2: "snd st2 = soft_delete_project t P (snd st1)"
    unfolding st2_def retention_project_store
    using pol ex by (simp add: same_project_view_policy [OF v1] same_project_view_last_access [OF v1])
  then have ses2: "sdk_sessions (snd st2) = sdk_sessions s"
    by (simp add: soft_delete_project_tables ses1)
  have pp2: "prompt_of_project P (snd st2) = prompt_of_project P s"
    using ses2 by (rule prompt_of_project_sessions)
  have v2: "same_project_view P (snd st2) s'"
    unfolding s' using d notin(2) ses2 by (intro retention_fold_other) simp_all
  from v2 have "filter (\<lambda>ob. obs_project ob = P) (observations s')
                = filter (\<lambda>ob. obs_project ob = P) (observations (snd st2))"
    by (simp only: same_project_view_def)
  also have "\<dots> = map (\<lambda>ob. if obs_deleted_at_epoch ob = None
                               then ob\<lparr> obs_deleted_at_epoch := Some t \<rparr> else ob)
                     (filter (\<lambda>ob. obs_project ob = P) (observations (snd st1)))"
    by (simp only: s2 soft_delete_project_observations)
  also from v1 have "filter (\<lambda>ob. obs_project ob = P) (observations (snd st1))
                     = filter (\<lambda>ob. obs_project ob = P) (observations s)"
    by (simp only: same_project_view_def)
  finally show "filter (\<lambda>ob. obs_project ob = P) (observations s')
     = map (\<lambda>ob. if obs_deleted_at_epoch ob = None then ob\<lparr> obs_deleted_at_epoch := Some t \<rparr> else ob)
         (filter (\<lambda>ob. obs_project ob = P) (observations s))" .
  from v2 have "filter (\<lambda>su. sum_project su = P) (session_summaries s')
                = filter (\<lambda>su. sum_project su = P) (session_summaries (snd st2))"
    by (simp only: same_project_view_def)
  also have "\<dots> = map (\<lambda>su. if sum_deleted_at_epoch su = None
                               then su\<lparr> sum_deleted_at_epoch := Some t \<rparr> else su)
                     (filter (\<lambda>su. sum_project su = P) (session_summaries (snd st1)))"
    by (simp only: s2 soft_delete_project_summaries)
  also from v1 have "filter (\<lambda>su. sum_project su = P) (session_summaries (snd st1))
                     = filter (\<lambda>su. sum_project su = P) (session_summaries s)"
    by (simp only: same_project_view_def)
  finally show "filter (\<lambda>su. sum_project su = P) (session_summaries s')
     = map (\<lambda>su. if sum_deleted_at_epoch su = None then su\<lparr> sum_deleted_at_epoch := Some t \<rparr> else su)
         (filter (\<lambda>su. sum_project su = P) (session_summaries s))" .
  from v2 have "filter (prompt_of_project P (snd st2)) (user_prompts s')
                = filter (prompt_of_project P (snd st2)) (user_prompts (snd st2))"
    by (simp only: same_project_view_def)
  then have "filter (prompt_of_project P s) (user_prompts s')
             = filter (prompt_of_project P s) (user_prompts (snd st2))"
    by (simp only: pp2)
  then have "filter (prompt_of_project P s) (user_prompts s')
             = filter (prompt_of_project P (snd st1)) (user_prompts (soft_delete_project t P (snd st1)))"
    by (simp only: pp1 s2)
  also have "\<dots> = map (\<lambda>up. if up_deleted_at_epoch up = None
                               then up\<lparr> up_deleted_at_epoch := Some t \<rparr> else up)
                     (filter (prompt_of_project P (snd st1)) (user_prompts (snd st1)))"
    by (rule soft_delete_project_own_prompts)
  also from v1 have "filter (prompt_of_project P (snd st1)) (user_prompts (snd st1))
                     = filter (prompt_of_project P s) (user_prompts s)"
    by (simp only: pp1 same_project_view_def)
  finally show "filter (prompt_of_project P s) (user_prompts s')
     = map (\<lambda>up. if up_deleted_at_epoch up = None then up\<lparr> up_deleted_at_epoch := Some t \<rparr> else up)
         (filter (prompt_of_project P s) (user_prompts s))" .
  from v2 ses2 show "sdk_sessions s' = sdk_sessions s" by (simp add: same_project_view_def)
qed

lemma listRetentionProjects_iff:
  "P \<in> set (listRetentionProjects s) \<longleftrightarrow>
     P \<noteq> [] \<and> (P \<in> ses_project ` set (sdk_sessions s) \<or> P \<in> obs_project ` set (observations s)
                \<or> P \<in> sum_project ` set (session_summaries s)
                \<or> P \<in> pa_project ` set (project_memory_activity s)
                \<or> P \<in> rp_project ` set (project_retention_policies s))"
  by (auto simp: listRetentionProjects_def set_sort_projects set_uniq)

lemma unlisted_project_rows:
  assumes "P \<notin> set (listRetentionProjects s)" and "P \<noteq> []"
  shows "filter (\<lambda>ob. obs_project ob = P) (observations s) = []"
    and "filter (\<lambda>su. sum_project su = P) (session_summaries s) = []"
    and "filter (prompt_of_project P s) (user_prompts s) = []"
  using assms
  by (auto simp: listRetentionProjects_iff filter_empty_conv prompt_of_project_def list_ex_iff)

lemma pinned_project_listed:
  assumes "ep_pinned (getProjectRetentionPolicy P s)" and "P \<noteq> []"
  shows "P \<in> set (listRetentionProjects s)"
proof (cases "find (\<lambda>r. rp_project r = P) (project_retention_policies s)")
  case None
  with assms(1) show ?thesis by (simp add: getProjectRetentionPolicy_def)
next
  case (Some r)
  then have "r \<in> set (project_retention_policies s)" "rp_project r = P"
    by (auto simp: find_Some_iff)
  with assms(2) show ?thesis by (auto simp: listRetentionProjects_iff)
qed

text \<open>The rows of an unpinned, enabled, expired project after the loop of an execute call.\<close>

lemma retention_loop_expired:
  fixes r :: retention_report
  assumes d: "distinct (map ses_content_session_id (sdk_sessions s))" and ne: "P \<noteq> []"
    and pol: "\<not> ep_pinned (getProjectRetentionPolicy P s)" "ep_enabled (getProjectRetentionPolicy P s)"
    and ex: "expired t (effective_ttl_days ttl (getProjectRetentionPolicy P s))
               (getProjectLastAccessEpoch P s)"
  defines "s' \<equiv> snd (fold (retention_project False t ttl) (listRetentionProjects s) (r, s))"
  shows "filter (\<lambda>ob. obs_project ob = P) (observations s')
     = map (\<lambda>ob. if obs_deleted_at_epoch ob = None then ob\<lparr> obs_deleted_at_epoch := Some t \<rparr> else ob)
         (filter (\<lambda>ob. obs_project ob = P) (observations s))"
    and "filter (\<lambda>su. sum_project su = P) (session_summaries s')
     = map (\<lambda>su. if sum_deleted_at_epoch su = None then su\<lparr> sum_deleted_at_epoch := Some t \<rparr> else su)
         (filter (\<lambda>su. sum_project su = P) (session_summaries s))"
    and "filter (prompt_of_project P s) (user_prompts s')
     = map (\<lambda>up. if up_deleted_at_epoch up = None then up\<lparr> up_deleted_at_epoch := Some t \<rparr> else up)
         (filter (prompt_of_project P s) (user_prompts s))"
    and "sdk_sessions s' = sdk_sessions s"
proof -
  have dl: "distinct (listRetentionProjects s)"
    by (simp add: listRetentionProjects_def distinct_sort_projects distinct_uniq)
  have "(filter (\<lambda>ob. obs_project ob = P) (observations s')
     = map (\<lambda>ob. if obs_deleted_at_epoch ob = None then ob\<lparr> obs_deleted_at_epoch := Some t \<rparr> else ob)
         (filter (\<lambda>ob. obs_project ob = P) (observations s)))
    \<and> (filter (\<lambda>su. sum_project su = P) (session_summaries s')
     = map (\<lambda>su. if sum_deleted_at_epoch su = None then su\<lparr> sum_deleted_at_epoch := Some t \<rparr> else su)
         (filter (\<lambda>su. sum_project su = P) (session_summaries s)))
    \<and> (filter (prompt_of_project P s) (user_prompts s')
     = map (\<lambda>up. if up_deleted_at_epoch up = None then up\<lparr> up_deleted_at_epoch := Some t \<rparr> else up)
         (filter (prompt_of_project P s) (user_prompts s)))
    \<and> sdk_sessions s' = sdk_sessions s"
  proof (cases "P \<in> set (listRetentionProjects s)")
    case True
    show ?thesis
      unfolding s'_def using retention_fold_expired [OF d dl True pol ex, of r] by blast
  next
    case False
    have v: "same_project_view P s s'"
      unfolding s'_def
      using retention_fold_other [of "(r, s)" P "listRetentionProjects s" False t ttl] d False
      by simp
    then show ?thesis
      by (simp add: same_project_view_def unlisted_project_rows [OF False ne])
  qed
  then show "filter (\<lambda>ob. obs_project ob = P) (observations s')
     = map (\<lambda>ob. if obs_deleted_at_epoch ob = None then ob\<lparr> obs_deleted_at_epoch := Some t \<rparr> else ob)
         (filter (\<lambda>ob. obs_project ob = P) (observations s))"
    and "filter (\<lambda>su. sum_project su = P) (session_summaries s')
     = map (\<lambda>su. if sum_deleted_at_epoch su = None then su\<lparr> sum_deleted_at_epoch := Some t \<rparr> else su)
         (filter (\<lambda>su. sum_project su = P) (session_summaries s))"
    and "filter (prompt_of_project P s) (user_prompts s')
     = map (\<lambda>up. if up_deleted_at_epoch up = None then up\<lparr> up_deleted_at_epoch := Some t \<rparr> else up)
         (filter (prompt_of_project P s) (user_prompts s))"
    and "sdk_sessions s' = sdk_sessions s"
    by simp_all
qed

subsection \<open>The report lines and the hard delete\<close>

lemma retention_project_details:
  "\<exists>d. rr_details (fst (retention_project dryRun t ttl Q st)) = rr_details (fst st) @ [d]
       \<and> rd_project d = Q
       \<and> (ep_pinned (getProjectRetentionPolicy Q (snd st))
            \<longrightarrow> rd_skippedReason d = Some SkippedPinned)"
  by (simp add: retention_project_def Let_def)

lemma retention_fold_details_mono:
  "set (rr_details (fst st)) \<subseteq> set (rr_details (fst (fold (retention_project dryRun t ttl) qs st)))"
proof (induction qs arbitrary: st)
  case Nil
  show ?case by simp
next
  case (Cons q qs)
  from retention_project_details [of dryRun t ttl q st]
  have "set (rr_details (fst st)) \<subseteq> set (rr_details (fst (retention_project dryRun t ttl q st)))"
    by auto
  with Cons.IH [of "retention_project dryRun t ttl q st"] show ?case by auto
qed

lemma retention_fold_pinned_detail:
  assumes "distinct (map ses_content_session_id (sdk_sessions (snd st)))"
    and "ep_pinned (getProjectRetentionPolicy P (snd st))" and "P \<in> set qs"
  shows "\<exists>d \<in> set (rr_details (fst (fold (retention_project dryRun t ttl) qs st))).
           rd_project d = P \<and> rd_skippedReason d = Some SkippedPinned"
  using assms
proof (induction qs arbitrary: st)
  case Nil
  then show ?case by simp
next
  case (Cons q qs)
  let ?st1 = "retention_project dryRun t ttl q st"
  show ?case
  proof (cases "q = P")
    case True
    from retention_project_details [of dryRun t ttl P st]
    obtain d where e: "rr_details (fst (retention_project dryRun t ttl P st)) = rr_details (fst st) @ [d]"
      and dp: "rd_project d = P"
      and dr: "ep_pinned (getProjectRetentionPolicy P (snd st)) \<longrightarrow> rd_skippedReason d = Some SkippedPinned"
      by blast
    from e have "d \<in> set (rr_details (fst (retention_project dryRun t ttl P st)))" by simp
    with retention_fold_details_mono [of "retention_project dryRun t ttl P st" dryRun t ttl qs]
    have "d \<in> set (rr_details (fst (fold (retention_project dryRun t ttl) qs
                                         (retention_project dryRun t ttl P st))))" by (rule subsetD)
    moreover from dr Cons.prems(2) have "rd_skippedReason d = Some SkippedPinned" by simp
    ultimately show ?thesis using dp True by (simp only: fold.simps comp_def) blast
  next
    case False
    with Cons.prems(1) have v: "same_project_view P (snd st) (snd ?st1)"
      by (intro retention_project_other)
    then have "sdk_sessions (snd ?st1) = sdk_sessions (snd st)" by (simp add: same_project_view_def)
    with Cons.prems have "distinct (map ses_content_session_id (sdk_sessions (snd ?st1)))" by simp
    moreover from v Cons.prems(2) have "ep_pinned (getProjectRetentionPolicy P (snd ?st1))"
      by (simp add: same_project_view_policy)
    moreover from False Cons.prems(3) have "P \<in> set qs" by simp
    ultimately have "\<exists>d \<in> set (rr_details (fst (fold (retention_project dryRun t ttl) qs ?st1))).
           rd_project d = P \<and> rd_skippedReason d = Some SkippedPinned"
      by (rule Cons.IH)
    then show ?thesis by simp
  qed
qed

lemma filter_swap: "filter p (filter q xs) = filter q (filter p xs)"
  by (induction xs) auto

lemma hard_delete_rows:
  "filter (\<lambda>ob. obs_project ob = P) (observations (hard_delete c s))
     = filter (\<lambda>ob. \<not> past_cutoff c (obs_deleted_at_epoch ob))
         (filter (\<lambda>ob. obs_project ob = P) (observations s))"
  "filter (\<lambda>su. sum_project su = P) (session_summaries (hard_delete c s))
     = filter (\<lambda>su. \<not> past_cutoff c (sum_deleted_at_epoch su))
         (filter (\<lambda>su. sum_project su = P) (session_summaries s))"
  "filter p (user_prompts (hard_delete c s))
     = filter (\<lambda>up. \<not> past_cutoff c (up_deleted_at_epoch up)) (filter p (user_prompts s))"
  "sdk_sessions (hard_delete c s) = sdk_sessions s"
  by (simp_all add: hard_delete_def conj_commute)

lemma cutoff_before_now: "hard_delete_cutoff clock options < cleanup_now clock options"
  by (simp add: hard_delete_cutoff_def cleanup_soft_delete_days_def DAY_MS_def max_def)

lemma runRetentionCleanup_execute:
  assumes "\<not> rc_dryRun options"
  shows "\<exists>r0. snd (runRetentionCleanup clock options s) =
           hard_delete (hard_delete_cutoff clock options)
             (snd (fold (retention_project False (cleanup_now clock options)
                           (cleanup_default_ttl options)) (listRetentionProjects s) (r0, s)))
         \<and> rr_details (fst (runRetentionCleanup clock options s)) =
             rr_details (fst (fold (retention_project False (cleanup_now clock options)
                           (cleanup_default_ttl options)) (listRetentionProjects s) (r0, s)))"
  using assms by (simp add: runRetentionCleanup_def Let_def) (rule exI, rule conjI, rule refl, rule refl)

lemma stamped_kept:
  assumes "x \<in> set xs" and "p x" and "d x = None"
    and "filter p ys = filter (\<lambda>y. \<not> past_cutoff c (d y))
                         (map (\<lambda>x. if d x = None then g x else x) (filter p xs))"
    and "\<not> past_cutoff c (d (g x))"
  shows "g x \<in> set ys"
proof -
  from assms(1,2) have "x \<in> set (filter p xs)" by simp
  then have "(if d x = None then g x else x)
               \<in> set (map (\<lambda>x. if d x = None then g x else x) (filter p xs))"
    unfolding set_map by (rule imageI)
  with assms(3,5) have "g x \<in> set (filter (\<lambda>y. \<not> past_cutoff c (d y))
                         (map (\<lambda>x. if d x = None then g x else x) (filter p xs)))" by simp
  then have "g x \<in> set (filter p ys)" by (simp only: assms(4))
  then show ?thesis by simp
qed

lemma stamped_none_live:
  assumes "filter p ys = filter (\<lambda>y. \<not> past_cutoff c (d y))
                         (map (\<lambda>x. if d x = None then g x else x) (filter p xs))"
    and "\<And>x. d (g x) \<noteq> None"
  shows "filter (\<lambda>x. d x = None) (filter p ys) = []"
  unfolding assms(1) using assms(2) by (auto simp: filter_empty_conv)

lemma project_live_prompts_none:
  assumes "filter (\<lambda>up. up_deleted_at_epoch up = None)
             (filter (prompt_of_project P s) (user_prompts s)) = []"
  shows "project_live_prompts P s = []"
  unfolding project_live_prompts_alt using assms by (auto simp: filter_empty_conv)

text \<open>Claim C5, as amended. In an execute call (not a dry run) of the retention sweep, on a
  store whose sessions have distinct content session ids (the UNIQUE constraint of the
  table): a project that is not pinned, whose policy is enabled and that is expired (it has
  no access time, or \<open>now - lastAccessEpoch \<ge> ttlDays * DAY_MS\<close>) has every observation,
  summary and prompt that was not deleted stamped with \<open>deletedAt = now\<close>, and the stamped
  row is in the store after the call, so that the project has no live row left. A pinned
  project is skipped with the reason recorded in the report, and no \<open>deletedAt\<close> of its
  rows is changed: its rows after the call are its rows before the call, in the same order,
  less the rows that were already deleted at or before the hard-delete cutoff, which the
  global hard delete at the end of the sweep removes whatever the policy of their project.\<close>

theorem runRetentionCleanup_expired_and_pinned:
  assumes d: "distinct (map ses_content_session_id (sdk_sessions s))"
    and x: "\<not> rc_dryRun options" and ne: "P \<noteq> []"
  shows "(\<not> ep_pinned (getProjectRetentionPolicy P s) \<and> ep_enabled (getProjectRetentionPolicy P s)
          \<and> expired (cleanup_now clock options)
                (effective_ttl_days (cleanup_default_ttl options) (getProjectRetentionPolicy P s))
                (getProjectLastAccessEpoch P s)
          \<longrightarrow> (\<forall>ob \<in> set (observations s). obs_project ob = P \<and> obs_deleted_at_epoch ob = None
                  \<longrightarrow> ob\<lparr> obs_deleted_at_epoch := Some (cleanup_now clock options) \<rparr>
                        \<in> set (observations (snd (runRetentionCleanup clock options s))))
              \<and> (\<forall>su \<in> set (session_summaries s). sum_project su = P \<and> sum_deleted_at_epoch su = None
                  \<longrightarrow> su\<lparr> sum_deleted_at_epoch := Some (cleanup_now clock options) \<rparr>
                        \<in> set (session_summaries (snd (runRetentionCleanup clock options s))))
              \<and> (\<forall>up \<in> set (user_prompts s). prompt_of_project P s up \<and> up_deleted_at_epoch up = None
                  \<longrightarrow> up\<lparr> up_deleted_at_epoch := Some (cleanup_now clock options) \<rparr>
                        \<in> set (user_prompts (snd (runRetentionCleanup clock options s))))
              \<and> project_live_observations P (snd (runRetentionCleanup clock options s)) = []
              \<and> project_live_summaries P (snd (runRetentionCleanup clock options s)) = []
              \<and> project_live_prompts P (snd (runRetentionCleanup clock options s)) = [])
       \<and> (ep_pinned (getProjectRetentionPolicy P s)
          \<longrightarrow> (\<exists>line \<in> set (rr_details (fst (runRetentionCleanup clock options s))).
                  rd_project line = P \<and> rd_skippedReason line = Some SkippedPinned)
              \<and> filter (\<lambda>ob. obs_project ob = P)
                   (observations (snd (runRetentionCleanup clock options s)))
                 = filter (\<lambda>ob. \<not> past_cutoff (hard_delete_cutoff clock options) (obs_deleted_at_epoch ob))
                     (filter (\<lambda>ob. obs_project ob = P) (observations s))
              \<and> filter (\<lambda>su. sum_project su = P)
                   (session_summaries (snd (runRetentionCleanup clock options s)))
                 = filter (\<lambda>su. \<not> past_cutoff (hard_delete_cutoff clock options) (sum_deleted_at_epoch su))
                     (filter (\<lambda>su. sum_project su = P) (session_summaries s))
              \<and> filter (prompt_of_project P s)
                   (user_prompts (snd (runRetentionCleanup clock options s)))
                 = filter (\<lambda>up. \<not> past_cutoff (hard_delete_cutoff clock options) (up_deleted_at_epoch up))
                     (filter (prompt_of_project P s) (user_prompts s)))"
proof -
  define t where "t = cleanup_now clock options"
  define c where "c = hard_delete_cutoff clock options"
  define ttl where "ttl = cleanup_default_ttl options"
  from runRetentionCleanup_execute [OF x, of clock s] obtain r0 where
    run: "snd (runRetentionCleanup clock options s) =
            hard_delete c (snd (fold (retention_project False t ttl) (listRetentionProjects s) (r0, s)))"
    and det: "rr_details (fst (runRetentionCleanup clock options s)) =
            rr_details (fst (fold (retention_project False t ttl) (listRetentionProjects s) (r0, s)))"
    unfolding t_def c_def ttl_def by blast
  define s1 where "s1 = snd (fold (retention_project False t ttl) (listRetentionProjects s) (r0, s))"
  define s2 where "s2 = hard_delete c s1"
  have run2: "snd (runRetentionCleanup clock options s) = s2" by (simp add: run s2_def s1_def)
  have keep: "\<not> past_cutoff c (Some t)"
    using cutoff_before_now [of clock options] by (simp add: past_cutoff_def c_def t_def)
  have expired_part:
    "(\<forall>ob \<in> set (observations s). obs_project ob = P \<and> obs_deleted_at_epoch ob = None
        \<longrightarrow> ob\<lparr> obs_deleted_at_epoch := Some t \<rparr> \<in> set (observations s2))
     \<and> (\<forall>su \<in> set (session_summaries s). sum_project su = P \<and> sum_deleted_at_epoch su = None
        \<longrightarrow> su\<lparr> sum_deleted_at_epoch := Some t \<rparr> \<in> set (session_summaries s2))
     \<and> (\<forall>up \<in> set (user_prompts s). prompt_of_project P s up \<and> up_deleted_at_epoch up = None
        \<longrightarrow> up\<lparr> up_deleted_at_epoch := Some t \<rparr> \<in> set (user_prompts s2))
     \<and> project_live_observations P s2 = []
     \<and> project_live_summaries P s2 = []
     \<and> project_live_prompts P s2 = []"
    if pol: "\<not> ep_pinned (getProjectRetentionPolicy P s)" "ep_enabled (getProjectRetentionPolicy P s)"
      and ex: "expired t (effective_ttl_days ttl (getProjectRetentionPolicy P s))
                 (getProjectLastAccessEpoch P s)"
  proof -
    note loop = retention_loop_expired [OF d ne pol ex, of r0, folded s1_def]
    have o: "filter (\<lambda>ob. obs_project ob = P) (observations s2)
             = filter (\<lambda>ob. \<not> past_cutoff c (obs_deleted_at_epoch ob))
                 (map (\<lambda>ob. if obs_deleted_at_epoch ob = None
                             then ob\<lparr> obs_deleted_at_epoch := Some t \<rparr> else ob)
                    (filter (\<lambda>ob. obs_project ob = P) (observations s)))"
      unfolding s2_def by (simp only: hard_delete_rows loop)
    have u: "filter (\<lambda>su. sum_project su = P) (session_summaries s2)
             = filter (\<lambda>su. \<not> past_cutoff c (sum_deleted_at_epoch su))
                 (map (\<lambda>su. if sum_deleted_at_epoch su = None
                             then su\<lparr> sum_deleted_at_epoch := Some t \<rparr> else su)
                    (filter (\<lambda>su. sum_project su = P) (session_summaries s)))"
      unfolding s2_def by (simp only: hard_delete_rows loop)
    have pr: "filter (prompt_of_project P s) (user_prompts s2)
             = filter (\<lambda>up. \<not> past_cutoff c (up_deleted_at_epoch up))
                 (map (\<lambda>up. if up_deleted_at_epoch up = None
                             then up\<lparr> up_deleted_at_epoch := Some t \<rparr> else up)
                    (filter (prompt_of_project P s) (user_prompts s)))"
      unfolding s2_def by (simp only: hard_delete_rows loop)
    have "sdk_sessions s2 = sdk_sessions s" by (simp add: s2_def hard_delete_rows loop)
    then have pp: "prompt_of_project P s2 = prompt_of_project P s" by (rule prompt_of_project_sessions)
    have a1: "\<forall>ob \<in> set (observations s). obs_project ob = P \<and> obs_deleted_at_epoch ob = None
        \<longrightarrow> ob\<lparr> obs_deleted_at_epoch := Some t \<rparr> \<in> set (observations s2)"
    proof (intro ballI impI, elim conjE)
      fix ob assume "ob \<in> set (observations s)" "obs_project ob = P" "obs_deleted_at_epoch ob = None"
      then show "ob\<lparr> obs_deleted_at_epoch := Some t \<rparr> \<in> set (observations s2)"
        by (rule stamped_kept [where p = "\<lambda>ob. obs_project ob = P" and d = obs_deleted_at_epoch,
              OF _ _ _ o]) (simp add: keep)
    qed
    have a2: "\<forall>su \<in> set (session_summaries s). sum_project su = P \<and> sum_deleted_at_epoch su = None
        \<longrightarrow> su\<lparr> sum_deleted_at_epoch := Some t \<rparr> \<in> set (session_summaries s2)"
    proof (intro ballI impI, elim conjE)
      fix su assume "su \<in> set (session_summaries s)" "sum_project su = P" "sum_deleted_at_epoch su = None"
      then show "su\<lparr> sum_deleted_at_epoch := Some t \<rparr> \<in> set (session_summaries s2)"
        by (rule stamped_kept [where p = "\<lambda>su. sum_project su = P" and d = sum_deleted_at_epoch,
              OF _ _ _ u]) (simp add: keep)
    qed
    have a3: "\<forall>up \<in> set (user_prompts s). prompt_of_project P s up \<and> up_deleted_at_epoch up = None
        \<longrightarrow> up\<lparr> up_deleted_at_epoch := Some t \<rparr> \<in> set (user_prompts s2)"
    proof (intro ballI impI, elim conjE)
      fix up assume "up \<in> set (user_prompts s)" "prompt_of_project P s up" "up_deleted_at_epoch up = None"
      then show "up\<lparr> up_deleted_at_epoch := Some t \<rparr> \<in> set (user_prompts s2)"
        by (rule stamped_kept [where p = "prompt_of_project P s" and d = up_deleted_at_epoch,
              OF _ _ _ pr]) (simp add: keep)
    qed
    have b1: "project_live_observations P s2 = []"
      unfolding project_live_observations_alt
      by (rule stamped_none_live [OF o]) simp
    have b2: "project_live_summaries P s2 = []"
      unfolding project_live_summaries_alt
      by (rule stamped_none_live [OF u]) simp
    have "filter (\<lambda>up. up_deleted_at_epoch up = None)
            (filter (prompt_of_project P s) (user_prompts s2)) = []"
      by (rule stamped_none_live [OF pr]) simp
    then have b3: "project_live_prompts P s2 = []"
      by (intro project_live_prompts_none) (simp only: pp)
    from a1 a2 a3 b1 b2 b3 show ?thesis by (intro conjI)
  qed
  have pinned_part:
    "(\<exists>line \<in> set (rr_details (fst (runRetentionCleanup clock options s))).
        rd_project line = P \<and> rd_skippedReason line = Some SkippedPinned)
     \<and> filter (\<lambda>ob. obs_project ob = P) (observations s2)
         = filter (\<lambda>ob. \<not> past_cutoff c (obs_deleted_at_epoch ob))
             (filter (\<lambda>ob. obs_project ob = P) (observations s))
     \<and> filter (\<lambda>su. sum_project su = P) (session_summaries s2)
         = filter (\<lambda>su. \<not> past_cutoff c (sum_deleted_at_epoch su))
             (filter (\<lambda>su. sum_project su = P) (session_summaries s))
     \<and> filter (prompt_of_project P s) (user_prompts s2)
         = filter (\<lambda>up. \<not> past_cutoff c (up_deleted_at_epoch up))
             (filter (prompt_of_project P s) (user_prompts s))"
    if pin: "ep_pinned (getProjectRetentionPolicy P s)"
  proof -
    from pin ne have listed: "P \<in> set (listRetentionProjects s)" by (rule pinned_project_listed)
    have v: "same_project_view P s s1"
      unfolding s1_def
      using retention_fold_pinned [of "(r0, s)" P False t ttl "listRetentionProjects s"] d pin
      by simp
    have line: "\<exists>line \<in> set (rr_details (fst (runRetentionCleanup clock options s))).
        rd_project line = P \<and> rd_skippedReason line = Some SkippedPinned"
      unfolding det
      using retention_fold_pinned_detail [of "(r0, s)" P "listRetentionProjects s" False t ttl]
        d pin listed by simp
    from v have e: "filter (\<lambda>ob. obs_project ob = P) (observations s1)
                      = filter (\<lambda>ob. obs_project ob = P) (observations s)"
      "filter (\<lambda>su. sum_project su = P) (session_summaries s1)
                      = filter (\<lambda>su. sum_project su = P) (session_summaries s)"
      "filter (prompt_of_project P s) (user_prompts s1)
                      = filter (prompt_of_project P s) (user_prompts s)"
      by (simp_all only: same_project_view_def)
    from line show ?thesis unfolding s2_def by (simp only: hard_delete_rows e)
  qed
  from expired_part pinned_part show ?thesis
    unfolding run2 t_def [symmetric] c_def [symmetric] ttl_def [symmetric] by blast
qed

lemma retention_fold_store:
  "snd (fold (retention_project False t ttl) qs st) = fold (sweep_project t ttl) qs (snd st)"
proof (induction qs arbitrary: st)
  case Nil
  show ?case by simp
next
  case (Cons q qs)
  have "snd (retention_project False t ttl q st) = sweep_project t ttl q (snd st)"
    by (simp add: retention_project_store sweep_project_def)
  with Cons.IH [of "retention_project False t ttl q st"] show ?case by simp
qed

lemma runRetentionCleanup_store:
  assumes "\<not> rc_dryRun options"
  shows "snd (runRetentionCleanup clock options s) =
           hard_delete (hard_delete_cutoff clock options)
             (fold (sweep_project (cleanup_now clock options) (cleanup_default_ttl options))
                (listRetentionProjects s) s)"
proof -
  from runRetentionCleanup_execute [OF assms, of clock s] obtain r0 where
    "snd (runRetentionCleanup clock options s) =
           hard_delete (hard_delete_cutoff clock options)
             (snd (fold (retention_project False (cleanup_now clock options)
                           (cleanup_default_ttl options)) (listRetentionProjects s) (r0, s)))"
    by blast
  then show ?thesis by (simp add: retention_fold_store)
qed

lemmas demo_retention_rows =
  demo_retention_def demo_retention_session_def demo_retention_observation_def
  demo_retention_summary_def demo_retention_prompt_def demo_observation_row_def empty_store_def
  day_def DAY_MS_def

lemma demo_sweep_values:
  "\<not> rc_dryRun demo_sweep" "cleanup_now 0 demo_sweep = day 100"
  "cleanup_default_ttl demo_sweep = 30" "hard_delete_cutoff 0 demo_sweep = day 93"
  by (simp_all add: demo_sweep_def cleanup_now_def cleanup_default_ttl_def hard_delete_cutoff_def
        cleanup_soft_delete_days_def day_def)

lemma demo_projects: "listRetentionProjects demo_retention = [''keep'', ''old'']"
  by (simp add: listRetentionProjects_def sort_projects_def demo_retention_rows)

lemma demo_policies:
  "getProjectRetentionPolicy ''keep'' demo_retention
     = \<lparr> ep_enabled = True, ep_pinned = True, ep_ttlDays = None \<rparr>"
  "getProjectRetentionPolicy ''old'' demo_retention
     = \<lparr> ep_enabled = True, ep_pinned = False, ep_ttlDays = None \<rparr>"
  by (simp_all add: getProjectRetentionPolicy_def demo_retention_rows)

lemma demo_last_access:
  "getProjectLastAccessEpoch ''keep'' demo_retention = Some (day 60)"
  "getProjectLastAccessEpoch ''old'' demo_retention = Some (day 69)"
  by (simp_all add: getProjectLastAccessEpoch_def project_live_observations_def
        project_live_summaries_def project_live_prompts_def prompt_join_def max_epoch_def
        coalesce_def demo_retention_rows)

lemma demo_sweep_loop:
  "fold (sweep_project (day 100) 30) [''keep'', ''old''] demo_retention
     = soft_delete_project (day 100) ''old'' demo_retention"
  by (simp add: sweep_project_def demo_policies demo_last_access expired_def
        effective_ttl_days_def day_def DAY_MS_def)

lemma demo_sweep_store:
  "snd (runRetentionCleanup 0 demo_sweep demo_retention)
     = hard_delete (day 93) (soft_delete_project (day 100) ''old'' demo_retention)"
  by (simp only: runRetentionCleanup_store [OF demo_sweep_values(1)] demo_sweep_values
        demo_projects demo_sweep_loop)

lemma demo_sweep_observations:
  "observations (snd (runRetentionCleanup 0 demo_sweep demo_retention)) =
     [demo_retention_observation 1 ''old'' (day 69) (Some (day 100)),
      demo_retention_observation 2 ''keep'' (day 60) None]"
  unfolding demo_sweep_store
  by (simp add: hard_delete_def soft_delete_project_def past_cutoff_def demo_retention_rows)

text \<open>The pinned project \<open>keep\<close> is as stale as an expired one (40 days against a TTL of
  30), and the execute call removes its observation 3, which had been soft-deleted on
  day 50: the hard delete looks at no policy.\<close>

theorem pinned_project_counterexample:
  "ep_pinned (getProjectRetentionPolicy ''keep'' demo_retention)
   \<and> expired (cleanup_now 0 demo_sweep)
        (effective_ttl_days (cleanup_default_ttl demo_sweep)
           (getProjectRetentionPolicy ''keep'' demo_retention))
        (getProjectLastAccessEpoch ''keep'' demo_retention)
   \<and> map obs_id (filter (\<lambda>ob. obs_project ob = ''keep'') (observations demo_retention)) = [2, 3]
   \<and> map obs_id (filter (\<lambda>ob. obs_project ob = ''keep'')
                   (observations (snd (runRetentionCleanup 0 demo_sweep demo_retention)))) = [2]
   \<and> demo_retention_observation 3 ''keep'' (day 10) (Some (day 50))
        \<in> set (observations demo_retention)
   \<and> demo_retention_observation 3 ''keep'' (day 10) (Some (day 50))
        \<notin> set (observations (snd (runRetentionCleanup 0 demo_sweep demo_retention)))"
  by (simp add: demo_sweep_observations demo_policies demo_last_access demo_sweep_values
        expired_def effective_ttl_days_def)
     (simp add: demo_retention_rows)

theorem runRetentionCleanup_expired_and_pinned_witness:
  "distinct (map ses_content_session_id (sdk_sessions demo_retention))
   \<and> \<not> rc_dryRun demo_sweep
   \<and> \<not> ep_pinned (getProjectRetentionPolicy ''old'' demo_retention)
   \<and> ep_enabled (getProjectRetentionPolicy ''old'' demo_retention)
   \<and> getProjectLastAccessEpoch ''old'' demo_retention = Some (day 69)
   \<and> expired (cleanup_now 0 demo_sweep)
        (effective_ttl_days (cleanup_default_ttl demo_sweep)
           (getProjectRetentionPolicy ''old'' demo_retention))
        (getProjectLastAccessEpoch ''old'' demo_retention)
   \<and> demo_retention_observation 1 ''old'' (day 69) (Some (day 100))
        \<in> set (observations (snd (runRetentionCleanup 0 demo_sweep demo_retention)))
   \<and> demo_retention_summary\<lparr> sum_deleted_at_epoch := Some (day 100) \<rparr>
        \<in> set (session_summaries (snd (runRetentionCleanup 0 demo_sweep demo_retention)))
   \<and> (demo_retention_prompt 1 ''s-old'' (day 69))\<lparr> up_deleted_at_epoch := Some (day 100) \<rparr>
        \<in> set (user_prompts (snd (runRetentionCleanup 0 demo_sweep demo_retention)))
   \<and> project_live_observations ''old'' (snd (runRetentionCleanup 0 demo_sweep demo_retention)) = []
   \<and> project_live_summaries ''old'' (snd (runRetentionCleanup 0 demo_sweep demo_retention)) = []
   \<and> project_live_prompts ''old'' (snd (runRetentionCleanup 0 demo_sweep demo_retention)) = []
   \<and> ep_pinned (getProjectRetentionPolicy ''keep'' demo_retention)
   \<and> (\<exists>line \<in> set (rr_details (fst (runRetentionCleanup 0 demo_sweep demo_retention))).
         rd_project line = ''keep'' \<and> rd_skippedReason line = Some SkippedPinned)
   \<and> filter (\<lambda>ob. obs_project ob = ''keep'')
        (observations (snd (runRetentionCleanup 0 demo_sweep demo_retention)))
      = [demo_retention_observation 2 ''keep'' (day 60) None]
   \<and> filter (prompt_of_project ''keep'' demo_retention)
        (user_prompts (snd (runRetentionCleanup 0 demo_sweep demo_retention)))
      = [demo_retention_prompt 2 ''s-keep'' (day 60)]"
proof -
  have d: "distinct (map ses_content_session_id (sdk_sessions demo_retention))"
    by (simp add: demo_retention_def demo_retention_session_def)
  have x: "\<not> rc_dryRun demo_sweep" by (simp add: demo_sweep_def)
  have t: "cleanup_now 0 demo_sweep = day 100" by (rule demo_sweep_values)
  have old: "\<not> ep_pinned (getProjectRetentionPolicy ''old'' demo_retention)"
    "ep_enabled (getProjectRetentionPolicy ''old'' demo_retention)"
    "getProjectLastAccessEpoch ''old'' demo_retention = Some (day 69)"
    "expired (cleanup_now 0 demo_sweep)
        (effective_ttl_days (cleanup_default_ttl demo_sweep)
           (getProjectRetentionPolicy ''old'' demo_retention))
        (getProjectLastAccessEpoch ''old'' demo_retention)"
    by (simp_all add: demo_policies demo_last_access demo_sweep_values expired_def
          effective_ttl_days_def day_def DAY_MS_def)
  have keep: "ep_pinned (getProjectRetentionPolicy ''keep'' demo_retention)"
    by (simp add: demo_policies)
  have rows: "demo_retention_observation 1 ''old'' (day 69) None \<in> set (observations demo_retention)"
    "obs_project (demo_retention_observation 1 ''old'' (day 69) None) = ''old''"
    "obs_deleted_at_epoch (demo_retention_observation 1 ''old'' (day 69) None) = None"
    "(demo_retention_observation 1 ''old'' (day 69) None)\<lparr> obs_deleted_at_epoch := Some (day 100) \<rparr>
       = demo_retention_observation 1 ''old'' (day 69) (Some (day 100))"
    "demo_retention_summary \<in> set (session_summaries demo_retention)"
    "sum_project demo_retention_summary = ''old''"
    "sum_deleted_at_epoch demo_retention_summary = None"
    "demo_retention_prompt 1 ''s-old'' (day 69) \<in> set (user_prompts demo_retention)"
    "prompt_of_project ''old'' demo_retention (demo_retention_prompt 1 ''s-old'' (day 69))"
    "up_deleted_at_epoch (demo_retention_prompt 1 ''s-old'' (day 69)) = None"
    by (simp_all add: demo_retention_def demo_retention_observation_def demo_observation_row_def
          demo_retention_summary_def demo_retention_prompt_def demo_retention_session_def
          prompt_of_project_def)
  have before: "filter (\<lambda>ob. \<not> past_cutoff (hard_delete_cutoff 0 demo_sweep) (obs_deleted_at_epoch ob))
             (filter (\<lambda>ob. obs_project ob = ''keep'') (observations demo_retention))
           = [demo_retention_observation 2 ''keep'' (day 60) None]"
    "filter (\<lambda>up. \<not> past_cutoff (hard_delete_cutoff 0 demo_sweep) (up_deleted_at_epoch up))
             (filter (prompt_of_project ''keep'' demo_retention) (user_prompts demo_retention))
           = [demo_retention_prompt 2 ''s-keep'' (day 60)]"
    by (simp_all add: demo_sweep_values past_cutoff_def prompt_of_project_def demo_retention_rows)
  have ne: "''old'' \<noteq> []" "''keep'' \<noteq> []" by simp_all
  have p_old: "\<not> ep_pinned (getProjectRetentionPolicy ''old'' demo_retention)
     \<and> ep_enabled (getProjectRetentionPolicy ''old'' demo_retention)
     \<and> expired (cleanup_now 0 demo_sweep)
        (effective_ttl_days (cleanup_default_ttl demo_sweep)
           (getProjectRetentionPolicy ''old'' demo_retention))
        (getProjectLastAccessEpoch ''old'' demo_retention)"
    by (intro conjI old)
  note sweep_old = runRetentionCleanup_expired_and_pinned [OF d x ne(1), where clock = 0,
      THEN conjunct1, THEN mp, OF p_old, unfolded t]
  note sweep_keep = runRetentionCleanup_expired_and_pinned [OF d x ne(2), where clock = 0,
      THEN conjunct2, THEN mp, OF keep, unfolded before]
  from sweep_old rows(1-3)
  have "(demo_retention_observation 1 ''old'' (day 69) None)\<lparr> obs_deleted_at_epoch := Some (day 100) \<rparr>
        \<in> set (observations (snd (runRetentionCleanup 0 demo_sweep demo_retention)))"
    by blast
  then have a1: "demo_retention_observation 1 ''old'' (day 69) (Some (day 100))
        \<in> set (observations (snd (runRetentionCleanup 0 demo_sweep demo_retention)))"
    by (simp only: rows(4))
  from sweep_old rows(5-7)
  have a2: "demo_retention_summary\<lparr> sum_deleted_at_epoch := Some (day 100) \<rparr>
        \<in> set (session_summaries (snd (runRetentionCleanup 0 demo_sweep demo_retention)))"
    by blast
  from sweep_old rows(8-10)
  have a3: "(demo_retention_prompt 1 ''s-old'' (day 69))\<lparr> up_deleted_at_epoch := Some (day 100) \<rparr>
        \<in> set (user_prompts (snd (runRetentionCleanup 0 demo_sweep demo_retention)))"
    by blast
  from sweep_old
  have a4: "project_live_observations ''old'' (snd (runRetentionCleanup 0 demo_sweep demo_retention)) = []"
    "project_live_summaries ''old'' (snd (runRetentionCleanup 0 demo_sweep demo_retention)) = []"
    "project_live_prompts ''old'' (snd (runRetentionCleanup 0 demo_sweep demo_retention)) = []"
    by blast+
  from sweep_keep
  have b: "\<exists>line \<in> set (rr_details (fst (runRetentionCleanup 0 demo_sweep demo_retention))).
         rd_project line = ''keep'' \<and> rd_skippedReason line = Some SkippedPinned"
    "filter (\<lambda>ob. obs_project ob = ''keep'')
        (observations (snd (runRetentionCleanup 0 demo_sweep demo_retention)))
      = [demo_retention_observation 2 ''keep'' (day 60) None]"
    "filter (prompt_of_project ''keep'' demo_retention)
        (user_prompts (snd (runRetentionCleanup 0 demo_sweep demo_retention)))
      = [demo_retention_prompt 2 ''s-keep'' (day 60)]"
    by blast+
  from d x old keep a1 a2 a3 a4 b show ?thesis by (intro conjI)
qed

end
